theory Spec2Isabelle
  imports Main "HOL-Library.Word"
begin

unbundle bit_operations_syntax

section \<open>Field elements\<close>

text \<open>
  A Felt is an unsigned integer below the Cairo prime. The Go type wraps a Rust library
  that is not part of the sources at hand; only its tests are. A felt is modelled as the
  natural number it denotes, and every operation reduces its result modulo the prime.
\<close>

type_synonym felt = nat

definition CAIRO_PRIME :: nat where
  "CAIRO_PRIME = 2 ^ 251 + 17 * 2 ^ 192 + 1"

definition FeltZero :: felt where
  "FeltZero = 0"

definition FeltFromUint64 :: "64 word \<Rightarrow> felt" where
  "FeltFromUint64 w = unat w"

definition felt_Add :: "felt \<Rightarrow> felt \<Rightarrow> felt" where
  "felt_Add a b = (a + b) mod CAIRO_PRIME"

definition felt_Sub :: "felt \<Rightarrow> felt \<Rightarrow> felt" where
  "felt_Sub a b = (a + (CAIRO_PRIME - b mod CAIRO_PRIME)) mod CAIRO_PRIME"

definition felt_Mul :: "felt \<Rightarrow> felt \<Rightarrow> felt" where
  "felt_Mul a b = (a * b) mod CAIRO_PRIME"

definition felt_IsZero :: "felt \<Rightarrow> bool" where
  "felt_IsZero a = (a = 0)"

text \<open>
  Modelled from the spec: \<open>Felt.Bits\<close>, the bit length of a felt (the Go wrapper and the
  Rust function behind it are missing from the sources; the test \<open>TestBits\<close> expects
  0, 1, 4, 4 for 0, 1, 8, 15).
\<close>

fun Bits :: "felt \<Rightarrow> nat" where
  "Bits n = (if n = 0 then 0 else Suc (Bits (n div 2)))"

declare Bits.simps [simp del]

text \<open>
  Modelled from the spec: \<open>Felt.And\<close>, \<open>Felt.Xor\<close> and \<open>Felt.Or\<close>, the bitwise
  operations on the representation of two felts, read back as a felt.
\<close>

definition felt_And :: "felt \<Rightarrow> felt \<Rightarrow> felt" where
  "felt_And a b = (a AND b) mod CAIRO_PRIME"

definition felt_Xor :: "felt \<Rightarrow> felt \<Rightarrow> felt" where
  "felt_Xor a b = (a XOR b) mod CAIRO_PRIME"

definition felt_Or :: "felt \<Rightarrow> felt \<Rightarrow> felt" where
  "felt_Or a b = (a OR b) mod CAIRO_PRIME"

section \<open>Errors\<close>

text \<open>
  Go errors are values. Each error the modelled code creates is a constructor; the
  comment gives the message or constructor of the source. \<open>Panic\<close> stands for a Go
  run-time panic (nil dereference, index out of range).
\<close>

datatype error =
    ErrNonZeroHighBitError
  | ErrInvalidOp1RegError
  | ErrInvalidPcUpdateError
  | ErrInvalidResError
  | ErrInvalidOpcodeError
  | ErrInvalidApUpdateError
  | ConversionError felt \<comment> \<open>\<open>Felt.ToU64\<close> on a felt that does not fit\<close>
  | ErrSubDifferentSegments \<comment> \<open>"Cant subtract two relocatables with different segment indexes"\<close>
  | ErrSubNegativeOffset \<comment> \<open>"Relocatable subtraction yields relocatable with negative offset"\<close>
  | ErrRelocatableAdd \<comment> \<open>"RelocatableAdd"\<close>
  | ErrSubRelocatableFromFelt \<comment> \<open>"Cant sub Relocatable from Felt"\<close>
  | ErrUnallocatedSegment \<comment> \<open>"Error: Inserting into a non allocated segment"\<close>
  | ErrWriteOnce \<comment> \<open>"Memory is write-once, cannot overwrite memory value"\<close>
  | ErrValueNotFound \<comment> \<open>"Memory Get: Value not found"\<close>
  | ErrExpectedFelt \<comment> \<open>\<open>Memory.GetFelt\<close> on a cell that holds an address\<close>
  | ErrNotFeltElement \<comment> \<open>"NotFeltElement", the NotAFelt kind\<close>
  | ErrRangeCheckNumOutOfBounds \<comment> \<open>"RangeCheckNumOutOfBounds", the OutsideBounds kind\<close>
  | ErrFeltBiggerThanPowerOfTwo felt
  | ErrValidationFailed \<comment> \<open>"Validation Failed", of the test rule\<close>
  | ErrFailedToFetchInstruction \<comment> \<open>"Failed to fetch instruction at ..."\<close>
  | ErrWrongInstructionEncoding \<comment> \<open>"Wrong instruction encoding"\<close>
  | ErrFailedToComputeDstAddr
  | ErrFailedToComputeOp0Addr error
  | ErrFailedToComputeOp1Addr error
  | ErrUnknownOp0Imm \<comment> \<open>\<open>VirtualMachineError\<close> "UnknownOp0"\<close>
  | ErrUnknownOp0 \<comment> \<open>"Unknown Op0"\<close>
  | ErrAddressNotRelocatable
  | ErrNegativeOffset \<comment> \<open>\<open>SubUint\<close> below offset zero\<close>
  | ErrFailedToDeduceOp0 \<comment> \<open>"Failed to compute or deduce op0"\<close>
  | ErrFailedToDeduceOp1 \<comment> \<open>"Failed to compute or deduce op1"\<close>
  | ErrComputeResRelocatableMul
  | ErrUnconstrainedResAssertEq
  | ErrDiffAssertValues
  | ErrCantWriteReturnPc
  | ErrCantWriteReturnFp
  | ErrUnconstrainedResJump
  | ErrJumpTargetNotRelocatable
  | ErrUnconstrainedResJumpRel
  | ErrRelJumpTargetNotFelt
  | ErrUnconstrainedResAdd
  | ErrBuiltinNotInLayout \<comment> \<open>"Builtin(s) ... not present in layout ..."\<close>
  | ErrRunnerCalledTwice
  | ErrEndOfProgram int \<comment> \<open>"EndOfProgram: n"\<close>
  | ErrInsufficientAllocatedCells \<comment> \<open>the sentinel \<open>memory.ErrInsufficientAllocatedCells\<close>\<close>
  | ErrWrap error string \<comment> \<open>an error wrapping another one, with a message\<close>
  | Panic

text \<open>\<open>errors.Unwrap\<close>: the error wrapped by the given one, if any.\<close>

fun errors_Unwrap :: "error \<Rightarrow> error option" where
  "errors_Unwrap (ErrWrap e msg) = Some e"
| "errors_Unwrap _ = None"

text \<open>\<open>Felt.ToU64\<close>: fails when the felt does not fit 64 bits.\<close>

definition ToU64 :: "felt \<Rightarrow> error + 64 word" where
  "ToU64 f = (if f < 2 ^ 64 then Inr (of_nat f) else Inl (ConversionError f))"

text \<open>
  Modelled from the spec: \<open>Felt.Div\<close>, division in the field (multiplication by the
  modular inverse, here the power \<open>P - 2\<close>).
\<close>

definition felt_Div :: "felt \<Rightarrow> felt \<Rightarrow> felt" where
  "felt_Div a b = (a * (b ^ (CAIRO_PRIME - 2) mod CAIRO_PRIME)) mod CAIRO_PRIME"

section \<open>Instruction decoding\<close>

datatype Register = AP | FP

datatype Op1Src = Op1SrcImm | Op1SrcAP | Op1SrcFP | Op1SrcOp0

datatype ResLogic = ResOp1 | ResAdd | ResMul | ResUnconstrained

datatype PcUpdate = PcUpdateRegular | PcUpdateJump | PcUpdateJumpRel | PcUpdateJnz

datatype ApUpdate = ApUpdateRegular | ApUpdateAdd | ApUpdateAdd1 | ApUpdateAdd2

datatype FpUpdate = FpUpdateRegular | FpUpdateAPPlus2 | FpUpdateDst

datatype Opcode = NOp | AssertEq | Call | Ret

record Instruction =
  Off0 :: int
  Off1 :: int
  Off2 :: int
  DstReg :: Register
  Op0Reg :: Register
  Op1Addr :: Op1Src
  ResLogic :: ResLogic
  PcUpdate :: PcUpdate
  ApUpdate :: ApUpdate
  FpUpdate :: FpUpdate
  Opcode :: Opcode

text \<open>\<open>int(int16(uint16(offset) - bias))\<close> with \<open>bias = 1 << 15\<close>.\<close>

definition fromBiasedRepresentation :: "64 word \<Rightarrow> int" where
  "fromBiasedRepresentation offset = sint ((ucast offset :: 16 word) - push_bit 15 1)"

definition DecodeInstruction :: "64 word \<Rightarrow> error + Instruction" where
  "DecodeInstruction encodedInstruction =
    (let HighBit = (push_bit 63 1 :: 64 word);
         DstRegMask = (0x0001 :: 64 word); DstRegOff = (0 :: nat);
         Op0RegMask = (0x0002 :: 64 word); Op0RegOff = (1 :: nat);
         Op1SrcMask = (0x001C :: 64 word); Op1SrcOff = (2 :: nat);
         ResLogicMask = (0x0060 :: 64 word); ResLogicOff = (5 :: nat);
         PcUpdateMask = (0x0380 :: 64 word); PcUpdateOff = (7 :: nat);
         ApUpdateMask = (0x0C00 :: 64 word); ApUpdateOff = (10 :: nat);
         OpcodeMask = (0x7000 :: 64 word); OpcodeOff = (12 :: nat)
     in
     if encodedInstruction AND HighBit \<noteq> 0 then Inl ErrNonZeroHighBitError
     else
       let offset0 = fromBiasedRepresentation (encodedInstruction AND 0xFFFF);
           offset1 = fromBiasedRepresentation (drop_bit 16 encodedInstruction AND 0xFFFF);
           offset2 = fromBiasedRepresentation (drop_bit 32 encodedInstruction AND 0xFFFF);
           flags = drop_bit 48 encodedInstruction;
           dstRegNum = drop_bit DstRegOff (flags AND DstRegMask);
           op0RegNum = drop_bit Op0RegOff (flags AND Op0RegMask);
           op1SrcNum = drop_bit Op1SrcOff (flags AND Op1SrcMask);
           resLogicNum = drop_bit ResLogicOff (flags AND ResLogicMask);
           pcUpdateNum = drop_bit PcUpdateOff (flags AND PcUpdateMask);
           apUpdateNum = drop_bit ApUpdateOff (flags AND ApUpdateMask);
           opCodeNum = drop_bit OpcodeOff (flags AND OpcodeMask);
           dstRegister = (if dstRegNum = 1 then FP else AP);
           op0Register = (if op0RegNum = 1 then FP else AP)
       in
       case (if op1SrcNum = 0 then Some Op1SrcOp0
             else if op1SrcNum = 1 then Some Op1SrcImm
             else if op1SrcNum = 2 then Some Op1SrcFP
             else if op1SrcNum = 4 then Some Op1SrcAP
             else None) of
         None \<Rightarrow> Inl ErrInvalidOp1RegError
       | Some op1Src \<Rightarrow>
       case (if pcUpdateNum = 0 then Some PcUpdateRegular
             else if pcUpdateNum = 1 then Some PcUpdateJump
             else if pcUpdateNum = 2 then Some PcUpdateJumpRel
             else if pcUpdateNum = 4 then Some PcUpdateJnz
             else None) of
         None \<Rightarrow> Inl ErrInvalidPcUpdateError
       | Some pcUpdate \<Rightarrow>
       case (if resLogicNum = 0 then
               (if pcUpdate = PcUpdateJnz then Some ResUnconstrained else Some ResOp1)
             else if resLogicNum = 1 then Some ResAdd
             else if resLogicNum = 2 then Some ResMul
             else None) of
         None \<Rightarrow> Inl ErrInvalidResError
       | Some res \<Rightarrow>
       case (if opCodeNum = 0 then Some NOp
             else if opCodeNum = 1 then Some Call
             else if opCodeNum = 2 then Some Ret
             else if opCodeNum = 4 then Some AssertEq
             else None) of
         None \<Rightarrow> Inl ErrInvalidOpcodeError
       | Some opcode \<Rightarrow>
       case (if apUpdateNum = 0 then
               (if opcode = Call then Some ApUpdateAdd2 else Some ApUpdateRegular)
             else if apUpdateNum = 1 then Some ApUpdateAdd
             else if apUpdateNum = 2 then Some ApUpdateAdd1
             else None) of
         None \<Rightarrow> Inl ErrInvalidApUpdateError
       | Some apUpdate \<Rightarrow>
       let fpUpdate = (case opcode of Call \<Rightarrow> FpUpdateAPPlus2
                                    | Ret \<Rightarrow> FpUpdateDst
                                    | _ \<Rightarrow> FpUpdateRegular)
       in Inr \<lparr> Off0 = offset0, Off1 = offset1, Off2 = offset2,
                 DstReg = dstRegister, Op0Reg = op0Register, Op1Addr = op1Src,
                 ResLogic = res, PcUpdate = pcUpdate, ApUpdate = apUpdate,
                 FpUpdate = fpUpdate, Opcode = opcode \<rparr>)"


subsection \<open>The decoding table of the specification\<close>

text \<open>
  The specification describes the instruction word arithmetically: three 16-bit groups
  biased by \<open>2\<^sup>1\<^sup>5\<close>, then a flag block from bit 48 on, each field decoded by a
  table. These definitions follow the specification's words, to be compared with
  \<open>DecodeInstruction\<close> above.
\<close>

definition instr_field :: "64 word \<Rightarrow> nat \<Rightarrow> nat \<Rightarrow> nat" where
  "instr_field w lo n = (unat w div 2 ^ lo) mod 2 ^ n"

definition spec_offset :: "nat \<Rightarrow> int" where
  "spec_offset biased16 = int biased16 - 2 ^ 15"

definition spec_reg :: "nat \<Rightarrow> Register" where
  "spec_reg b = (if b = 0 then AP else FP)"

definition spec_op1_src :: "nat \<Rightarrow> Op1Src option" where
  "spec_op1_src n =
     (if n = 0 then Some Op1SrcOp0 else if n = 1 then Some Op1SrcImm
      else if n = 2 then Some Op1SrcFP else if n = 4 then Some Op1SrcAP else None)"

definition spec_pc_update :: "nat \<Rightarrow> PcUpdate option" where
  "spec_pc_update n =
     (if n = 0 then Some PcUpdateRegular else if n = 1 then Some PcUpdateJump
      else if n = 2 then Some PcUpdateJumpRel else if n = 4 then Some PcUpdateJnz else None)"

definition spec_res_logic :: "nat \<Rightarrow> PcUpdate \<Rightarrow> ResLogic option" where
  "spec_res_logic n pc =
     (if n = 0 then (if pc = PcUpdateJnz then Some ResUnconstrained else Some ResOp1)
      else if n = 1 then Some ResAdd else if n = 2 then Some ResMul else None)"

definition spec_opcode :: "nat \<Rightarrow> Opcode option" where
  "spec_opcode n =
     (if n = 0 then Some NOp else if n = 1 then Some Call
      else if n = 2 then Some Ret else if n = 4 then Some AssertEq else None)"

definition spec_ap_update :: "nat \<Rightarrow> Opcode \<Rightarrow> ApUpdate option" where
  "spec_ap_update n opc =
     (if n = 0 then (if opc = Call then Some ApUpdateAdd2 else Some ApUpdateRegular)
      else if n = 1 then Some ApUpdateAdd else if n = 2 then Some ApUpdateAdd1 else None)"

definition spec_fp_update :: "Opcode \<Rightarrow> FpUpdate" where
  "spec_fp_update opc =
     (if opc = Call then FpUpdateAPPlus2 else if opc = Ret then FpUpdateDst
      else FpUpdateRegular)"

text \<open>The instruction the table assigns to a word, when every flag field is valid.\<close>

definition spec_decode :: "64 word \<Rightarrow> Instruction option" where
  "spec_decode w =
    (case spec_op1_src (instr_field w 50 3) of None \<Rightarrow> None | Some op1 \<Rightarrow>
    (case spec_pc_update (instr_field w 55 3) of None \<Rightarrow> None | Some pc \<Rightarrow>
    (case spec_res_logic (instr_field w 53 2) pc of None \<Rightarrow> None | Some res \<Rightarrow>
    (case spec_opcode (instr_field w 60 3) of None \<Rightarrow> None | Some opc \<Rightarrow>
    (case spec_ap_update (instr_field w 58 2) opc of None \<Rightarrow> None | Some ap \<Rightarrow>
      Some \<lparr> Off0 = spec_offset (instr_field w 0 16),
             Off1 = spec_offset (instr_field w 16 16),
             Off2 = spec_offset (instr_field w 32 16),
             DstReg = spec_reg (instr_field w 48 1),
             Op0Reg = spec_reg (instr_field w 49 1),
             Op1Addr = op1, ResLogic = res, PcUpdate = pc, ApUpdate = ap,
             FpUpdate = spec_fp_update opc, Opcode = opc \<rparr>)))))"

text \<open>The decoding errors that correspond to the flag fields holding an invalid pattern.\<close>

definition invalid_field_errors :: "64 word \<Rightarrow> error set" where
  "invalid_field_errors w =
     (if instr_field w 50 3 \<in> {0, 1, 2, 4} then {} else {ErrInvalidOp1RegError}) \<union>
     (if instr_field w 53 2 \<in> {0, 1, 2} then {} else {ErrInvalidResError}) \<union>
     (if instr_field w 55 3 \<in> {0, 1, 2, 4} then {} else {ErrInvalidPcUpdateError}) \<union>
     (if instr_field w 58 2 \<in> {0, 1, 2} then {} else {ErrInvalidApUpdateError}) \<union>
     (if instr_field w 60 3 \<in> {0, 1, 2, 4} then {} else {ErrInvalidOpcodeError})"


section \<open>Addresses and memory values\<close>

text \<open>
  \<open>SegmentIndex\<close> is a Go \<open>int\<close> and \<open>Offset\<close> a Go \<open>uint\<close>, 64 bits wide: offset
  arithmetic written with \<open>+\<close> in the source wraps around.
\<close>

record Relocatable =
  SegmentIndex :: int
  Offset :: "64 word"

definition NewRelocatable :: "int \<Rightarrow> 64 word \<Rightarrow> Relocatable" where
  "NewRelocatable segment_idx offset = \<lparr> SegmentIndex = segment_idx, Offset = offset \<rparr>"

datatype MaybeRelocatable =
    NewMaybeRelocatableFelt felt
  | NewMaybeRelocatableRelocatable Relocatable

fun GetFelt :: "MaybeRelocatable \<Rightarrow> felt option" where
  "GetFelt (NewMaybeRelocatableFelt f) = Some f"
| "GetFelt (NewMaybeRelocatableRelocatable r) = None"

fun GetRelocatable :: "MaybeRelocatable \<Rightarrow> Relocatable option" where
  "GetRelocatable (NewMaybeRelocatableRelocatable r) = Some r"
| "GetRelocatable (NewMaybeRelocatableFelt f) = None"

definition AddFelt :: "Relocatable \<Rightarrow> felt \<Rightarrow> error + Relocatable" where
  "AddFelt r other =
     (let new_offset_felt = felt_Add (FeltFromUint64 (Offset r)) other in
      case ToU64 new_offset_felt of
        Inl err \<Rightarrow> Inl err
      | Inr new_offset \<Rightarrow> Inr (NewRelocatable (SegmentIndex r) new_offset))"

definition Relocatable_Sub :: "Relocatable \<Rightarrow> Relocatable \<Rightarrow> error + 64 word" where
  "Relocatable_Sub r other =
     (if SegmentIndex r \<noteq> SegmentIndex other then Inl ErrSubDifferentSegments
      else if Offset r < Offset other then Inl ErrSubNegativeOffset
      else Inr (Offset r - Offset other))"

definition SubFelt :: "Relocatable \<Rightarrow> felt \<Rightarrow> error + Relocatable" where
  "SubFelt r other =
     (let new_offset_felt = felt_Sub (FeltFromUint64 (Offset r)) other in
      case ToU64 new_offset_felt of
        Inl err \<Rightarrow> Inl err
      | Inr new_offset \<Rightarrow> Inr (NewRelocatable (SegmentIndex r) new_offset))"

text \<open>
  Modelled from the spec: \<open>Relocatable.AddUint\<close> and \<open>Relocatable.SubUint\<close>, missing
  from the sources: signed add/sub on the address offset, with wraparound on the
  offset; a negative result fails.
\<close>

definition AddUint :: "Relocatable \<Rightarrow> 64 word \<Rightarrow> Relocatable" where
  "AddUint r other = NewRelocatable (SegmentIndex r) (Offset r + other)"

definition SubUint :: "Relocatable \<Rightarrow> 64 word \<Rightarrow> error + Relocatable" where
  "SubUint r other =
     (if Offset r < other then Inl ErrNegativeOffset
      else Inr (NewRelocatable (SegmentIndex r) (Offset r - other)))"

text \<open>
  Modelled from the spec: \<open>Relocatable.AddMaybeRelocatable\<close>, missing from the sources:
  address + felt is an address, address + address fails.
\<close>

definition AddMaybeRelocatable :: "Relocatable \<Rightarrow> MaybeRelocatable \<Rightarrow> error + Relocatable" where
  "AddMaybeRelocatable r other =
     (case GetFelt other of
        None \<Rightarrow> Inl ErrRelocatableAdd
      | Some felt \<Rightarrow> AddFelt r felt)"

definition MaybeRelocatable_Add :: "MaybeRelocatable \<Rightarrow> MaybeRelocatable \<Rightarrow> error + MaybeRelocatable" where
  "MaybeRelocatable_Add m other =
     (case (m, other) of
        (NewMaybeRelocatableFelt m_int, NewMaybeRelocatableFelt other_int) \<Rightarrow>
          Inr (NewMaybeRelocatableFelt (felt_Add m_int other_int))
      | (NewMaybeRelocatableRelocatable m_rel, NewMaybeRelocatableFelt other_felt) \<Rightarrow>
          (case AddFelt m_rel other_felt of
             Inl err \<Rightarrow> Inl err
           | Inr relocatable \<Rightarrow> Inr (NewMaybeRelocatableRelocatable relocatable))
      | (NewMaybeRelocatableFelt m_felt, NewMaybeRelocatableRelocatable other_rel) \<Rightarrow>
          (case AddFelt other_rel m_felt of
             Inl err \<Rightarrow> Inl err
           | Inr relocatable \<Rightarrow> Inr (NewMaybeRelocatableRelocatable relocatable))
      | (NewMaybeRelocatableRelocatable m_rel, NewMaybeRelocatableRelocatable other_rel) \<Rightarrow>
          Inl ErrRelocatableAdd)"

definition MaybeRelocatable_Sub :: "MaybeRelocatable \<Rightarrow> MaybeRelocatable \<Rightarrow> error + MaybeRelocatable" where
  "MaybeRelocatable_Sub m other =
     (case (m, other) of
        (NewMaybeRelocatableFelt m_int, NewMaybeRelocatableFelt other_felt) \<Rightarrow>
          Inr (NewMaybeRelocatableFelt (felt_Sub m_int other_felt))
      | (NewMaybeRelocatableRelocatable m_rel, NewMaybeRelocatableFelt other_felt) \<Rightarrow>
          (case SubFelt m_rel other_felt of
             Inl err \<Rightarrow> Inl err
           | Inr relocatable \<Rightarrow> Inr (NewMaybeRelocatableRelocatable relocatable))
      | (NewMaybeRelocatableRelocatable m_rel, NewMaybeRelocatableRelocatable other_rel) \<Rightarrow>
          (case Relocatable_Sub m_rel other_rel of
             Inl err \<Rightarrow> Inl err
           | Inr offset_diff \<Rightarrow> Inr (NewMaybeRelocatableFelt (FeltFromUint64 offset_diff)))
      | (NewMaybeRelocatableFelt m_int, NewMaybeRelocatableRelocatable other_rel) \<Rightarrow>
          Inl ErrSubRelocatableFromFelt)"

text \<open>\<open>MaybeRelocatable.IsZero\<close>: a felt that is zero; an address is never zero.\<close>

definition IsZero :: "MaybeRelocatable \<Rightarrow> bool" where
  "IsZero m = (case GetFelt m of Some felt \<Rightarrow> felt_IsZero felt | None \<Rightarrow> False)"

section \<open>Memory\<close>

text \<open>The Go conversion \<open>uint(i)\<close> of an \<open>int\<close>: the value modulo \<open>2\<^sup>6\<^sup>4\<close>.\<close>

definition uint_of_int :: "int \<Rightarrow> nat" where
  "uint_of_int i = nat (i mod 2 ^ 64)"

text \<open>
  The memory maps addresses to values, counts the allocated segments, and keeps one
  validation rule per segment together with the set of addresses already validated.
  A rule receives the memory and an address; the rules of the sources only read cells,
  so a rule is a function of the cell map. \<open>num_segments\<close> only ever counts up from
  zero in steps of one and is a natural number here.
\<close>

type_synonym memory_data = "Relocatable \<rightharpoonup> MaybeRelocatable"

type_synonym ValidationRule = "memory_data \<Rightarrow> Relocatable \<Rightarrow> error + Relocatable list"

record Memory =
  data :: memory_data
  num_segments :: nat
  validation_rules :: "nat \<rightharpoonup> ValidationRule"
  validated_addresses :: "Relocatable set"
  accessed_addresses :: "Relocatable set"

definition NewMemory :: Memory where
  "NewMemory = \<lparr> data = Map.empty, num_segments = 0, validation_rules = Map.empty,
                 validated_addresses = {}, accessed_addresses = {} \<rparr>"

definition AddValidationRule :: "nat \<Rightarrow> ValidationRule \<Rightarrow> Memory \<Rightarrow> Memory" where
  "AddValidationRule segment_index rule m =
     m\<lparr> validation_rules := (validation_rules m)(segment_index \<mapsto> rule) \<rparr>"

text \<open>
  A method that can fail after it has changed the memory returns the error (if any)
  together with the memory it leaves behind.
\<close>

definition validateAddress :: "Relocatable \<Rightarrow> Memory \<Rightarrow> error option \<times> Memory" where
  "validateAddress addr m =
     (if SegmentIndex addr < 0 \<or> addr \<in> validated_addresses m then (None, m)
      else case validation_rules m (uint_of_int (SegmentIndex addr)) of
        None \<Rightarrow> (None, m)
      | Some rule \<Rightarrow>
          (case rule (data m) addr of
             Inl err \<Rightarrow> (Some err, m)
           | Inr validated \<Rightarrow>
               (None, m\<lparr> validated_addresses := validated_addresses m \<union> set validated \<rparr>)))"

definition Insert :: "Relocatable \<Rightarrow> MaybeRelocatable \<Rightarrow> Memory \<Rightarrow> error option \<times> Memory" where
  "Insert addr val m =
     (if SegmentIndex addr \<ge> int (num_segments m) then (Some ErrUnallocatedSegment, m)
      else if (case data m addr of Some prev_elem \<Rightarrow> prev_elem \<noteq> val | None \<Rightarrow> False)
        then (Some ErrWriteOnce, m)
      else validateAddress addr (m\<lparr> data := (data m)(addr \<mapsto> val) \<rparr>))"

definition Get :: "Memory \<Rightarrow> Relocatable \<Rightarrow> error + MaybeRelocatable" where
  "Get m addr = (case data m addr of None \<Rightarrow> Inl ErrValueNotFound | Some v \<Rightarrow> Inr v)"

text \<open>
  Modelled from the spec: \<open>Memory.GetFelt\<close>, missing from the sources: the felt stored
  at an address; fails when the cell is absent or holds an address (ExpectedFelt).
\<close>

definition Memory_GetFelt :: "memory_data \<Rightarrow> Relocatable \<Rightarrow> error + felt" where
  "Memory_GetFelt d addr =
     (case d addr of
        None \<Rightarrow> Inl ErrValueNotFound
      | Some v \<Rightarrow> (case GetFelt v of None \<Rightarrow> Inl ErrExpectedFelt | Some f \<Rightarrow> Inr f))"

text \<open>Modelled from the spec: \<open>Memory.MarkAsAccessed\<close>, missing from the sources.\<close>

definition MarkAsAccessed :: "Relocatable \<Rightarrow> Memory \<Rightarrow> Memory" where
  "MarkAsAccessed addr m = m\<lparr> accessed_addresses := insert addr (accessed_addresses m) \<rparr>"

text \<open>
  \<open>ValidateExistingMemory\<close> ranges over a Go map, whose iteration order is not
  specified. The order of the visit is an argument: a list of the populated addresses.
\<close>

fun ValidateExistingMemory :: "Relocatable list \<Rightarrow> Memory \<Rightarrow> error option \<times> Memory" where
  "ValidateExistingMemory [] m = (None, m)"
| "ValidateExistingMemory (addr # rest) m =
     (case validateAddress addr m of
        (Some err, m') \<Rightarrow> (Some err, m')
      | (None, m') \<Rightarrow> ValidateExistingMemory rest m')"

subsection \<open>Segment manager\<close>

record MemorySegmentManager =
  segmentSizes :: "nat \<rightharpoonup> nat"
  Memory :: Memory

definition NewMemorySegmentManager :: MemorySegmentManager where
  "NewMemorySegmentManager = \<lparr> segmentSizes = Map.empty, Memory = NewMemory \<rparr>"

definition AddSegment :: "MemorySegmentManager \<Rightarrow> Relocatable \<times> MemorySegmentManager" where
  "AddSegment m =
     (let ptr = \<lparr> SegmentIndex = int (num_segments (Memory m)), Offset = 0 \<rparr> in
      (ptr, m\<lparr> Memory := (Memory m)\<lparr> num_segments := num_segments (Memory m) + 1 \<rparr> \<rparr>))"

fun LoadData :: "Relocatable \<Rightarrow> MaybeRelocatable list \<Rightarrow> MemorySegmentManager
    \<Rightarrow> (error + Relocatable) \<times> MemorySegmentManager" where
  "LoadData ptr [] m = (Inr ptr, m)"
| "LoadData ptr (val # rest) m =
     (case Insert ptr val (Memory m) of
        (Some err, mem') \<Rightarrow> (Inl err, m\<lparr> Memory := mem' \<rparr>)
      | (None, mem') \<Rightarrow> LoadData (ptr\<lparr> Offset := Offset ptr + 1 \<rparr>) rest (m\<lparr> Memory := mem' \<rparr>))"


section \<open>Builtin runners\<close>

text \<open>
  A builtin runner owns a segment (\<open>base\<close>) and is \<open>included\<close> when the program
  declares it. The Pedersen runner remembers the output cells it has deduced in
  \<open>verified_addresses\<close>, the Poseidon runner caches its outputs. The hash and the
  permutation are foreign functions outside the sources: each runner carries the one it
  calls. The accounting fields of the runners (ratio, stop pointer) play no part in
  deduction or validation and are left out.
\<close>

datatype BuiltinRunner =
    RangeCheckBuiltinRunner (base: Relocatable) (included: bool)
  | PedersenBuiltinRunner (base: Relocatable) (included: bool)
      (verified_addresses: "bool list") (PedersenHash: "felt \<Rightarrow> felt \<Rightarrow> felt")
  | PoseidonBuiltinRunner (base: Relocatable) (included: bool)
      (cache: "Relocatable \<rightharpoonup> felt")
      (PoseidonPermuteComp: "felt \<times> felt \<times> felt \<Rightarrow> felt \<times> felt \<times> felt")
  | BitwiseBuiltinRunner (base: Relocatable) (included: bool)

text \<open>The names are those the walkthrough returns, the bitwise runner's included.\<close>

fun Name :: "BuiltinRunner \<Rightarrow> string" where
  "Name (RangeCheckBuiltinRunner b i) = ''range_check''"
| "Name (PedersenBuiltinRunner b i v h) = ''pedersen''"
| "Name (PoseidonBuiltinRunner b i c f) = ''poseidon''"
| "Name (BitwiseBuiltinRunner b i) = ''range_check''"

fun Include :: "bool \<Rightarrow> BuiltinRunner \<Rightarrow> BuiltinRunner" where
  "Include include (RangeCheckBuiltinRunner b i) = RangeCheckBuiltinRunner b include"
| "Include include (PedersenBuiltinRunner b i v h) = PedersenBuiltinRunner b include v h"
| "Include include (PoseidonBuiltinRunner b i c f) = PoseidonBuiltinRunner b include c f"
| "Include include (BitwiseBuiltinRunner b i) = BitwiseBuiltinRunner b include"

fun set_base :: "Relocatable \<Rightarrow> BuiltinRunner \<Rightarrow> BuiltinRunner" where
  "set_base p (RangeCheckBuiltinRunner b i) = RangeCheckBuiltinRunner p i"
| "set_base p (PedersenBuiltinRunner b i v h) = PedersenBuiltinRunner p i v h"
| "set_base p (PoseidonBuiltinRunner b i c f) = PoseidonBuiltinRunner p i c f"
| "set_base p (BitwiseBuiltinRunner b i) = BitwiseBuiltinRunner p i"

text \<open>\<open>r.base = segments.AddSegment()\<close>, the same for every runner.\<close>

definition InitializeSegments :: "BuiltinRunner \<Rightarrow> MemorySegmentManager
    \<Rightarrow> BuiltinRunner \<times> MemorySegmentManager" where
  "InitializeSegments r segments =
     (case AddSegment segments of (ptr, segments') \<Rightarrow> (set_base ptr r, segments'))"

definition InitialStack :: "BuiltinRunner \<Rightarrow> MaybeRelocatable list" where
  "InitialStack r = (if included r then [NewMaybeRelocatableRelocatable (base r)] else [])"

subsection \<open>Range check\<close>

text \<open>
  Modelled from the spec: the constants \<open>N_PARTS\<close> and \<open>INNER_RC_BOUND_SHIFT\<close>, whose
  declarations are missing from the sources; their product is the 128 of the
  specification.
\<close>

definition N_PARTS :: nat where
  "N_PARTS = 8"

definition INNER_RC_BOUND_SHIFT :: nat where
  "INNER_RC_BOUND_SHIFT = 16"

definition RangeCheck_ValidationRule :: ValidationRule where
  "RangeCheck_ValidationRule mem address =
     (case mem address of
        None \<Rightarrow> Inl ErrValueNotFound
      | Some res_val \<Rightarrow>
          (case GetFelt res_val of
             None \<Rightarrow> Inl ErrNotFeltElement
           | Some felt \<Rightarrow>
               if Bits felt \<le> N_PARTS * INNER_RC_BOUND_SHIFT then Inr [address]
               else Inl ErrRangeCheckNumOutOfBounds))"

fun BuiltinRunner_AddValidationRule :: "BuiltinRunner \<Rightarrow> Memory \<Rightarrow> Memory" where
  "BuiltinRunner_AddValidationRule (RangeCheckBuiltinRunner b i) mem =
     AddValidationRule (uint_of_int (SegmentIndex b)) RangeCheck_ValidationRule mem"
| "BuiltinRunner_AddValidationRule _ mem = mem"

subsection \<open>Bitwise\<close>

definition BITWISE_CELLS_PER_INSTANCE :: "64 word" where
  "BITWISE_CELLS_PER_INSTANCE = 5"

definition BITWISE_TOTAL_N_BITS :: nat where
  "BITWISE_TOTAL_N_BITS = 251"

definition BIWISE_INPUT_CELLS_PER_INSTANCE :: "64 word" where
  "BIWISE_INPUT_CELLS_PER_INSTANCE = 2"

text \<open>
  \<open>address.SubUint(index)\<close> is called with its error dropped; \<open>index\<close> is at most the
  offset, so the call cannot fail, and the value used on failure is the zero address.
\<close>

definition Bitwise_DeduceMemoryCell :: "Relocatable \<Rightarrow> memory_data
    \<Rightarrow> error + MaybeRelocatable option" where
  "Bitwise_DeduceMemoryCell address mem =
     (let index = Offset address mod BITWISE_CELLS_PER_INSTANCE in
      if index < BIWISE_INPUT_CELLS_PER_INSTANCE then Inr None
      else
        let x_addr = (case SubUint address index of Inr a \<Rightarrow> a | Inl err \<Rightarrow> NewRelocatable 0 0);
            y_addr = AddUint x_addr 1
        in
        case Memory_GetFelt mem x_addr of
          Inl err \<Rightarrow> Inr None
        | Inr num_x_felt \<Rightarrow>
        (case Memory_GetFelt mem y_addr of
          Inl err \<Rightarrow> Inr None
        | Inr num_y_felt \<Rightarrow>
          if Bits num_x_felt > BITWISE_TOTAL_N_BITS
            then Inl (ErrFeltBiggerThanPowerOfTwo num_x_felt)
          else if Bits num_y_felt > BITWISE_TOTAL_N_BITS
            then Inl (ErrFeltBiggerThanPowerOfTwo num_y_felt)
          else if index = 2
            then Inr (Some (NewMaybeRelocatableFelt (felt_And num_x_felt num_y_felt)))
          else if index = 3
            then Inr (Some (NewMaybeRelocatableFelt (felt_Xor num_x_felt num_y_felt)))
          else if index = 4
            then Inr (Some (NewMaybeRelocatableFelt (felt_Or num_x_felt num_y_felt)))
          else Inr None))"

subsection \<open>Pedersen\<close>

definition PEDERSEN_CELLS_PER_INSTANCE :: "64 word" where
  "PEDERSEN_CELLS_PER_INSTANCE = 3"

definition PEDERSEN_INPUT_CELLS_PER_INSTANCE :: "64 word" where
  "PEDERSEN_INPUT_CELLS_PER_INSTANCE = 2"

text \<open>
  \<open>int(address.Offset)\<close> reads the 64 bits as a signed number; indexing the slice
  outside its length panics.
\<close>

definition CheckVerifiedAddresses :: "bool list \<Rightarrow> Relocatable \<Rightarrow> error + bool" where
  "CheckVerifiedAddresses verified address =
     (if int (length verified) < sint (Offset address) then Inr False
      else if unat (Offset address) < length verified
        then Inr (verified ! unat (Offset address))
      else Inl Panic)"

definition ResizeVerifiedAddresses :: "bool list \<Rightarrow> Relocatable \<Rightarrow> error + bool list" where
  "ResizeVerifiedAddresses verified address =
     (let num = sint (Offset address) - int (length verified);
          verified' = (if num > 0 then verified @ replicate (nat num + 1) False else verified)
      in if unat (Offset address) < length verified'
           then Inr (verified'[unat (Offset address) := True])
         else Inl Panic)"

definition Pedersen_DeduceMemoryCell :: "(felt \<Rightarrow> felt \<Rightarrow> felt) \<Rightarrow> bool list \<Rightarrow> Relocatable
    \<Rightarrow> memory_data \<Rightarrow> (error + MaybeRelocatable option) \<times> bool list" where
  "Pedersen_DeduceMemoryCell hash verified address mem =
     (if Offset address mod PEDERSEN_CELLS_PER_INSTANCE \<noteq> PEDERSEN_INPUT_CELLS_PER_INSTANCE
        then (Inr None, verified)
      else case CheckVerifiedAddresses verified address of
        Inl err \<Rightarrow> (Inl err, verified)
      | Inr True \<Rightarrow> (Inr None, verified)
      | Inr False \<Rightarrow>
        (case Memory_GetFelt mem
                \<lparr> SegmentIndex = SegmentIndex address, Offset = Offset address - 1 \<rparr> of
           Inl err \<Rightarrow> (Inr None, verified)
         | Inr feltA \<Rightarrow>
        (case Memory_GetFelt mem
                \<lparr> SegmentIndex = SegmentIndex address, Offset = Offset address - 2 \<rparr> of
           Inl err \<Rightarrow> (Inr None, verified)
         | Inr feltB \<Rightarrow>
        (case ResizeVerifiedAddresses verified address of
           Inl err \<Rightarrow> (Inl err, verified)
         | Inr verified' \<Rightarrow>
             (Inr (Some (NewMaybeRelocatableFelt (hash feltB feltA))), verified')))))"

subsection \<open>Poseidon\<close>

definition POSEIDON_CELLS_PER_INSTANCE :: "64 word" where
  "POSEIDON_CELLS_PER_INSTANCE = 6"

definition POSEIDON_INPUT_CELLS_PER_INSTANCE :: "64 word" where
  "POSEIDON_INPUT_CELLS_PER_INSTANCE = 3"

definition Poseidon_DeduceMemoryCell ::
    "(felt \<times> felt \<times> felt \<Rightarrow> felt \<times> felt \<times> felt) \<Rightarrow> (Relocatable \<rightharpoonup> felt) \<Rightarrow> Relocatable
     \<Rightarrow> memory_data \<Rightarrow> (error + MaybeRelocatable option) \<times> (Relocatable \<rightharpoonup> felt)" where
  "Poseidon_DeduceMemoryCell permute p_cache address mem =
     (let index = Offset address mod POSEIDON_CELLS_PER_INSTANCE in
      if index < POSEIDON_INPUT_CELLS_PER_INSTANCE then (Inr None, p_cache)
      else case p_cache address of
        Some v \<Rightarrow> (Inr (Some (NewMaybeRelocatableFelt v)), p_cache)
      | None \<Rightarrow>
        let input_start_addr =
              (case SubUint address index of Inr a \<Rightarrow> a | Inl err \<Rightarrow> NewRelocatable 0 0);
            output_start_address = AddUint input_start_addr POSEIDON_INPUT_CELLS_PER_INSTANCE
        in
        case Memory_GetFelt mem (AddUint input_start_addr 0) of
          Inl err \<Rightarrow> (Inl err, p_cache)
        | Inr s0 \<Rightarrow>
        (case Memory_GetFelt mem (AddUint input_start_addr 1) of
          Inl err \<Rightarrow> (Inl err, p_cache)
        | Inr s1 \<Rightarrow>
        (case Memory_GetFelt mem (AddUint input_start_addr 2) of
          Inl err \<Rightarrow> (Inl err, p_cache)
        | Inr s2 \<Rightarrow>
        (case permute (s0, s1, s2) of (t0, t1, t2) \<Rightarrow>
          let p_cache' = p_cache(AddUint output_start_address 0 \<mapsto> t0,
                             AddUint output_start_address 1 \<mapsto> t1,
                             AddUint output_start_address 2 \<mapsto> t2)
          in (case p_cache' address of
                Some v \<Rightarrow> (Inr (Some (NewMaybeRelocatableFelt v)), p_cache')
              | None \<Rightarrow> (Inr (Some (NewMaybeRelocatableFelt FeltZero)), p_cache'))))))"

subsection \<open>Deduction through the runner interface\<close>

fun BuiltinRunner_DeduceMemoryCell :: "BuiltinRunner \<Rightarrow> Relocatable \<Rightarrow> memory_data
    \<Rightarrow> (error + MaybeRelocatable option) \<times> BuiltinRunner" where
  "BuiltinRunner_DeduceMemoryCell (RangeCheckBuiltinRunner b i) addr mem =
     (Inr None, RangeCheckBuiltinRunner b i)"
| "BuiltinRunner_DeduceMemoryCell (PedersenBuiltinRunner b i v h) addr mem =
     (case Pedersen_DeduceMemoryCell h v addr mem of
        (r, v') \<Rightarrow> (r, PedersenBuiltinRunner b i v' h))"
| "BuiltinRunner_DeduceMemoryCell (PoseidonBuiltinRunner b i c f) addr mem =
     (case Poseidon_DeduceMemoryCell f c addr mem of
        (r, c') \<Rightarrow> (r, PoseidonBuiltinRunner b i c' f))"
| "BuiltinRunner_DeduceMemoryCell (BitwiseBuiltinRunner b i) addr mem =
     (Bitwise_DeduceMemoryCell addr mem, BitwiseBuiltinRunner b i)"

section \<open>The virtual machine\<close>

record RunContext =
  Pc :: Relocatable
  Ap :: Relocatable
  Fp :: Relocatable

text \<open>A trace entry is the triple \<open>Pc\<close>, \<open>Ap\<close>, \<open>Fp\<close>.\<close>

datatype TraceEntry = TraceEntry Relocatable Relocatable Relocatable

record Operands =
  Dst :: MaybeRelocatable
  Op0 :: MaybeRelocatable
  Op1 :: MaybeRelocatable
  Res :: "MaybeRelocatable option"

text \<open>The step counter only counts up by one and is a natural number here.\<close>

record VirtualMachine =
  RunContext :: RunContext
  CurrentStep :: nat
  Segments :: MemorySegmentManager
  BuiltinRunners :: "BuiltinRunner list"
  Trace :: "TraceEntry list"

text \<open>Modelled from the spec: \<open>NewVirtualMachine\<close>, missing from the sources: an empty machine.\<close>

definition NewVirtualMachine :: VirtualMachine where
  "NewVirtualMachine =
     \<lparr> RunContext = \<lparr> Pc = NewRelocatable 0 0, Ap = NewRelocatable 0 0, Fp = NewRelocatable 0 0 \<rparr>,
       CurrentStep = 0, Segments = NewMemorySegmentManager, BuiltinRunners = [], Trace = [] \<rparr>"

definition Size :: "Instruction \<Rightarrow> 64 word" where
  "Size i = (if Op1Addr i = Op1SrcImm then 2 else 1)"

subsection \<open>Operand addresses\<close>

text \<open>
  \<open>uint(math.Abs(float64(off)))\<close> is the absolute value of the offset (exact for the
  16-bit offsets the decoder produces), as an unsigned 64-bit number.
\<close>

definition ComputeDstAddr :: "RunContext \<Rightarrow> Instruction \<Rightarrow> error + Relocatable" where
  "ComputeDstAddr run_context instruction =
     (let base_addr = (case DstReg instruction of AP \<Rightarrow> Ap run_context | FP \<Rightarrow> Fp run_context) in
      if Off0 instruction < 0 then SubUint base_addr (word_of_int \<bar>Off0 instruction\<bar>)
      else Inr (AddUint base_addr (word_of_int (Off0 instruction))))"

definition ComputeOp0Addr :: "RunContext \<Rightarrow> Instruction \<Rightarrow> error + Relocatable" where
  "ComputeOp0Addr run_context instruction =
     (let base_addr = (case Op0Reg instruction of AP \<Rightarrow> Ap run_context | FP \<Rightarrow> Fp run_context) in
      if Off1 instruction < 0 then SubUint base_addr (word_of_int \<bar>Off1 instruction\<bar>)
      else Inr (AddUint base_addr (word_of_int (Off1 instruction))))"

definition ComputeOp1Addr :: "RunContext \<Rightarrow> Instruction \<Rightarrow> MaybeRelocatable option
    \<Rightarrow> error + Relocatable" where
  "ComputeOp1Addr run_context instruction op0 =
     (case (case Op1Addr instruction of
              Op1SrcFP \<Rightarrow> Inr (Fp run_context)
            | Op1SrcAP \<Rightarrow> Inr (Ap run_context)
            | Op1SrcImm \<Rightarrow>
                if Off2 instruction = 1 then Inr (Pc run_context) else Inl ErrUnknownOp0Imm
            | Op1SrcOp0 \<Rightarrow>
                (case op0 of
                   None \<Rightarrow> Inl ErrUnknownOp0
                 | Some v \<Rightarrow>
                     (case GetRelocatable v of
                        Some rel \<Rightarrow> Inr rel
                      | None \<Rightarrow> Inl ErrAddressNotRelocatable))) of
        Inl err \<Rightarrow> Inl err
      | Inr base_addr \<Rightarrow>
          if Off2 instruction < 0 then SubUint base_addr (word_of_int \<bar>Off2 instruction\<bar>)
          else Inr (AddUint base_addr (word_of_int (Off2 instruction))))"

subsection \<open>Deduction of operands\<close>

text \<open>
  A Go pointer that may be nil is an option. The results are the deduced operand and the
  deduced \<open>res\<close>.
\<close>

definition DeduceOp0 :: "VirtualMachine \<Rightarrow> Instruction \<Rightarrow> MaybeRelocatable option
    \<Rightarrow> MaybeRelocatable option
    \<Rightarrow> error + (MaybeRelocatable option \<times> MaybeRelocatable option)" where
  "DeduceOp0 vm instruction dst op1 =
     (case Opcode instruction of
        Call \<Rightarrow>
          (let deduced_op0 = Pc (RunContext vm) in
           Inr (Some (NewMaybeRelocatableRelocatable
                  (deduced_op0\<lparr> Offset := Offset deduced_op0 + Size instruction \<rparr>)), None))
      | AssertEq \<Rightarrow>
          (case ResLogic instruction of
             ResAdd \<Rightarrow>
               (case (dst, op1) of
                  (Some d, Some o1) \<Rightarrow>
                    (case MaybeRelocatable_Sub d o1 of
                       Inl err \<Rightarrow> Inl err
                     | Inr deduced_op0 \<Rightarrow> Inr (Some deduced_op0, dst))
                | _ \<Rightarrow> Inr (None, None))
           | ResMul \<Rightarrow>
               (case (dst, op1) of
                  (Some d, Some o1) \<Rightarrow>
                    (case (GetFelt d, GetFelt o1) of
                       (Some dst_felt, Some op1_felt) \<Rightarrow>
                         if \<not> felt_IsZero op1_felt
                         then Inr (Some (NewMaybeRelocatableFelt (felt_Div dst_felt op1_felt)), dst)
                         else Inr (None, None)
                     | _ \<Rightarrow> Inr (None, None))
                | _ \<Rightarrow> Inr (None, None))
           | _ \<Rightarrow> Inr (None, None))
      | _ \<Rightarrow> Inr (None, None))"

text \<open>
  In the \<open>ResMul\<close> case the source calls \<open>GetFelt\<close> on \<open>dst\<close> and \<open>op0\<close> without a
  nil check: a nil pointer panics.
\<close>

definition DeduceOp1 :: "VirtualMachine \<Rightarrow> Instruction \<Rightarrow> MaybeRelocatable option
    \<Rightarrow> MaybeRelocatable option
    \<Rightarrow> error + (MaybeRelocatable option \<times> MaybeRelocatable option)" where
  "DeduceOp1 vm instruction dst op0 =
     (if Opcode instruction = AssertEq then
        (case ResLogic instruction of
           ResOp1 \<Rightarrow> Inr (dst, dst)
         | ResAdd \<Rightarrow>
             (case (op0, dst) of
                (Some o0, Some d) \<Rightarrow>
                  (case MaybeRelocatable_Sub d o0 of
                     Inl err \<Rightarrow> Inl err
                   | Inr dst_rel \<Rightarrow> Inr (Some dst_rel, dst))
              | _ \<Rightarrow> Inr (None, None))
         | ResMul \<Rightarrow>
             (case (dst, op0) of
                (Some d, Some o0) \<Rightarrow>
                  (case (GetFelt d, GetFelt o0) of
                     (Some dst_felt, Some op0_felt) \<Rightarrow>
                       if \<not> felt_IsZero op0_felt
                       then Inr (Some (NewMaybeRelocatableFelt (felt_Div dst_felt op0_felt)), dst)
                       else Inr (None, None)
                   | _ \<Rightarrow> Inr (None, None))
              | _ \<Rightarrow> Inl Panic)
         | _ \<Rightarrow> Inr (None, None))
      else Inr (None, None))"

definition ComputeRes :: "VirtualMachine \<Rightarrow> Instruction \<Rightarrow> MaybeRelocatable \<Rightarrow> MaybeRelocatable
    \<Rightarrow> error + MaybeRelocatable option" where
  "ComputeRes vm instruction op0 op1 =
     (case ResLogic instruction of
        ResOp1 \<Rightarrow> Inr (Some op1)
      | ResAdd \<Rightarrow>
          (case MaybeRelocatable_Add op0 op1 of
             Inl err \<Rightarrow> Inl err
           | Inr maybe_rel \<Rightarrow> Inr (Some maybe_rel))
      | ResMul \<Rightarrow>
          (case (GetFelt op0, GetFelt op1) of
             (Some num_op0, Some num_op1) \<Rightarrow>
               Inr (Some (NewMaybeRelocatableFelt (felt_Mul num_op0 num_op1)))
           | _ \<Rightarrow> Inl ErrComputeResRelocatableMul)
      | ResUnconstrained \<Rightarrow> Inr None)"

definition DeduceDst :: "VirtualMachine \<Rightarrow> Instruction \<Rightarrow> MaybeRelocatable option
    \<Rightarrow> MaybeRelocatable option" where
  "DeduceDst vm instruction res =
     (case Opcode instruction of
        AssertEq \<Rightarrow> res
      | Call \<Rightarrow> Some (NewMaybeRelocatableRelocatable (Fp (RunContext vm)))
      | _ \<Rightarrow> None)"

text \<open>
  The first runner whose base lies in the segment of the address deduces the cell; the
  runner may change in doing so.
\<close>

fun DeduceMemoryCell_runners :: "BuiltinRunner list \<Rightarrow> Relocatable \<Rightarrow> memory_data
    \<Rightarrow> (error + MaybeRelocatable option) \<times> BuiltinRunner list" where
  "DeduceMemoryCell_runners [] addr mem = (Inr None, [])"
| "DeduceMemoryCell_runners (b # bs) addr mem =
     (if SegmentIndex (base b) = SegmentIndex addr then
        (case BuiltinRunner_DeduceMemoryCell b addr mem of (r, b') \<Rightarrow> (r, b' # bs))
      else
        (case DeduceMemoryCell_runners bs addr mem of (r, bs') \<Rightarrow> (r, b # bs')))"

definition DeduceMemoryCell :: "Relocatable \<Rightarrow> VirtualMachine
    \<Rightarrow> (error + MaybeRelocatable option) \<times> VirtualMachine" where
  "DeduceMemoryCell addr vm =
     (case DeduceMemoryCell_runners (BuiltinRunners vm) addr (data (Memory (Segments vm))) of
        (r, bs') \<Rightarrow> (r, vm\<lparr> BuiltinRunners := bs' \<rparr>))"

text \<open>\<open>vm.Segments.Memory.Insert(addr, val)\<close> with the returned error dropped.\<close>

definition vm_Insert :: "Relocatable \<Rightarrow> MaybeRelocatable \<Rightarrow> VirtualMachine \<Rightarrow> VirtualMachine" where
  "vm_Insert addr val vm =
     vm\<lparr> Segments := (Segments vm)\<lparr> Memory := snd (Insert addr val (Memory (Segments vm))) \<rparr> \<rparr>"

definition ComputeOp0Deductions :: "Relocatable \<Rightarrow> Instruction \<Rightarrow> MaybeRelocatable option
    \<Rightarrow> MaybeRelocatable option \<Rightarrow> VirtualMachine
    \<Rightarrow> (error + (MaybeRelocatable \<times> MaybeRelocatable option)) \<times> VirtualMachine" where
  "ComputeOp0Deductions op0_addr instruction dst op1 vm =
     (case DeduceMemoryCell op0_addr vm of
        (Inl err, vm1) \<Rightarrow> (Inl err, vm1)
      | (Inr builtin_op0, vm1) \<Rightarrow>
          (case (case builtin_op0 of
                   Some v \<Rightarrow> Inr (Some v, None)
                 | None \<Rightarrow> DeduceOp0 vm1 instruction dst op1) of
             Inl err \<Rightarrow> (Inl err, vm1)
           | Inr (op0, deduced_res) \<Rightarrow>
               (case op0 of
                  Some v \<Rightarrow> (Inr (v, deduced_res), vm_Insert op0_addr v vm1)
                | None \<Rightarrow> (Inl ErrFailedToDeduceOp0, vm1))))"

text \<open>
  The \<open>res\<close> deduced together with \<open>op1\<close> is assigned to a parameter of the function
  and is lost on return: only \<open>op1\<close> comes back.
\<close>

definition ComputeOp1Deductions :: "Relocatable \<Rightarrow> Instruction \<Rightarrow> MaybeRelocatable option
    \<Rightarrow> MaybeRelocatable option \<Rightarrow> MaybeRelocatable option \<Rightarrow> VirtualMachine
    \<Rightarrow> (error + MaybeRelocatable) \<times> VirtualMachine" where
  "ComputeOp1Deductions op1_addr instruction dst op0 res vm =
     (case DeduceMemoryCell op1_addr vm of
        (Inl err, vm1) \<Rightarrow> (Inl err, vm1)
      | (Inr builtin_op1, vm1) \<Rightarrow>
          (case (case builtin_op1 of
                   Some v \<Rightarrow> Inr (Some v, None)
                 | None \<Rightarrow> DeduceOp1 vm1 instruction dst op0) of
             Inl err \<Rightarrow> (Inl err, vm1)
           | Inr (op1, deducedRes) \<Rightarrow>
               (case op1 of
                  Some v \<Rightarrow> (Inr v, vm_Insert op1_addr v vm1)
                | None \<Rightarrow> (Inl ErrFailedToDeduceOp1, vm1))))"

text \<open>
  \<open>Memory.Get\<close> with its error dropped gives a pointer that is nil when the cell is
  absent. The operand deduction for \<open>op1\<close> receives \<open>op0_op\<close>, the cell as first read.
  Dereferencing a \<open>dst\<close> that is still nil at the end panics.
\<close>

definition ComputeOperands :: "Instruction \<Rightarrow> VirtualMachine
    \<Rightarrow> (error + Operands) \<times> VirtualMachine" where
  "ComputeOperands instruction vm =
     (case ComputeDstAddr (RunContext vm) instruction of
        Inl err \<Rightarrow> (Inl ErrFailedToComputeDstAddr, vm)
      | Inr dst_addr \<Rightarrow>
     (let dst = data (Memory (Segments vm)) dst_addr in
      case ComputeOp0Addr (RunContext vm) instruction of
        Inl err \<Rightarrow> (Inl (ErrFailedToComputeOp0Addr err), vm)
      | Inr op0_addr \<Rightarrow>
     (let op0_op = data (Memory (Segments vm)) op0_addr in
      case ComputeOp1Addr (RunContext vm) instruction op0_op of
        Inl err \<Rightarrow> (Inl (ErrFailedToComputeOp1Addr err), vm)
      | Inr op1_addr \<Rightarrow>
     (let op1_op = data (Memory (Segments vm)) op1_addr in
      case (case op0_op of
              Some v \<Rightarrow> (Inr (v, None), vm)
            | None \<Rightarrow> ComputeOp0Deductions op0_addr instruction dst op1_op vm) of
        (Inl err, vm1) \<Rightarrow> (Inl err, vm1)
      | (Inr (op0, res), vm1) \<Rightarrow>
     (case (case op1_op of
              Some v \<Rightarrow> (Inr v, vm1)
            | None \<Rightarrow> ComputeOp1Deductions op1_addr instruction dst op0_op res vm1) of
        (Inl err, vm2) \<Rightarrow> (Inl err, vm2)
      | (Inr op1, vm2) \<Rightarrow>
     (case (case res of
              Some v \<Rightarrow> Inr (Some v)
            | None \<Rightarrow> ComputeRes vm2 instruction op0 op1) of
        Inl err \<Rightarrow> (Inl err, vm2)
      | Inr res' \<Rightarrow>
     (case dst of
        Some d \<Rightarrow> (Inr \<lparr> Dst = d, Op0 = op0, Op1 = op1, Res = res' \<rparr>, vm2)
      | None \<Rightarrow>
          (case DeduceDst vm2 instruction res' of
             Some d \<Rightarrow>
               (Inr \<lparr> Dst = d, Op0 = op0, Op1 = op1, Res = res' \<rparr>, vm_Insert dst_addr d vm2)
           | None \<Rightarrow> (Inl Panic, vm2)))))))))"

subsection \<open>Opcode assertions\<close>

text \<open>
  For \<open>Call\<close>, \<open>Dst.GetRelocatable()\<close> is used without looking at its flag: for a felt
  it is the zero address.
\<close>

definition OpcodeAssertions :: "VirtualMachine \<Rightarrow> Instruction \<Rightarrow> Operands \<Rightarrow> error option" where
  "OpcodeAssertions vm instruction operands =
     (case Opcode instruction of
        AssertEq \<Rightarrow>
          (case Res operands of
             None \<Rightarrow> Some ErrUnconstrainedResAssertEq
           | Some res \<Rightarrow> if res \<noteq> Dst operands then Some ErrDiffAssertValues else None)
      | Call \<Rightarrow>
          (let new_rel = AddUint (Pc (RunContext vm)) (Size instruction);
               returnPC = NewMaybeRelocatableRelocatable new_rel
           in if Op0 operands \<noteq> returnPC then Some ErrCantWriteReturnPc
              else
                let returnFP = Fp (RunContext vm);
                    dstRelocatable = (case GetRelocatable (Dst operands) of
                                        Some r \<Rightarrow> r | None \<Rightarrow> NewRelocatable 0 0)
                in if returnFP \<noteq> dstRelocatable then Some ErrCantWriteReturnFp else None)
      | _ \<Rightarrow> None)"

subsection \<open>Register update\<close>

definition UpdatePc :: "Instruction \<Rightarrow> Operands \<Rightarrow> VirtualMachine \<Rightarrow> error + VirtualMachine" where
  "UpdatePc instruction operands vm =
     (let rc = RunContext vm in
      case PcUpdate instruction of
        PcUpdateRegular \<Rightarrow>
          Inr (vm\<lparr> RunContext := rc\<lparr> Pc := (Pc rc)\<lparr> Offset := Offset (Pc rc) + Size instruction \<rparr> \<rparr> \<rparr>)
      | PcUpdateJump \<Rightarrow>
          (case Res operands of
             None \<Rightarrow> Inl ErrUnconstrainedResJump
           | Some r \<Rightarrow>
               (case GetRelocatable r of
                  None \<Rightarrow> Inl ErrJumpTargetNotRelocatable
                | Some res \<Rightarrow> Inr (vm\<lparr> RunContext := rc\<lparr> Pc := res \<rparr> \<rparr>)))
      | PcUpdateJumpRel \<Rightarrow>
          (case Res operands of
             None \<Rightarrow> Inl ErrUnconstrainedResJumpRel
           | Some r \<Rightarrow>
               (case GetFelt r of
                  None \<Rightarrow> Inl ErrRelJumpTargetNotFelt
                | Some res \<Rightarrow>
                    (case AddFelt (Pc rc) res of
                       Inl err \<Rightarrow> Inl err
                     | Inr new_pc \<Rightarrow> Inr (vm\<lparr> RunContext := rc\<lparr> Pc := new_pc \<rparr> \<rparr>))))
      | PcUpdateJnz \<Rightarrow>
          if IsZero (Dst operands) then
            Inr (vm\<lparr> RunContext := rc\<lparr> Pc := (Pc rc)\<lparr> Offset := Offset (Pc rc) + Size instruction \<rparr> \<rparr> \<rparr>)
          else
            (case AddMaybeRelocatable (Pc rc) (Op1 operands) of
               Inl err \<Rightarrow> Inl err
             | Inr new_pc \<Rightarrow> Inr (vm\<lparr> RunContext := rc\<lparr> Pc := new_pc \<rparr> \<rparr>)))"

definition UpdateFp :: "Instruction \<Rightarrow> Operands \<Rightarrow> VirtualMachine \<Rightarrow> error + VirtualMachine" where
  "UpdateFp instruction operands vm =
     (let rc = RunContext vm in
      case FpUpdate instruction of
        FpUpdateAPPlus2 \<Rightarrow>
          Inr (vm\<lparr> RunContext := rc\<lparr> Fp := (Fp rc)\<lparr> Offset := Offset (Ap rc) + 2 \<rparr> \<rparr> \<rparr>)
      | FpUpdateDst \<Rightarrow>
          (case GetRelocatable (Dst operands) of
             Some rel \<Rightarrow> Inr (vm\<lparr> RunContext := rc\<lparr> Fp := rel \<rparr> \<rparr>)
           | None \<Rightarrow>
               (case GetFelt (Dst operands) of
                  Some felt \<Rightarrow>
                    (case AddFelt (Fp rc) felt of
                       Inl err \<Rightarrow> Inl err
                     | Inr new_fp \<Rightarrow> Inr (vm\<lparr> RunContext := rc\<lparr> Fp := new_fp \<rparr> \<rparr>))
                | None \<Rightarrow> Inl Panic))
      | FpUpdateRegular \<Rightarrow> Inr vm)"

definition UpdateAp :: "Instruction \<Rightarrow> Operands \<Rightarrow> VirtualMachine \<Rightarrow> error + VirtualMachine" where
  "UpdateAp instruction operands vm =
     (let rc = RunContext vm in
      case ApUpdate instruction of
        ApUpdateAdd \<Rightarrow>
          (case Res operands of
             None \<Rightarrow> Inl ErrUnconstrainedResAdd
           | Some res \<Rightarrow>
               (case AddMaybeRelocatable (Ap rc) res of
                  Inl err \<Rightarrow> Inl err
                | Inr new_ap \<Rightarrow> Inr (vm\<lparr> RunContext := rc\<lparr> Ap := new_ap \<rparr> \<rparr>)))
      | ApUpdateAdd1 \<Rightarrow>
          Inr (vm\<lparr> RunContext := rc\<lparr> Ap := (Ap rc)\<lparr> Offset := Offset (Ap rc) + 1 \<rparr> \<rparr> \<rparr>)
      | ApUpdateAdd2 \<Rightarrow>
          Inr (vm\<lparr> RunContext := rc\<lparr> Ap := (Ap rc)\<lparr> Offset := Offset (Ap rc) + 2 \<rparr> \<rparr> \<rparr>)
      | ApUpdateRegular \<Rightarrow> Inr vm)"

text \<open>
  Modelled from the spec: \<open>UpdateRegisters\<close>, missing from the sources. The new \<open>fp\<close>
  of a call is the \<open>ap\<close> at the moment of the call plus 2, so \<open>fp\<close> is updated before
  \<open>ap\<close>; \<open>pc\<close> comes last. An error leaves the registers updated so far.
\<close>

definition UpdateRegisters :: "Instruction \<Rightarrow> Operands \<Rightarrow> VirtualMachine
    \<Rightarrow> error option \<times> VirtualMachine" where
  "UpdateRegisters instruction operands vm =
     (case UpdateFp instruction operands vm of
        Inl err \<Rightarrow> (Some err, vm)
      | Inr vm1 \<Rightarrow>
          (case UpdateAp instruction operands vm1 of
             Inl err \<Rightarrow> (Some err, vm1)
           | Inr vm2 \<Rightarrow>
               (case UpdatePc instruction operands vm2 of
                  Inl err \<Rightarrow> (Some err, vm2)
                | Inr vm3 \<Rightarrow> (None, vm3))))"

subsection \<open>One step\<close>

definition RunInstruction :: "Instruction \<Rightarrow> VirtualMachine \<Rightarrow> error option \<times> VirtualMachine" where
  "RunInstruction instruction v =
     (case ComputeOperands instruction v of
        (Inl err, v1) \<Rightarrow> (Some err, v1)
      | (Inr operands, v1) \<Rightarrow>
          (case OpcodeAssertions v1 instruction operands of
             Some err \<Rightarrow> (Some err, v1)
           | None \<Rightarrow>
               (let v2 = v1\<lparr> Trace := Trace v1 @
                            [TraceEntry (Pc (RunContext v1)) (Ap (RunContext v1)) (Fp (RunContext v1))] \<rparr>
                in case UpdateRegisters instruction operands v2 of
                     (Some err, v3) \<Rightarrow> (Some err, v3)
                   | (None, v3) \<Rightarrow> (None, v3\<lparr> CurrentStep := CurrentStep v3 + 1 \<rparr>))))"

definition Step :: "VirtualMachine \<Rightarrow> error option \<times> VirtualMachine" where
  "Step v =
     (case Get (Memory (Segments v)) (Pc (RunContext v)) of
        Inl err \<Rightarrow> (Some ErrFailedToFetchInstruction, v)
      | Inr encoded_instruction \<Rightarrow>
          (case GetFelt encoded_instruction of
             None \<Rightarrow> (Some ErrWrongInstructionEncoding, v)
           | Some encoded_instruction_felt \<Rightarrow>
               (case ToU64 encoded_instruction_felt of
                  Inl err \<Rightarrow> (Some err, v)
                | Inr encoded_instruction_uint \<Rightarrow>
                    (case DecodeInstruction encoded_instruction_uint of
                       Inl err \<Rightarrow> (Some err, v)
                     | Inr instruction \<Rightarrow> RunInstruction instruction v))))"

text \<open>Steps in sequence, stopping at the first error.\<close>

fun Steps :: "nat \<Rightarrow> VirtualMachine \<Rightarrow> error option \<times> VirtualMachine" where
  "Steps 0 v = (None, v)"
| "Steps (Suc n) v =
     (case Step v of
        (Some err, v') \<Rightarrow> (Some err, v')
      | (None, v') \<Rightarrow> Steps n v')"

section \<open>The runner\<close>

record Identifier =
  PC :: int

record Program =
  Data :: "MaybeRelocatable list"
  Builtins :: "string list"
  Identifiers :: "string \<rightharpoonup> Identifier"
  Start :: "64 word"
  End :: "64 word"

text \<open>
  Of a layout only the builtin runners it provides matter here; the table of layouts is
  outside the sources.
\<close>

record CairoLayout =
  LayoutBuiltins :: "BuiltinRunner list"

record CairoRunner =
  Program :: Program
  Vm :: VirtualMachine
  ProgramBase :: Relocatable
  executionBase :: Relocatable
  initialPc :: Relocatable
  initialAp :: Relocatable
  initialFp :: Relocatable
  finalPc :: "Relocatable option"
  mainOffset :: "64 word"
  ProofMode :: bool
  RunEnded :: bool
  Layout :: CairoLayout
  ExecutionPublicMemory :: "nat list option"
  SegmentsFinalized :: bool

text \<open>
  \<open>NewCairoRunner\<close> receives the layout itself instead of its name. The check of the
  order of the program's builtins (\<open>utils.CheckBuiltinsSubsequence\<close>, outside the
  sources) only rejects programs and is left out.
\<close>

definition NewCairoRunner :: "Program \<Rightarrow> CairoLayout \<Rightarrow> bool \<Rightarrow> CairoRunner" where
  "NewCairoRunner program layout proofMode =
     (let main_offset = (case Identifiers program ''__main__.main'' of
                           Some mainIdentifier \<Rightarrow> word_of_int (PC mainIdentifier)
                         | None \<Rightarrow> 0)
      in \<lparr> Program = program, Vm = NewVirtualMachine,
            ProgramBase = NewRelocatable 0 0, executionBase = NewRelocatable 0 0,
            initialPc = NewRelocatable 0 0, initialAp = NewRelocatable 0 0,
            initialFp = NewRelocatable 0 0, finalPc = None, mainOffset = main_offset,
            ProofMode = proofMode, RunEnded = False, Layout = layout,
            ExecutionPublicMemory = None, SegmentsFinalized = False \<rparr>)"

text \<open>
  The runners of the layout that the program declares, and in proof mode the others as
  well, not included; with them the program's builtins that the layout lacks.
\<close>

fun select_builtins :: "bool \<Rightarrow> BuiltinRunner list \<Rightarrow> string set
    \<Rightarrow> BuiltinRunner list \<times> string set" where
  "select_builtins proofMode [] programBuiltins = ([], programBuiltins)"
| "select_builtins proofMode (layoutBuiltin # rest) programBuiltins =
     (if Name layoutBuiltin \<in> programBuiltins then
        (case select_builtins proofMode rest (programBuiltins - {Name layoutBuiltin}) of
           (rs, remaining) \<Rightarrow> (Include True layoutBuiltin # rs, remaining))
      else if proofMode then
        (case select_builtins proofMode rest programBuiltins of
           (rs, remaining) \<Rightarrow> (Include False layoutBuiltin # rs, remaining))
      else select_builtins proofMode rest programBuiltins)"

definition initializeBuiltins :: "CairoRunner \<Rightarrow> error option \<times> CairoRunner" where
  "initializeBuiltins r =
     (case select_builtins (ProofMode r) (LayoutBuiltins (Layout r)) (set (Builtins (Program r))) of
        (builtinRunners, remaining) \<Rightarrow>
          if remaining \<noteq> {} then (Some ErrBuiltinNotInLayout, r)
          else (None, r\<lparr> Vm := (Vm r)\<lparr> BuiltinRunners := builtinRunners \<rparr> \<rparr>))"

fun InitializeSegments_runners :: "BuiltinRunner list \<Rightarrow> MemorySegmentManager
    \<Rightarrow> BuiltinRunner list \<times> MemorySegmentManager" where
  "InitializeSegments_runners [] segments = ([], segments)"
| "InitializeSegments_runners (b # bs) segments =
     (case InitializeSegments b segments of
        (b', segments') \<Rightarrow>
          (case InitializeSegments_runners bs segments' of
             (bs', segments'') \<Rightarrow> (b' # bs', segments'')))"

definition initializeSegments :: "CairoRunner \<Rightarrow> CairoRunner" where
  "initializeSegments r =
     (case AddSegment (Segments (Vm r)) of (program_base, s1) \<Rightarrow>
      case AddSegment s1 of (execution_base, s2) \<Rightarrow>
      case InitializeSegments_runners (BuiltinRunners (Vm r)) s2 of (runners, s3) \<Rightarrow>
        r\<lparr> ProgramBase := program_base, executionBase := execution_base,
           Vm := (Vm r)\<lparr> Segments := s3, BuiltinRunners := runners \<rparr> \<rparr>)"

definition mark_program_accessed :: "Relocatable \<Rightarrow> nat \<Rightarrow> Memory \<Rightarrow> Memory" where
  "mark_program_accessed b n m =
     fold (\<lambda>i. MarkAsAccessed (NewRelocatable (SegmentIndex b) (Offset b + of_nat i))) [0..<n] m"

definition initializeState :: "64 word \<Rightarrow> MaybeRelocatable list \<Rightarrow> CairoRunner
    \<Rightarrow> error option \<times> CairoRunner" where
  "initializeState entrypoint stack r =
     (let initial_pc = (ProgramBase r)\<lparr> Offset := Offset (ProgramBase r) + entrypoint \<rparr> in
      case (case LoadData (ProgramBase r) (Data (Program r)) (Segments (Vm r)) of
              (Inl err, s1) \<Rightarrow> (Some err, s1)
            | (Inr p, s1) \<Rightarrow>
                (case LoadData (executionBase r) stack s1 of
                   (Inl err, s2) \<Rightarrow> (Some err, s2)
                 | (Inr p', s2) \<Rightarrow> (None, s2))) of
        (err, s) \<Rightarrow>
          (err, r\<lparr> initialPc := initial_pc,
                   Vm := (Vm r)\<lparr> Segments :=
                     s\<lparr> Memory := mark_program_accessed (ProgramBase r)
                                     (length (Data (Program r))) (Memory s) \<rparr> \<rparr> \<rparr>))"

definition initializeFunctionEntrypoint :: "64 word \<Rightarrow> MaybeRelocatable list \<Rightarrow> Relocatable
    \<Rightarrow> CairoRunner \<Rightarrow> (Relocatable \<times> error option) \<times> CairoRunner" where
  "initializeFunctionEntrypoint entrypoint stack return_fp r =
     (case AddSegment (Segments (Vm r)) of (end, s1) \<Rightarrow>
      let stack' = stack @ [NewMaybeRelocatableRelocatable return_fp,
                            NewMaybeRelocatableRelocatable end];
          initial_fp = (executionBase r)
                         \<lparr> Offset := Offset (executionBase r) + of_nat (length stack') \<rparr>;
          r1 = r\<lparr> Vm := (Vm r)\<lparr> Segments := s1 \<rparr>, initialFp := initial_fp,
                  initialAp := initial_fp, finalPc := Some end \<rparr>
      in case initializeState entrypoint stack' r1 of
           (err, r2) \<Rightarrow> ((end, err), r2))"

definition initializeMainEntrypoint :: "CairoRunner \<Rightarrow> (Relocatable \<times> error option) \<times> CairoRunner" where
  "initializeMainEntrypoint r =
     (let stack = concat (map InitialStack (BuiltinRunners (Vm r))) in
      if ProofMode r then
        (let basePlusTwo = NewRelocatable (SegmentIndex (executionBase r))
                             (Offset (executionBase r) + 2);
             stackPrefix = [NewMaybeRelocatableRelocatable basePlusTwo,
                            NewMaybeRelocatableFelt (FeltFromUint64 0)] @ stack;
             publicMemory = [0..<length stackPrefix];
             r1 = r\<lparr> ExecutionPublicMemory := Some publicMemory \<rparr>;
             r2 = snd (initializeState (Start (Program r)) stackPrefix r1);
             initial_fp = NewRelocatable (SegmentIndex (executionBase r2))
                            (Offset (executionBase r2) + 2);
             r3 = r2\<lparr> initialFp := initial_fp, initialAp := initial_fp \<rparr>
         in ((NewRelocatable (SegmentIndex (ProgramBase r3))
                (Offset (ProgramBase r3) + End (Program r3)), None), r3))
      else
        (case AddSegment (Segments (Vm r)) of (return_fp, s1) \<Rightarrow>
           initializeFunctionEntrypoint (mainOffset r) stack return_fp
             (r\<lparr> Vm := (Vm r)\<lparr> Segments := s1 \<rparr> \<rparr>)))"

text \<open>
  The registers are set, every runner registers its validation rule, and the cells
  already in memory are validated, in the order given (see \<open>ValidateExistingMemory\<close>).
\<close>

definition initializeVM :: "Relocatable list \<Rightarrow> CairoRunner \<Rightarrow> error option \<times> CairoRunner" where
  "initializeVM order r =
     (let rc = \<lparr> Pc = initialPc r, Ap = initialAp r, Fp = initialFp r \<rparr>;
          mem = fold BuiltinRunner_AddValidationRule (BuiltinRunners (Vm r))
                  (Memory (Segments (Vm r)))
      in case ValidateExistingMemory order mem of
           (err, mem') \<Rightarrow>
             (err, r\<lparr> Vm := (Vm r)\<lparr> RunContext := rc,
                                     Segments := (Segments (Vm r))\<lparr> Memory := mem' \<rparr> \<rparr> \<rparr>))"

definition Initialize :: "Relocatable list \<Rightarrow> CairoRunner
    \<Rightarrow> (Relocatable \<times> error option) \<times> CairoRunner" where
  "Initialize order r =
     (case initializeBuiltins r of
        (Some err, r1) \<Rightarrow> ((NewRelocatable 0 0, Some err), r1)
      | (None, r1) \<Rightarrow>
          (case initializeMainEntrypoint (initializeSegments r1) of
             ((end, Some err), r2) \<Rightarrow> ((end, Some err), r2)
           | ((end, None), r2) \<Rightarrow>
               (case initializeVM order r2 of
                  (err, r3) \<Rightarrow> ((end, err), r3))))"

section \<open>The end of a run\<close>

text \<open>
  Modelled from the spec: \<open>utils.NextPowOf2\<close>, missing from the sources: the next power
  of two, that is the least power of two that is not below \<open>n\<close> (1 for 0).
\<close>

definition NextPowOf2 :: "nat \<Rightarrow> nat" where
  "NextPowOf2 n = 2 ^ Bits (n - 1)"

text \<open>
  Modelled from the spec: the operations that \<open>EndRun\<close> calls and whose code is missing
  from the sources are the fields of a record, so that nothing is assumed of them beyond
  their types: the machine's own \<open>EndRun\<close>, \<open>ComputeEffectiveSizes\<close> of the segment
  manager, the compilation of the hints behind \<open>BuildHintDataMap\<close> (only its error
  matters here, the map is handed on to the step), the step of the machine with the hint
  processor, and the four parts of the accounting: the used cells and allocated sizes of a
  builtin, and the checks of the range-check usage, of the memory usage and of the diluted
  usage, which read the layout, the builtins and the segment sizes through missing code.
\<close>

record Environment =
  vm_EndRun :: "VirtualMachine \<Rightarrow> error option \<times> VirtualMachine"
  ComputeEffectiveSizes :: "MemorySegmentManager \<Rightarrow> MemorySegmentManager"
  BuildHintDataMap :: "CairoRunner \<Rightarrow> error option"
  vm_Step :: "VirtualMachine \<Rightarrow> error option \<times> VirtualMachine"
  GetUsedCellsAndAllocatedSizes :: "BuiltinRunner \<Rightarrow> MemorySegmentManager \<Rightarrow> nat \<Rightarrow> error option"
  CheckRangeCheckUsage :: "CairoRunner \<Rightarrow> VirtualMachine \<Rightarrow> error option"
  CheckMemoryUsage :: "CairoRunner \<Rightarrow> VirtualMachine \<Rightarrow> error option"
  CheckDilutedCheckUsage :: "CairoRunner \<Rightarrow> VirtualMachine \<Rightarrow> error option"

text \<open>
  \<open>CheckUsedCells\<close>: the first error among the builtins, in their order, then the three
  checks in turn.
\<close>

fun CheckUsedCells_builtins :: "Environment \<Rightarrow> BuiltinRunner list \<Rightarrow> VirtualMachine
    \<Rightarrow> error option" where
  "CheckUsedCells_builtins env [] virtualMachine = None"
| "CheckUsedCells_builtins env (builtin # builtins) virtualMachine =
     (case GetUsedCellsAndAllocatedSizes env builtin (Segments virtualMachine)
             (CurrentStep virtualMachine) of
        Some err \<Rightarrow> Some err
      | None \<Rightarrow> CheckUsedCells_builtins env builtins virtualMachine)"

definition CheckUsedCells :: "Environment \<Rightarrow> CairoRunner \<Rightarrow> VirtualMachine \<Rightarrow> error option" where
  "CheckUsedCells env runner virtualMachine =
     (case CheckUsedCells_builtins env (BuiltinRunners virtualMachine) virtualMachine of
        Some err \<Rightarrow> Some err
      | None \<Rightarrow>
          (case CheckRangeCheckUsage env runner virtualMachine of
             Some err \<Rightarrow> Some err
           | None \<Rightarrow>
               (case CheckMemoryUsage env runner virtualMachine of
                  Some err \<Rightarrow> Some err
                | None \<Rightarrow> CheckDilutedCheckUsage env runner virtualMachine)))"

text \<open>
  The loop of \<open>RunForSteps\<close>, by recursion on \<open>remainingSteps\<close>: it stops with
  \<open>EndOfProgram\<close> when \<open>pc\<close> is the final \<open>pc\<close> of the runner, and with the error of
  the first step that fails.
\<close>

fun RunForSteps_loop :: "Environment \<Rightarrow> CairoRunner \<Rightarrow> nat \<Rightarrow> VirtualMachine
    \<Rightarrow> error option \<times> VirtualMachine" where
  "RunForSteps_loop env runner 0 virtualMachine = (None, virtualMachine)"
| "RunForSteps_loop env runner (Suc remainingSteps) virtualMachine =
     (if finalPc runner = Some (Pc (RunContext virtualMachine))
      then (Some (ErrEndOfProgram (int (Suc remainingSteps))), virtualMachine)
      else case vm_Step env virtualMachine of
             (Some err, vm') \<Rightarrow> (Some err, vm')
           | (None, vm') \<Rightarrow> RunForSteps_loop env runner remainingSteps vm')"

definition RunForSteps :: "Environment \<Rightarrow> CairoRunner \<Rightarrow> nat \<Rightarrow> VirtualMachine
    \<Rightarrow> error option \<times> VirtualMachine" where
  "RunForSteps env runner steps virtualMachine =
     (case BuildHintDataMap env runner of
        Some err \<Rightarrow> (Some err, virtualMachine)
      | None \<Rightarrow> RunForSteps_loop env runner steps virtualMachine)"

text \<open>
  The step counts are natural numbers. Where \<open>steps\<close> is below the current step the
  unsigned difference of the source wraps and its conversion to \<open>int\<close> is negative, so
  that no step runs; the truncated difference 0 gives the same.
\<close>

definition RunUntilSteps :: "Environment \<Rightarrow> CairoRunner \<Rightarrow> nat \<Rightarrow> VirtualMachine
    \<Rightarrow> error option \<times> VirtualMachine" where
  "RunUntilSteps env runner steps virtualMachine =
     RunForSteps env runner (steps - CurrentStep virtualMachine) virtualMachine"

definition RunUntilNextPowerOfTwo :: "Environment \<Rightarrow> CairoRunner \<Rightarrow> VirtualMachine
    \<Rightarrow> error option \<times> VirtualMachine" where
  "RunUntilNextPowerOfTwo env runner virtualMachine =
     RunUntilSteps env runner (NextPowOf2 (CurrentStep virtualMachine)) virtualMachine"

text \<open>
  The loop \<open>for true\<close> of \<open>EndRun\<close>. It need not end: the result \<open>None\<close> stands for a
  loop that runs forever. \<open>errors.Unwrap\<close> of no error is no error, so that a check
  without error leaves the loop through the last branch.
\<close>

partial_function (option) EndRun_loop :: "Environment \<Rightarrow> CairoRunner \<Rightarrow> VirtualMachine
    \<Rightarrow> (error option \<times> VirtualMachine) option" where
  "EndRun_loop env runner vm =
     (let err = CheckUsedCells env runner vm in
      if Option.bind err errors_Unwrap = Some ErrInsufficientAllocatedCells then
        (case RunForSteps env runner 1 vm of
           (Some err1, vm1) \<Rightarrow> Some (Some err1, vm1)
         | (None, vm1) \<Rightarrow>
             (case RunUntilNextPowerOfTwo env runner vm1 of
                (Some err2, vm2) \<Rightarrow> Some (Some err2, vm2)
              | (None, vm2) \<Rightarrow> EndRun_loop env runner vm2))
      else if err \<noteq> None then Some (err, vm)
      else Some (None, vm))"

definition EndRun :: "Environment \<Rightarrow> CairoRunner \<Rightarrow> bool \<Rightarrow> bool \<Rightarrow> VirtualMachine
    \<Rightarrow> (error option \<times> CairoRunner \<times> VirtualMachine) option" where
  "EndRun env runner disableTracePadding disableFinalizeAll vm =
     (if RunEnded runner then Some (Some ErrRunnerCalledTwice, runner, vm)
      else
        case vm_EndRun env vm of
          (Some err, vm1) \<Rightarrow> Some (Some err, runner, vm1)
        | (None, vm1) \<Rightarrow>
            if disableFinalizeAll then Some (None, runner, vm1)
            else
              let vm2 = vm1\<lparr> Segments := ComputeEffectiveSizes env (Segments vm1) \<rparr> in
              if ProofMode runner \<and> \<not> disableTracePadding then
                (case RunUntilNextPowerOfTwo env runner vm2 of
                   (Some err, vm3) \<Rightarrow> Some (Some err, runner, vm3)
                 | (None, vm3) \<Rightarrow>
                     (case EndRun_loop env runner vm3 of
                        None \<Rightarrow> None
                      | Some (Some err, vm4) \<Rightarrow> Some (Some err, runner, vm4)
                      | Some (None, vm4) \<Rightarrow> Some (None, runner\<lparr> RunEnded := True \<rparr>, vm4)))
              else Some (None, runner\<lparr> RunEnded := True \<rparr>, vm2))"

subsection \<open>The padding of the trace, in the words of the specification\<close>

text \<open>
  The error of the accounting check that the padding recovers from: one that wraps
  \<open>ErrInsufficientAllocatedCells\<close>.
\<close>

definition recovered :: "error option \<Rightarrow> bool" where
  "recovered err \<longleftrightarrow> Option.bind err errors_Unwrap = Some ErrInsufficientAllocatedCells"

text \<open>
  Round 0 continues executing until the step count reaches the next power of two; every
  further round runs one more step and pads to the next power of two again. A round that
  fails stays as it is.
\<close>

definition next_round :: "Environment \<Rightarrow> CairoRunner \<Rightarrow> error option \<times> VirtualMachine
    \<Rightarrow> error option \<times> VirtualMachine" where
  "next_round env runner r =
     (case r of
        (Some err, vm) \<Rightarrow> (Some err, vm)
      | (None, vm) \<Rightarrow>
          (case RunForSteps env runner 1 vm of
             (Some err, vm1) \<Rightarrow> (Some err, vm1)
           | (None, vm1) \<Rightarrow> RunUntilNextPowerOfTwo env runner vm1))"

definition spec_padding_round :: "Environment \<Rightarrow> CairoRunner \<Rightarrow> nat \<Rightarrow> VirtualMachine
    \<Rightarrow> error option \<times> VirtualMachine" where
  "spec_padding_round env runner n vm =
     (next_round env runner ^^ n) (RunUntilNextPowerOfTwo env runner vm)"

text \<open>
  A round is followed by another when it ran without error and the accounting check of
  its state fails with the recovered error. It ends the run with the outcome \<open>x\<close> when
  \<open>x\<close> is its own error, or when it ran without error and \<open>x\<close> is what the accounting
  check says of its state, which is not the recovered error.
\<close>

definition round_continues :: "Environment \<Rightarrow> CairoRunner \<Rightarrow> error option \<times> VirtualMachine
    \<Rightarrow> bool" where
  "round_continues env runner r \<longleftrightarrow>
     fst r = None \<and> recovered (CheckUsedCells env runner (snd r))"

definition round_stops :: "Environment \<Rightarrow> CairoRunner \<Rightarrow> error option \<times> VirtualMachine
    \<Rightarrow> error option \<times> VirtualMachine \<Rightarrow> bool" where
  "round_stops env runner r x \<longleftrightarrow>
     (r = x \<and> fst x \<noteq> None) \<or>
     (r = (None, snd x) \<and> fst x = CheckUsedCells env runner (snd x) \<and> \<not> recovered (fst x))"

text \<open>The loop of \<open>EndRun\<close> entered with the outcome of a padding run.\<close>

definition loop_from :: "Environment \<Rightarrow> CairoRunner \<Rightarrow> error option \<times> VirtualMachine
    \<Rightarrow> (error option \<times> VirtualMachine) option" where
  "loop_from env runner r =
     (case r of (Some err, vm) \<Rightarrow> Some (Some err, vm) | (None, vm) \<Rightarrow> EndRun_loop env runner vm)"

section \<open>Concrete inputs\<close>

text \<open>
  A memory with two segments in which the cell \<open>(1, 0)\<close> was written before the
  range-check rule was registered for segment 1, as program data and stack are written
  before the runner installs the validation rules.
\<close>

definition two_segments :: MemorySegmentManager where
  "two_segments = snd (AddSegment (snd (AddSegment NewMemorySegmentManager)))"

definition late_rule_memory :: Memory where
  "late_rule_memory =
     AddValidationRule 1 RangeCheck_ValidationRule
       (snd (Insert \<lparr> SegmentIndex = 1, Offset = 0 \<rparr> (NewMaybeRelocatableFelt (2 ^ 128))
              (Memory two_segments)))"


text \<open>A memory with two segments, no rule, and the felt 7 at \<open>(1, 0)\<close>.\<close>

definition seven_memory :: Memory where
  "seven_memory =
     snd (Insert \<lparr> SegmentIndex = 1, Offset = 0 \<rparr> (NewMaybeRelocatableFelt 7)
            (Memory two_segments))"

text \<open>
  The cells of a builtin segment 2 holding the felts 1 and 2 at offsets 0 and 1, and of a
  builtin segment 3 holding 12 and 10 at offsets 5 and 6.
\<close>

definition builtin_cells :: memory_data where
  "builtin_cells =
     [\<lparr> SegmentIndex = 2, Offset = 0 \<rparr> \<mapsto> NewMaybeRelocatableFelt 1,
      \<lparr> SegmentIndex = 2, Offset = 1 \<rparr> \<mapsto> NewMaybeRelocatableFelt 2,
      \<lparr> SegmentIndex = 3, Offset = 5 \<rparr> \<mapsto> NewMaybeRelocatableFelt 12,
      \<lparr> SegmentIndex = 3, Offset = 6 \<rparr> \<mapsto> NewMaybeRelocatableFelt 10]"

text \<open>
  A stand-in for the foreign hash function where a concrete runner is evaluated; what
  deduction does with the verified addresses does not depend on the function.
\<close>

definition example_hash :: "felt \<Rightarrow> felt \<Rightarrow> felt" where
  "example_hash a b = felt_Add (felt_Mul 3 a) b"

text \<open>
  The program whose only instruction is \<open>ret\<close>, without builtins and without a
  \<open>__main__.main\<close> identifier (the entry offset is then 0), and the layout without
  builtins.
\<close>

definition ret_program :: Program where
  "ret_program = \<lparr> Data = [NewMaybeRelocatableFelt 0x208b7fff7fff7ffe], Builtins = [],
                    Identifiers = Map.empty, Start = 0, End = 0 \<rparr>"

definition plain_layout :: CairoLayout where
  "plain_layout = \<lparr> LayoutBuiltins = [] \<rparr>"

text \<open>The cells that initialization writes for \<open>ret_program\<close>, in one order of visit.\<close>

definition ret_program_cells :: "Relocatable list" where
  "ret_program_cells = [\<lparr> SegmentIndex = 0, Offset = 0 \<rparr>, \<lparr> SegmentIndex = 1, Offset = 0 \<rparr>,
                        \<lparr> SegmentIndex = 1, Offset = 1 \<rparr>]"

text \<open>
  The instruction \<open>ret\<close>, encoded as \<open>0x208b7fff7fff7ffe\<close>, and the machine of the
  runner of \<open>ret_program\<close> after initialization.
\<close>

definition ret_instruction :: Instruction where
  "ret_instruction =
     \<lparr> Off0 = - 2, Off1 = - 1, Off2 = - 1, DstReg = FP, Op0Reg = FP, Op1Addr = Op1SrcFP,
       ResLogic = ResOp1, PcUpdate = PcUpdateJump, ApUpdate = ApUpdateRegular,
       FpUpdate = FpUpdateDst, Opcode = Ret \<rparr>"

definition ret_program_vm :: VirtualMachine where
  "ret_program_vm =
     Vm (snd (Initialize ret_program_cells (NewCairoRunner ret_program plain_layout False)))"

text \<open>
  A conditional jump \<open>jmp rel [ap] if [ap - 1] != 0\<close>: no immediate, \<open>pc_update = JNZ\<close>.
\<close>

definition jnz_instruction :: Instruction where
  "jnz_instruction =
     \<lparr> Off0 = - 1, Off1 = - 1, Off2 = 0, DstReg = AP, Op0Reg = FP, Op1Addr = Op1SrcAP,
       ResLogic = ResUnconstrained, PcUpdate = PcUpdateJnz, ApUpdate = ApUpdateRegular,
       FpUpdate = FpUpdateRegular, Opcode = NOp \<rparr>"

text \<open>
  A program that declares the range-check builtin, a layout that provides it, and the
  runner of the two after its builtins and segments are initialized: program segment 0,
  execution segment 1, range-check segment 2.
\<close>

definition range_check_program :: Program where
  "range_check_program =
     \<lparr> Data = [NewMaybeRelocatableFelt 0x208b7fff7fff7ffe], Builtins = [''range_check''],
       Identifiers = Map.empty, Start = 0, End = 0 \<rparr>"

definition range_check_layout :: CairoLayout where
  "range_check_layout = \<lparr> LayoutBuiltins = [RangeCheckBuiltinRunner (NewRelocatable 0 0) False] \<rparr>"

definition range_check_runner :: CairoRunner where
  "range_check_runner =
     initializeSegments
       (snd (initializeBuiltins (NewCairoRunner range_check_program range_check_layout False)))"

text \<open>
  The loop \<open>jmp rel 0\<close> at which a program compiled for proof mode ends, encoded as
  \<open>0x10780017fff7fff\<close> with the immediate 0, as a program of its own; the cells that its
  initialization writes, in one order of visit; its runner in proof mode after
  initialization, and the machine of that runner, at step 0.
\<close>

definition jmp_rel_instruction :: Instruction where
  "jmp_rel_instruction =
     \<lparr> Off0 = - 1, Off1 = - 1, Off2 = 1, DstReg = FP, Op0Reg = FP, Op1Addr = Op1SrcImm,
       ResLogic = ResOp1, PcUpdate = PcUpdateJumpRel, ApUpdate = ApUpdateRegular,
       FpUpdate = FpUpdateRegular, Opcode = NOp \<rparr>"

definition end_loop_program :: Program where
  "end_loop_program =
     \<lparr> Data = [NewMaybeRelocatableFelt 0x10780017fff7fff, NewMaybeRelocatableFelt 0],
       Builtins = [], Identifiers = Map.empty, Start = 0, End = 0 \<rparr>"

definition end_loop_cells :: "Relocatable list" where
  "end_loop_cells = [\<lparr> SegmentIndex = 0, Offset = 0 \<rparr>, \<lparr> SegmentIndex = 0, Offset = 1 \<rparr>,
                     \<lparr> SegmentIndex = 1, Offset = 0 \<rparr>, \<lparr> SegmentIndex = 1, Offset = 1 \<rparr>]"

definition end_loop_runner :: CairoRunner where
  "end_loop_runner =
     snd (Initialize end_loop_cells (NewCairoRunner end_loop_program plain_layout True))"

definition end_loop_vm :: VirtualMachine where
  "end_loop_vm = Vm end_loop_runner"

text \<open>
  A check of the memory usage that fails with an error wrapping
  \<open>ErrInsufficientAllocatedCells\<close> before step 4, as long as the memory units of the
  steps do not cover the holes, and an environment with this check, the step of the
  machine without hints, and the other operations without effect and without error.
\<close>

definition example_CheckMemoryUsage :: "CairoRunner \<Rightarrow> VirtualMachine \<Rightarrow> error option" where
  "example_CheckMemoryUsage runner vm =
     (if CurrentStep vm < 4
      then Some (ErrWrap ErrInsufficientAllocatedCells ''memory holes'')
      else None)"

definition example_env :: Environment where
  "example_env =
     \<lparr> vm_EndRun = (\<lambda>vm. (None, vm)), ComputeEffectiveSizes = (\<lambda>segments. segments),
       BuildHintDataMap = (\<lambda>runner. None), vm_Step = Step,
       GetUsedCellsAndAllocatedSizes = (\<lambda>builtin segments currentStep. None),
       CheckRangeCheckUsage = (\<lambda>runner vm. None),
       CheckMemoryUsage = example_CheckMemoryUsage,
       CheckDilutedCheckUsage = (\<lambda>runner vm. None) \<rparr>"


section \<open>Verified properties: instruction decoding\<close>

lemma int_lt: "(n::nat) < 65536 \<Longrightarrow> int n - 32768 < 2 ^ 15 \<and> - (2 ^ 15) \<le> int n - 32768"
  by simp

lemma fb: "fromBiasedRepresentation (w AND mask 16) = int (unat w mod 65536) - 32768"
proof -
  let ?x = "int (unat w mod 65536)"
  let ?u = "ucast (w AND mask 16) :: 16 word"
  have "uint ?u = take_bit 16 (uint (take_bit 16 w))"
    by (simp only: unsigned_ucast_eq take_bit_eq_mask len_of_numeral_defs)  simp
  also have "\<dots> = take_bit 16 (uint w)"
    by (simp only: unsigned_take_bit_eq take_bit_take_bit)
  also have "\<dots> = ?x"
    by (simp only: take_bit_eq_mod uint_nat of_nat_mod) simp
  finally have u: "uint ?u = ?x" .
  have b: "uint (push_bit 15 1 :: 16 word) = 32768" by simp
  have "sint (?u - push_bit 15 1) = signed_take_bit 15 (uint (?u - push_bit 15 1))"
    by (simp only: sint_uint) simp
  also have "\<dots> = signed_take_bit 15 (take_bit 16 (?x - 32768))"
    by (simp only: uint_word_arith_bintrs u b) simp
  also have "\<dots> = signed_take_bit 15 (?x - 32768)"
    by (simp only: signed_take_bit_take_bit) simp
  also have "\<dots> = ?x - 32768"
  proof (rule signed_take_bit_int_eq_self)
    have lt: "unat w mod 65536 < 65536" by simp
    show "?x - 32768 < 2 ^ 15" using int_lt [OF lt] by blast
    show "- (2 ^ 15) \<le> ?x - 32768" using int_lt [OF lt] by blast
  qed
  finally show ?thesis
    unfolding fromBiasedRepresentation_def .
qed

lemma field_extract:
  "drop_bit k ((x::64 word) AND push_bit k (mask n)) = take_bit n (drop_bit k x)"
  by (rule bit_word_eqI) (auto simp: bit_simps dest: bit_imp_le_length)

lemma unat_field:
  "unat (take_bit n (drop_bit k (w::64 word))) = instr_field w k n"
proof -
  have "unat (take_bit n (drop_bit k w)) = take_bit n (drop_bit k (unat w))"
    by (simp only: unsigned_take_bit_eq unat_drop_bit_eq)
  also have "\<dots> = (unat w div 2 ^ k) mod 2 ^ n"
    by (simp only: drop_bit_eq_div take_bit_eq_mod)
  finally show ?thesis unfolding instr_field_def .
qed

lemma flag_field:
  "(drop_bit k (drop_bit 48 (w::64 word) AND push_bit k (mask n)) = c) = (instr_field w (48 + k) n = unat c)"
proof -
  have "drop_bit k (drop_bit 48 w AND push_bit k (mask n)) = take_bit n (drop_bit (48 + k) w)"
    by (simp only: field_extract drop_bit_drop_bit add.commute)
  then show ?thesis
    by (simp only: word_unat_eq_iff unat_field)
qed

lemma masks:
  "(0x0001 :: 64 word) = push_bit 0 (mask 1)"
  "(0x0002 :: 64 word) = push_bit 1 (mask 1)"
  "(0x001C :: 64 word) = push_bit 2 (mask 3)"
  "(0x0060 :: 64 word) = push_bit 5 (mask 2)"
  "(0x0380 :: 64 word) = push_bit 7 (mask 3)"
  "(0x0C00 :: 64 word) = push_bit 10 (mask 2)"
  "(0x7000 :: 64 word) = push_bit 12 (mask 3)"
  by (simp_all add: mask_eq_exp_minus_1 push_bit_eq_mult)

lemma flag_fields:
  "(drop_bit 0 (drop_bit 48 (w::64 word) AND 0x0001) = c) = (instr_field w 48 1 = unat c)"
  "(drop_bit 1 (drop_bit 48 (w::64 word) AND 0x0002) = c) = (instr_field w 49 1 = unat c)"
  "(drop_bit 2 (drop_bit 48 (w::64 word) AND 0x001C) = c) = (instr_field w 50 3 = unat c)"
  "(drop_bit 5 (drop_bit 48 (w::64 word) AND 0x0060) = c) = (instr_field w 53 2 = unat c)"
  "(drop_bit 7 (drop_bit 48 (w::64 word) AND 0x0380) = c) = (instr_field w 55 3 = unat c)"
  "(drop_bit 10 (drop_bit 48 (w::64 word) AND 0x0C00) = c) = (instr_field w 58 2 = unat c)"
  "(drop_bit 12 (drop_bit 48 (w::64 word) AND 0x7000) = c) = (instr_field w 60 3 = unat c)"
  by (simp_all only: masks flag_field) simp_all

lemma offset_field:
  "fromBiasedRepresentation (drop_bit k (w::64 word) AND 0xFFFF) = spec_offset (instr_field w k 16)"
proof -
  have m: "(0xFFFF :: 64 word) = mask 16" by (simp add: mask_eq_exp_minus_1)
  have "unat (drop_bit k w) mod 65536 = instr_field w k 16"
    by (simp only: instr_field_def unat_drop_bit_eq) (simp only: drop_bit_eq_div power_one_right, simp)
  then show ?thesis
    using fb [of "drop_bit k w"] by (simp only: m spec_offset_def) simp
qed

lemma offset_fields:
  "fromBiasedRepresentation ((w::64 word) AND 0xFFFF) = spec_offset (instr_field w 0 16)"
  "fromBiasedRepresentation (drop_bit 16 (w::64 word) AND 0xFFFF) = spec_offset (instr_field w 16 16)"
  "fromBiasedRepresentation (drop_bit 32 (w::64 word) AND 0xFFFF) = spec_offset (instr_field w 32 16)"
  using offset_field [of 0 w] offset_field [of 16 w] offset_field [of 32 w] by simp_all

lemma highbit: "((w::64 word) AND push_bit 63 1 \<noteq> 0) = bit w 63"
  using and_exp_eq_0_iff_not_bit [of w 63] by (simp only: push_bit_of_1) blast

lemma field_bounds:
  "instr_field w 48 1 < 2" "instr_field w 49 1 < 2" "instr_field w 50 3 < 8"
  "instr_field w 53 2 < 4" "instr_field w 55 3 < 8" "instr_field w 58 2 < 4" "instr_field w 60 3 < 8"
  by (simp_all add: instr_field_def)

lemma unat_consts: "unat (0::64 word) = 0" "unat (1::64 word) = 1" "unat (2::64 word) = 2" "unat (4::64 word) = 4"
  by simp_all

lemma reg_table:
  "(if instr_field w 48 1 = 1 then FP else AP) = spec_reg (instr_field w 48 1)"
  "(if instr_field w 49 1 = 1 then FP else AP) = spec_reg (instr_field w 49 1)"
  using field_bounds(1,2) [of w] by (auto simp: spec_reg_def)

lemma op1_table:
  "(if n = 0 then Some Op1SrcOp0 else if n = 1 then Some Op1SrcImm
    else if n = 2 then Some Op1SrcFP else if n = 4 then Some Op1SrcAP else None) = spec_op1_src n"
  by (simp add: spec_op1_src_def)

lemma pc_table:
  "(if n = 0 then Some PcUpdateRegular else if n = 1 then Some PcUpdateJump
    else if n = 2 then Some PcUpdateJumpRel else if n = 4 then Some PcUpdateJnz else None) = spec_pc_update n"
  by (simp add: spec_pc_update_def)

lemma res_table:
  "(if n = 0 then (if pc = PcUpdateJnz then Some ResUnconstrained else Some ResOp1)
    else if n = 1 then Some ResAdd else if n = 2 then Some ResMul else None) = spec_res_logic n pc"
  by (simp add: spec_res_logic_def)

lemma opcode_table:
  "(if n = 0 then Some NOp else if n = 1 then Some Call
    else if n = 2 then Some Ret else if n = 4 then Some AssertEq else None) = spec_opcode n"
  by (simp add: spec_opcode_def)

lemma ap_table:
  "(if n = 0 then (if opc = Call then Some ApUpdateAdd2 else Some ApUpdateRegular)
    else if n = 1 then Some ApUpdateAdd else if n = 2 then Some ApUpdateAdd1 else None) = spec_ap_update n opc"
  by (simp add: spec_ap_update_def)

lemma fp_table:
  "(case opc of Call \<Rightarrow> FpUpdateAPPlus2 | Ret \<Rightarrow> FpUpdateDst | _ \<Rightarrow> FpUpdateRegular) = spec_fp_update opc"
  by (cases opc) (simp_all add: spec_fp_update_def)

lemma DecodeInstruction_tables:
  "DecodeInstruction w =
    (if bit w 63 then Inl ErrNonZeroHighBitError
     else case spec_op1_src (instr_field w 50 3) of None \<Rightarrow> Inl ErrInvalidOp1RegError | Some op1 \<Rightarrow>
      (case spec_pc_update (instr_field w 55 3) of None \<Rightarrow> Inl ErrInvalidPcUpdateError | Some pc \<Rightarrow>
      (case spec_res_logic (instr_field w 53 2) pc of None \<Rightarrow> Inl ErrInvalidResError | Some res \<Rightarrow>
      (case spec_opcode (instr_field w 60 3) of None \<Rightarrow> Inl ErrInvalidOpcodeError | Some opc \<Rightarrow>
      (case spec_ap_update (instr_field w 58 2) opc of None \<Rightarrow> Inl ErrInvalidApUpdateError | Some ap \<Rightarrow>
        Inr \<lparr> Off0 = spec_offset (instr_field w 0 16),
             Off1 = spec_offset (instr_field w 16 16),
             Off2 = spec_offset (instr_field w 32 16),
             DstReg = spec_reg (instr_field w 48 1),
             Op0Reg = spec_reg (instr_field w 49 1),
             Op1Addr = op1, ResLogic = res, PcUpdate = pc, ApUpdate = ap,
             FpUpdate = spec_fp_update opc, Opcode = opc \<rparr>)))))"
  apply (simp only: DecodeInstruction_def Let_def flag_fields offset_field highbit unat_consts)
  apply (simp only: offset_fields(1) reg_table op1_table pc_table res_table opcode_table
      ap_table fp_table cong: option.case_cong)
  done

lemma table_None:
  "(spec_op1_src n = None) = (n \<notin> {0, 1, 2, 4})"
  "(spec_pc_update n = None) = (n \<notin> {0, 1, 2, 4})"
  "(spec_res_logic n pc = None) = (n \<notin> {0, 1, 2})"
  "(spec_opcode n = None) = (n \<notin> {0, 1, 2, 4})"
  "(spec_ap_update n opc = None) = (n \<notin> {0, 1, 2})"
  by (simp_all add: spec_op1_src_def spec_pc_update_def spec_res_logic_def spec_opcode_def spec_ap_update_def)

theorem DecodeInstruction_table:
  "(DecodeInstruction w = Inl ErrNonZeroHighBitError \<longleftrightarrow> bit w 63) \<and>
   (\<not> bit w 63 \<longrightarrow>
      (case spec_decode w of
         Some i \<Rightarrow> DecodeInstruction w = Inr i
       | None \<Rightarrow> (\<exists>e \<in> invalid_field_errors w. DecodeInstruction w = Inl e)))"
proof (intro conjI impI)
  show "DecodeInstruction w = Inl ErrNonZeroHighBitError \<longleftrightarrow> bit w 63"
    by (simp add: DecodeInstruction_tables split: option.splits)
next
  assume hb: "\<not> bit w 63"
  show "case spec_decode w of
         Some i \<Rightarrow> DecodeInstruction w = Inr i
       | None \<Rightarrow> (\<exists>e \<in> invalid_field_errors w. DecodeInstruction w = Inl e)"
  proof (cases "spec_op1_src (instr_field w 50 3)")
    case None
    then have "ErrInvalidOp1RegError \<in> invalid_field_errors w"
      by (simp add: invalid_field_errors_def table_None)
    with None show ?thesis using hb
      by (simp add: DecodeInstruction_tables spec_decode_def)
  next
    case op1: (Some op1)
    show ?thesis
    proof (cases "spec_pc_update (instr_field w 55 3)")
      case None
      then have "ErrInvalidPcUpdateError \<in> invalid_field_errors w"
        by (simp add: invalid_field_errors_def table_None)
      with None show ?thesis using hb op1
        by (simp add: DecodeInstruction_tables spec_decode_def)
    next
      case pc: (Some pc)
      show ?thesis
      proof (cases "spec_res_logic (instr_field w 53 2) pc")
        case None
        then have "ErrInvalidResError \<in> invalid_field_errors w"
          by (simp add: invalid_field_errors_def table_None)
        with None show ?thesis using hb op1 pc
          by (simp add: DecodeInstruction_tables spec_decode_def)
      next
        case res: (Some res)
        show ?thesis
        proof (cases "spec_opcode (instr_field w 60 3)")
          case None
          then have "ErrInvalidOpcodeError \<in> invalid_field_errors w"
            by (simp add: invalid_field_errors_def table_None)
          with None show ?thesis using hb op1 pc res
            by (simp add: DecodeInstruction_tables spec_decode_def)
        next
          case opc: (Some opc)
          show ?thesis
          proof (cases "spec_ap_update (instr_field w 58 2) opc")
            case None
            then have "ErrInvalidApUpdateError \<in> invalid_field_errors w"
              by (simp add: invalid_field_errors_def table_None)
            with None show ?thesis using hb op1 pc res opc
              by (simp add: DecodeInstruction_tables spec_decode_def)
          next
            case (Some ap)
            then show ?thesis using hb op1 pc res opc
              by (simp add: DecodeInstruction_tables spec_decode_def)
          qed
        qed
      qed
    qed
  qed
qed

text \<open>
  The word \<open>0x480680017fff8000\<close> (\<open>[ap] = 2; ap++\<close>) has its high bit clear and
  decodes by the table.
\<close>

theorem DecodeInstruction_table_witness:
  "\<not> bit (0x480680017fff8000 :: 64 word) 63 \<and>
   DecodeInstruction 0x480680017fff8000 =
     Inr \<lparr> Off0 = 0, Off1 = - 1, Off2 = 1, DstReg = AP, Op0Reg = FP, Op1Addr = Op1SrcImm,
           ResLogic = ResOp1, PcUpdate = PcUpdateRegular, ApUpdate = ApUpdateAdd1,
           FpUpdate = FpUpdateRegular, Opcode = AssertEq \<rparr>"
proof -
  let ?w = "0x480680017fff8000 :: 64 word"
  have hb: "\<not> bit ?w 63"
    by (simp add: bit_iff_odd_drop_bit drop_bit_eq_div)
  have sd: "spec_decode ?w =
     Some \<lparr> Off0 = 0, Off1 = - 1, Off2 = 1, DstReg = AP, Op0Reg = FP, Op1Addr = Op1SrcImm,
           ResLogic = ResOp1, PcUpdate = PcUpdateRegular, ApUpdate = ApUpdateAdd1,
           FpUpdate = FpUpdateRegular, Opcode = AssertEq \<rparr>"
    by (simp add: spec_decode_def instr_field_def spec_op1_src_def spec_pc_update_def
        spec_res_logic_def spec_opcode_def spec_ap_update_def spec_fp_update_def
        spec_reg_def spec_offset_def)
  from DecodeInstruction_table [of ?w] hb sd show ?thesis
    by simp
qed


section \<open>Verified properties: memory\<close>

lemma Bits_le_iff: "Bits n \<le> k \<longleftrightarrow> n < 2 ^ k"
proof (induction k arbitrary: n)
  case 0
  show ?case by (subst Bits.simps) simp
next
  case (Suc k)
  have "Bits n \<le> Suc k \<longleftrightarrow> n = 0 \<or> Bits (n div 2) \<le> k"
    by (subst Bits.simps) simp
  also have "\<dots> \<longleftrightarrow> n = 0 \<or> n div 2 < 2 ^ k"
    by (simp only: Suc.IH)
  also have "\<dots> \<longleftrightarrow> n < 2 ^ Suc k"
    by auto
  finally show ?case .
qed

lemma Bits_gt_iff: "Bits n > k \<longleftrightarrow> 2 ^ k \<le> n"
  using Bits_le_iff [of n k] by auto

lemma rc_bound: "N_PARTS * INNER_RC_BOUND_SHIFT = 128"
  by (simp add: N_PARTS_def INNER_RC_BOUND_SHIFT_def)

lemma two_segments_simps:
  "num_segments (Memory two_segments) = 2"
  "data (Memory two_segments) = Map.empty"
  "validation_rules (Memory two_segments) = Map.empty"
  "validated_addresses (Memory two_segments) = {}"
  by (simp_all add: two_segments_def AddSegment_def NewMemorySegmentManager_def NewMemory_def
      Let_def)

subsection \<open>Negative segment indices\<close>

lemma validateAddress_negative:
  "SegmentIndex addr < 0 \<Longrightarrow> validateAddress addr m = (None, m)"
  by (simp add: validateAddress_def)

text \<open>
  C10. For an address whose segment index is negative, \<open>validateAddress\<close> applies no
  rule, \<open>Insert\<close> never fails the segment-allocation check, and an insert that the
  write-once check does not block (the cell is empty or holds the same value) succeeds
  and stores the value, whatever the number of allocated segments.
\<close>

theorem Insert_negative_segment:
  assumes "SegmentIndex addr < 0"
  shows "validateAddress addr m = (None, m) \<and>
         fst (Insert addr val m) \<noteq> Some ErrUnallocatedSegment \<and>
         (data m addr = None \<or> data m addr = Some val \<longrightarrow>
            Insert addr val m = (None, m\<lparr> data := (data m)(addr \<mapsto> val) \<rparr>))"
  using assms by (auto simp: Insert_def validateAddress_def split: option.splits)

text \<open>In the fresh memory, with no segment at all, the insert at \<open>(-1, 0)\<close> succeeds.\<close>

theorem Insert_negative_segment_witness:
  "SegmentIndex \<lparr> SegmentIndex = - 1, Offset = 0 \<rparr> < 0 \<and>
   Insert \<lparr> SegmentIndex = - 1, Offset = 0 \<rparr> (NewMaybeRelocatableFelt 5) NewMemory =
     (None, NewMemory\<lparr> data := [\<lparr> SegmentIndex = - 1, Offset = 0 \<rparr> \<mapsto> NewMaybeRelocatableFelt 5] \<rparr>)"
  using Insert_negative_segment [of "\<lparr> SegmentIndex = - 1, Offset = 0 \<rparr>" NewMemory "NewMaybeRelocatableFelt 5"]
  by (simp add: NewMemory_def)

subsection \<open>Write-once\<close>

lemma data_update_same: "data m addr = Some v \<Longrightarrow> m\<lparr> data := (data m)(addr \<mapsto> v) \<rparr> = m"
  by (simp add: fun_upd_idem)

lemma validateAddress_data: "data (snd (validateAddress addr m)) = data m"
  by (simp add: validateAddress_def split: option.splits sum.splits)

text \<open>
  C1, as amended. For an address in an allocated segment that already holds \<open>v1\<close>:
  inserting \<open>v1\<close> again leaves the cell map unchanged and returns what
  \<open>validateAddress\<close> returns, which is success when the address is already validated or
  its segment has no validation rule; inserting any \<open>v2 \<noteq> v1\<close> returns the
  write-once error and leaves the memory unchanged.
\<close>

theorem Insert_write_once:
  assumes "0 \<le> SegmentIndex addr" and "SegmentIndex addr < int (num_segments m)"
    and "data m addr = Some v1"
  shows "Insert addr v1 m = validateAddress addr m \<and>
         data (snd (Insert addr v1 m)) = data m \<and>
         (addr \<in> validated_addresses m \<or> validation_rules m (uint_of_int (SegmentIndex addr)) = None
            \<longrightarrow> Insert addr v1 m = (None, m)) \<and>
         (v2 \<noteq> v1 \<longrightarrow> Insert addr v2 m = (Some ErrWriteOnce, m))"
proof (intro conjI impI)
  show eq: "Insert addr v1 m = validateAddress addr m"
    using assms by (simp add: Insert_def data_update_same)
  show "data (snd (Insert addr v1 m)) = data m"
    by (simp only: eq validateAddress_data)
  show "Insert addr v1 m = (None, m)"
    if "addr \<in> validated_addresses m \<or> validation_rules m (uint_of_int (SegmentIndex addr)) = None"
    using that by (auto simp: eq validateAddress_def)
  show "Insert addr v2 m = (Some ErrWriteOnce, m)" if "v2 \<noteq> v1"
    using assms that by (auto simp: Insert_def)
qed

text \<open>
  In \<open>seven_memory\<close> the cell \<open>(1, 0)\<close> holds 7: writing 7 again succeeds and changes
  nothing, writing 8 is refused.
\<close>

theorem Insert_write_once_witness:
  "(0::int) \<le> SegmentIndex \<lparr> SegmentIndex = 1, Offset = 0 \<rparr> \<and>
   SegmentIndex \<lparr> SegmentIndex = 1, Offset = 0 \<rparr> < int (num_segments seven_memory) \<and>
   data seven_memory \<lparr> SegmentIndex = 1, Offset = 0 \<rparr> = Some (NewMaybeRelocatableFelt 7) \<and>
   Insert \<lparr> SegmentIndex = 1, Offset = 0 \<rparr> (NewMaybeRelocatableFelt 7) seven_memory =
     (None, seven_memory) \<and>
   Insert \<lparr> SegmentIndex = 1, Offset = 0 \<rparr> (NewMaybeRelocatableFelt 8) seven_memory =
     (Some ErrWriteOnce, seven_memory)"
proof -
  let ?a = "\<lparr> SegmentIndex = 1, Offset = 0 \<rparr>"
  have m: "seven_memory = (Memory two_segments)\<lparr> data := [?a \<mapsto> NewMaybeRelocatableFelt 7] \<rparr>"
    by (simp add: seven_memory_def Insert_def validateAddress_def two_segments_simps
        uint_of_int_def)
  have h1: "0 \<le> SegmentIndex ?a" by simp
  have h2: "SegmentIndex ?a < int (num_segments seven_memory)"
    by (simp add: m two_segments_simps)
  have h3: "data seven_memory ?a = Some (NewMaybeRelocatableFelt 7)"
    by (simp add: m)
  have h4: "validation_rules seven_memory (uint_of_int (SegmentIndex ?a)) = None"
    by (simp add: m two_segments_simps)
  note w = Insert_write_once [OF h1 h2 h3, of "NewMaybeRelocatableFelt 8"]
  have same: "Insert ?a (NewMaybeRelocatableFelt 7) seven_memory = (None, seven_memory)"
    using w h4 by blast
  have "NewMaybeRelocatableFelt 8 \<noteq> NewMaybeRelocatableFelt 7" by simp
  then have other: "Insert ?a (NewMaybeRelocatableFelt 8) seven_memory
      = (Some ErrWriteOnce, seven_memory)"
    using w by blast
  from h1 h2 h3 same other show ?thesis by blast
qed

text \<open>
  C1 as stated fails. In \<open>late_rule_memory\<close> the cell \<open>(1, 0)\<close> of the allocated
  segment 1 holds the felt \<open>2\<^sup>1\<^sup>2\<^sup>8\<close>, written before the range-check rule was
  registered; inserting the identical value runs the rule and returns its error.
\<close>

theorem Insert_identical_value_counterexample:
  "SegmentIndex \<lparr> SegmentIndex = 1, Offset = 0 \<rparr> < int (num_segments late_rule_memory) \<and>
   data late_rule_memory \<lparr> SegmentIndex = 1, Offset = 0 \<rparr>
     = Some (NewMaybeRelocatableFelt (2 ^ 128)) \<and>
   fst (Insert \<lparr> SegmentIndex = 1, Offset = 0 \<rparr> (NewMaybeRelocatableFelt (2 ^ 128))
          late_rule_memory) = Some ErrRangeCheckNumOutOfBounds"
  by (simp add: late_rule_memory_def Insert_def validateAddress_def two_segments_simps
      AddValidationRule_def uint_of_int_def RangeCheck_ValidationRule_def rc_bound Bits_le_iff)

subsection \<open>Range check\<close>




section \<open>Verified properties: builtin runners\<close>

subsection \<open>Bitwise\<close>

lemma pow251_lt_prime: "(2::nat) ^ 251 < CAIRO_PRIME"
  by (simp add: CAIRO_PRIME_def)

lemma nat_bitops_bound:
  assumes "(x::nat) < 2 ^ n" and "y < 2 ^ n"
  shows "x AND y < 2 ^ n" and "x OR y < 2 ^ n" and "x XOR y < 2 ^ n"
proof -
  have x: "take_bit n x = x" and y: "take_bit n y = y"
    using assms by (simp_all add: take_bit_nat_eq_self_iff)
  show "x AND y < 2 ^ n" and "x OR y < 2 ^ n" and "x XOR y < 2 ^ n"
    unfolding take_bit_nat_eq_self_iff [symmetric]
    by (simp_all add: take_bit_and take_bit_or take_bit_xor x y)
qed

lemma felt_bitops_small:
  assumes "Bits x \<le> 251" and "Bits y \<le> 251"
  shows "felt_And x y = x AND y" and "felt_Or x y = x OR y" and "felt_Xor x y = x XOR y"
proof -
  have "x < 2 ^ 251" "y < 2 ^ 251" using assms by (simp_all add: Bits_le_iff)
  from nat_bitops_bound [OF this] pow251_lt_prime
  show "felt_And x y = x AND y" and "felt_Or x y = x OR y" and "felt_Xor x y = x XOR y"
    by (simp_all add: felt_And_def felt_Or_def felt_Xor_def)
qed

lemma index_cases:
  fixes off :: "64 word"
  shows "(off mod 5 < 2) = (unat off mod 5 < 2)"
    and "(off mod 5 = 2) = (unat off mod 5 = 2)"
    and "(off mod 5 = 3) = (unat off mod 5 = 3)"
    and "(off mod 5 = 4) = (unat off mod 5 = 4)"
  by (simp_all add: word_less_nat_alt word_unat_eq_iff unat_mod_distrib)

lemma SubUint_index:
  fixes off :: "64 word"
  shows "SubUint \<lparr> SegmentIndex = s, Offset = off \<rparr> (off mod 5) =
         Inr \<lparr> SegmentIndex = s, Offset = off - off mod 5 \<rparr>"
proof -
  have "off mod 5 \<le> off"
    by (simp add: word_le_nat_alt unat_mod_distrib)
  then show ?thesis
    by (simp add: SubUint_def NewRelocatable_def not_less)
qed

lemma Bitwise_DeduceMemoryCell_index:
  fixes address :: Relocatable and mem :: memory_data
  defines "index \<equiv> unat (Offset address) mod 5"
  defines "x_addr \<equiv> \<lparr> SegmentIndex = SegmentIndex address, Offset = Offset address - of_nat index \<rparr>"
  defines "y_addr \<equiv> \<lparr> SegmentIndex = SegmentIndex address, Offset = Offset address - of_nat index + 1 \<rparr>"
  shows "(index < 2 \<longrightarrow> Bitwise_DeduceMemoryCell address mem = Inr None) \<and>
         (2 \<le> index \<and> mem x_addr = Some (NewMaybeRelocatableFelt x) \<and>
          mem y_addr = Some (NewMaybeRelocatableFelt y) \<longrightarrow>
            Bitwise_DeduceMemoryCell address mem =
              (if Bits x > 251 then Inl (ErrFeltBiggerThanPowerOfTwo x)
               else if Bits y > 251 then Inl (ErrFeltBiggerThanPowerOfTwo y)
               else Inr (Some (NewMaybeRelocatableFelt
                     (if index = 2 then x AND y else if index = 3 then x XOR y else x OR y)))))"
proof -
  obtain s off where a: "address = \<lparr> SegmentIndex = s, Offset = off \<rparr>"
    by (cases address) simp
  have "unat (off mod 5) = index"
    by (simp add: index_def a unat_mod_distrib)
  then have idx: "(of_nat index :: 64 word) = off mod 5"
    using of_nat_unat [of "off mod 5", where 'a = "64 word"] by simp
  have lt5: "index < 5" by (simp add: index_def)
  have iw: "(off mod 5 < 2) = (index < 2)" "(off mod 5 = 2) = (index = 2)"
    "(off mod 5 = 3) = (index = 3)" "(off mod 5 = 4) = (index = 4)"
    by (simp_all add: index_cases index_def a)
  show ?thesis
  proof (intro conjI impI)
    assume "index < 2"
    then show "Bitwise_DeduceMemoryCell address mem = Inr None"
      by (simp add: Bitwise_DeduceMemoryCell_def Let_def BITWISE_CELLS_PER_INSTANCE_def
          BIWISE_INPUT_CELLS_PER_INSTANCE_def a iw)
  next
    assume h: "2 \<le> index \<and> mem x_addr = Some (NewMaybeRelocatableFelt x) \<and>
          mem y_addr = Some (NewMaybeRelocatableFelt y)"
    then have nlt: "\<not> index < 2" by simp
    have gx: "Memory_GetFelt mem \<lparr> SegmentIndex = s, Offset = off - off mod 5 \<rparr> = Inr x"
      using h by (simp add: Memory_GetFelt_def x_addr_def a idx)
    have gy: "Memory_GetFelt mem \<lparr> SegmentIndex = s, Offset = off - off mod 5 + 1 \<rparr> = Inr y"
      using h by (simp add: Memory_GetFelt_def y_addr_def a idx)
    have step: "Bitwise_DeduceMemoryCell address mem =
        (if 251 < Bits x then Inl (ErrFeltBiggerThanPowerOfTwo x)
         else if 251 < Bits y then Inl (ErrFeltBiggerThanPowerOfTwo y)
         else if index = 2 then Inr (Some (NewMaybeRelocatableFelt (felt_And x y)))
         else if index = 3 then Inr (Some (NewMaybeRelocatableFelt (felt_Xor x y)))
         else if index = 4 then Inr (Some (NewMaybeRelocatableFelt (felt_Or x y)))
         else Inr None)"
      by (simp add: Bitwise_DeduceMemoryCell_def Let_def BITWISE_CELLS_PER_INSTANCE_def
          BIWISE_INPUT_CELLS_PER_INSTANCE_def BITWISE_TOTAL_N_BITS_def a SubUint_index
          AddUint_def NewRelocatable_def iw nlt gx gy)
    have i234: "index = 2 \<or> index = 3 \<or> index = 4"
      using h lt5 by auto
    show "Bitwise_DeduceMemoryCell address mem =
              (if Bits x > 251 then Inl (ErrFeltBiggerThanPowerOfTwo x)
               else if Bits y > 251 then Inl (ErrFeltBiggerThanPowerOfTwo y)
               else Inr (Some (NewMaybeRelocatableFelt
                     (if index = 2 then x AND y else if index = 3 then x XOR y else x OR y))))"
      using i234 by (auto simp: step felt_bitops_small not_less)
  qed
qed

text \<open>
  C9. With \<open>o\<close> the offset of the address and \<open>i = o mod 5\<close>: for \<open>i\<close> in \<open>{0, 1}\<close>
  nothing is deduced; for \<open>i\<close> in \<open>{2, 3, 4}\<close>, when the cells at \<open>o - i\<close> and
  \<open>o - i + 1\<close> hold the felts \<open>x\<close> and \<open>y\<close>, deduction fails with
  \<open>ErrFeltBiggerThanPowerOfTwo\<close> if the bit length of \<open>x\<close> or of \<open>y\<close> exceeds 251,
  and otherwise returns \<open>x AND y\<close>, \<open>x XOR y\<close> or \<open>x OR y\<close> for \<open>i = 2, 3, 4\<close>.
\<close>

theorem Bitwise_DeduceMemoryCell_spec:
  "(unat (Offset address) mod 5 < 2 \<longrightarrow> Bitwise_DeduceMemoryCell address mem = Inr None) \<and>
   (2 \<le> unat (Offset address) mod 5 \<and>
    mem \<lparr> SegmentIndex = SegmentIndex address,
          Offset = Offset address - of_nat (unat (Offset address) mod 5) \<rparr>
      = Some (NewMaybeRelocatableFelt x) \<and>
    mem \<lparr> SegmentIndex = SegmentIndex address,
          Offset = Offset address - of_nat (unat (Offset address) mod 5) + 1 \<rparr>
      = Some (NewMaybeRelocatableFelt y) \<longrightarrow>
      Bitwise_DeduceMemoryCell address mem =
        (if Bits x > 251 then Inl (ErrFeltBiggerThanPowerOfTwo x)
         else if Bits y > 251 then Inl (ErrFeltBiggerThanPowerOfTwo y)
         else Inr (Some (NewMaybeRelocatableFelt
               (if unat (Offset address) mod 5 = 2 then x AND y
                else if unat (Offset address) mod 5 = 3 then x XOR y else x OR y)))))"
  by (rule Bitwise_DeduceMemoryCell_index)

text \<open>
  At \<open>(3, 7)\<close> the index is 2 and the inputs 12 and 10 sit at offsets 5 and 6: the
  deduced value is \<open>12 AND 10 = 8\<close>.
\<close>

theorem Bitwise_DeduceMemoryCell_spec_witness:
  "2 \<le> unat (Offset \<lparr> SegmentIndex = 3, Offset = 7 \<rparr>) mod 5 \<and>
   Bitwise_DeduceMemoryCell \<lparr> SegmentIndex = 3, Offset = 7 \<rparr> builtin_cells =
     Inr (Some (NewMaybeRelocatableFelt 8))"
proof -
  let ?a = "\<lparr> SegmentIndex = 3, Offset = 7 :: 64 word \<rparr>"
  have i: "unat (Offset ?a) mod 5 = 2" by simp
  have hx: "builtin_cells \<lparr> SegmentIndex = SegmentIndex ?a,
          Offset = Offset ?a - of_nat (unat (Offset ?a) mod 5) \<rparr>
      = Some (NewMaybeRelocatableFelt 12)"
    by (simp add: builtin_cells_def)
  have hy: "builtin_cells \<lparr> SegmentIndex = SegmentIndex ?a,
          Offset = Offset ?a - of_nat (unat (Offset ?a) mod 5) + 1 \<rparr>
      = Some (NewMaybeRelocatableFelt 10)"
    by (simp add: builtin_cells_def)
  have bx: "\<not> Bits 12 > 251" and "\<not> Bits 10 > 251"
    by (simp_all add: not_less Bits_le_iff)
  moreover have "(12::nat) AND 10 = 8" by simp
  ultimately show ?thesis
    using Bitwise_DeduceMemoryCell_spec [of ?a builtin_cells 12 10] i hx hy
    by simp
qed

subsection \<open>Pedersen\<close>

lemma sint_pos_unat:
  fixes w :: "64 word"
  assumes "0 < sint w"
  shows "int (unat w) = sint w"
proof -
  have "sint w < 2 ^ (64 - 1)"
    using sint_less [of w] by (simp only: len_of_numeral_defs) simp
  also have "(2::int) ^ (64 - 1) < 2 ^ 64"
    by (rule power_strict_increasing) simp_all
  finally have "take_bit 64 (sint w) = sint w"
    using assms by (intro take_bit_int_eq_self) simp_all
  then show ?thesis
    using uint_sint [of w] by (simp only: uint_nat len_of_numeral_defs) simp
qed

lemma Resize_after_check:
  assumes "CheckVerifiedAddresses v a = Inr False"
  shows "\<exists>v'. ResizeVerifiedAddresses v a = Inr v' \<and> CheckVerifiedAddresses v' a = Inr True"
proof (cases "int (length v) < sint (Offset a)")
  case True
  let ?num = "sint (Offset a) - int (length v)"
  let ?v' = "v @ replicate (nat ?num + 1) False"
  have pos: "0 < sint (Offset a)" using True by linarith
  have un: "int (unat (Offset a)) = sint (Offset a)"
    using pos by (rule sint_pos_unat)
  have len: "int (length ?v') = sint (Offset a) + 1"
    using True by simp
  have lt: "unat (Offset a) < length ?v'"
    using len un by linarith
  have r: "ResizeVerifiedAddresses v a = Inr (?v'[unat (Offset a) := True])"
    using True lt by (simp add: ResizeVerifiedAddresses_def Let_def)
  have "\<not> int (length (?v'[unat (Offset a) := True])) < sint (Offset a)"
    using len by simp
  then have "CheckVerifiedAddresses (?v'[unat (Offset a) := True]) a = Inr True"
    using lt by (simp add: CheckVerifiedAddresses_def)
  with r show ?thesis by blast
next
  case False
  then have lt: "unat (Offset a) < length v"
    using assms by (simp add: CheckVerifiedAddresses_def split: if_splits)
  have r: "ResizeVerifiedAddresses v a = Inr (v[unat (Offset a) := True])"
    using False lt by (simp add: ResizeVerifiedAddresses_def Let_def)
  have "CheckVerifiedAddresses (v[unat (Offset a) := True]) a = Inr True"
    using False lt by (simp add: CheckVerifiedAddresses_def)
  with r show ?thesis by blast
qed

text \<open>
  C4, as amended. For an output cell (offset mod 3 = 2) whose two input felts are present
  and which is not yet verified, \<open>DeduceMemoryCell\<close> returns the hash of the inputs and
  marks the address verified; a second request at the same address finds it verified
  and returns no value, without calling the hash and without changing the verified
  addresses.
\<close>

theorem Pedersen_deduction_once:
  assumes "Offset a mod 3 = 2"
    and "mem \<lparr> SegmentIndex = SegmentIndex a, Offset = Offset a - 1 \<rparr> = Some (NewMaybeRelocatableFelt fa)"
    and "mem \<lparr> SegmentIndex = SegmentIndex a, Offset = Offset a - 2 \<rparr> = Some (NewMaybeRelocatableFelt fb)"
    and "CheckVerifiedAddresses v a = Inr False"
  shows "case Pedersen_DeduceMemoryCell hash v a mem of
           (r, v') \<Rightarrow> r = Inr (Some (NewMaybeRelocatableFelt (hash fb fa))) \<and>
                      CheckVerifiedAddresses v' a = Inr True \<and>
                      Pedersen_DeduceMemoryCell hash v' a mem = (Inr None, v')"
proof -
  from Resize_after_check [OF assms(4)] obtain v' where
    r: "ResizeVerifiedAddresses v a = Inr v'" and c: "CheckVerifiedAddresses v' a = Inr True"
    by blast
  have first: "Pedersen_DeduceMemoryCell hash v a mem =
      (Inr (Some (NewMaybeRelocatableFelt (hash fb fa))), v')"
    using assms r
    by (simp add: Pedersen_DeduceMemoryCell_def PEDERSEN_CELLS_PER_INSTANCE_def
        PEDERSEN_INPUT_CELLS_PER_INSTANCE_def Memory_GetFelt_def)
  have second: "Pedersen_DeduceMemoryCell hash v' a mem = (Inr None, v')"
    using assms(1) c
    by (simp add: Pedersen_DeduceMemoryCell_def PEDERSEN_CELLS_PER_INSTANCE_def
        PEDERSEN_INPUT_CELLS_PER_INSTANCE_def)
  show ?thesis by (simp add: first second c)
qed

text \<open>
  The first request at \<open>(2, 2)\<close>, with the inputs 1 and 2 in place and nothing verified
  yet.
\<close>

theorem Pedersen_deduction_once_witness:
  "Offset \<lparr> SegmentIndex = 2, Offset = 2 :: 64 word \<rparr> mod 3 = 2 \<and>
   CheckVerifiedAddresses [] \<lparr> SegmentIndex = 2, Offset = 2 \<rparr> = Inr False \<and>
   (case Pedersen_DeduceMemoryCell example_hash [] \<lparr> SegmentIndex = 2, Offset = 2 \<rparr>
           builtin_cells of
      (r, v') \<Rightarrow> r = Inr (Some (NewMaybeRelocatableFelt (example_hash 1 2))) \<and>
                 CheckVerifiedAddresses v' \<lparr> SegmentIndex = 2, Offset = 2 \<rparr> = Inr True \<and>
                 Pedersen_DeduceMemoryCell example_hash v' \<lparr> SegmentIndex = 2, Offset = 2 \<rparr>
                   builtin_cells = (Inr None, v'))"
proof -
  let ?a = "\<lparr> SegmentIndex = 2, Offset = 2 :: 64 word \<rparr>"
  have h1: "Offset ?a mod 3 = 2" by simp
  have h2: "builtin_cells \<lparr> SegmentIndex = SegmentIndex ?a, Offset = Offset ?a - 1 \<rparr>
      = Some (NewMaybeRelocatableFelt 2)"
    by (simp add: builtin_cells_def)
  have h3: "builtin_cells \<lparr> SegmentIndex = SegmentIndex ?a, Offset = Offset ?a - 2 \<rparr>
      = Some (NewMaybeRelocatableFelt 1)"
    by (simp add: builtin_cells_def)
  have h4: "CheckVerifiedAddresses [] ?a = Inr False"
    by (simp add: CheckVerifiedAddresses_def)
  from Pedersen_deduction_once [OF h1 h2 h3 h4, of example_hash] h1 h4
  show ?thesis by blast
qed

text \<open>
  C4 as stated fails: at \<open>(2, 2)\<close> the first request returns the hash and the second
  request, made with the verified addresses the first one left, returns no value.
\<close>

theorem Pedersen_second_request_counterexample:
  "fst (Pedersen_DeduceMemoryCell example_hash [] \<lparr> SegmentIndex = 2, Offset = 2 \<rparr>
          builtin_cells)
     = Inr (Some (NewMaybeRelocatableFelt (example_hash 1 2))) \<and>
   fst (Pedersen_DeduceMemoryCell example_hash
          (snd (Pedersen_DeduceMemoryCell example_hash [] \<lparr> SegmentIndex = 2, Offset = 2 \<rparr>
                  builtin_cells))
          \<lparr> SegmentIndex = 2, Offset = 2 \<rparr> builtin_cells)
     = Inr None"
  by (simp add: Pedersen_DeduceMemoryCell_def PEDERSEN_CELLS_PER_INSTANCE_def
      PEDERSEN_INPUT_CELLS_PER_INSTANCE_def CheckVerifiedAddresses_def Memory_GetFelt_def
      ResizeVerifiedAddresses_def builtin_cells_def Let_def numeral_3_eq_3)


section \<open>Verified properties: registers\<close>

lemma AddFelt_segment: "AddFelt r f = Inr r' \<Longrightarrow> SegmentIndex r' = SegmentIndex r"
  by (auto simp: AddFelt_def NewRelocatable_def Let_def split: sum.splits)

lemma AddMaybeRelocatable_segment:
  "AddMaybeRelocatable r v = Inr r' \<Longrightarrow> SegmentIndex r' = SegmentIndex r"
  by (auto simp: AddMaybeRelocatable_def split: option.splits dest: AddFelt_segment)

lemma UpdateAp_registers:
  assumes "UpdateAp i ops vm = Inr vm'"
  shows "SegmentIndex (Ap (RunContext vm')) = SegmentIndex (Ap (RunContext vm))"
    and "Fp (RunContext vm') = Fp (RunContext vm)"
    and "Pc (RunContext vm') = Pc (RunContext vm)"
  using assms
  by (auto simp: UpdateAp_def Let_def split: ApUpdate.splits option.splits sum.splits
      dest: AddMaybeRelocatable_segment)

lemma UpdatePc_registers:
  assumes "UpdatePc i ops vm = Inr vm'"
  shows "Ap (RunContext vm') = Ap (RunContext vm)"
    and "Fp (RunContext vm') = Fp (RunContext vm)"
  using assms
  by (auto simp: UpdatePc_def Let_def split: PcUpdate.splits option.splits sum.splits if_splits)

lemma UpdateFp_registers:
  assumes "UpdateFp i ops vm = Inr vm'"
  shows "Ap (RunContext vm') = Ap (RunContext vm)"
    and "Pc (RunContext vm') = Pc (RunContext vm)"
    and "SegmentIndex (Fp (RunContext vm')) = SegmentIndex (Fp (RunContext vm)) \<or>
         (FpUpdate i = FpUpdateDst \<and>
          Dst ops = NewMaybeRelocatableRelocatable (Fp (RunContext vm')))"
  using assms
  by (auto simp: UpdateFp_def Let_def split: FpUpdate.splits option.splits sum.splits
      dest: AddFelt_segment elim: GetRelocatable.elims)

lemma UpdateRegisters_segments:
  assumes "UpdateRegisters i ops vm = (res, vm')"
  shows "SegmentIndex (Ap (RunContext vm')) = SegmentIndex (Ap (RunContext vm)) \<and>
         (SegmentIndex (Fp (RunContext vm')) = SegmentIndex (Fp (RunContext vm)) \<or>
          (FpUpdate i = FpUpdateDst \<and>
           Dst ops = NewMaybeRelocatableRelocatable (Fp (RunContext vm'))))"
proof (cases "UpdateFp i ops vm")
  case (Inl e)
  then show ?thesis using assms by (simp add: UpdateRegisters_def)
next
  case fp: (Inr vm1)
  note f = UpdateFp_registers [OF fp]
  show ?thesis
  proof (cases "UpdateAp i ops vm1")
    case (Inl e)
    then have "vm' = vm1" using assms fp by (simp add: UpdateRegisters_def)
    then show ?thesis using f by simp
  next
    case ap: (Inr vm2)
    note a = UpdateAp_registers [OF ap]
    show ?thesis
    proof (cases "UpdatePc i ops vm2")
      case (Inl e)
      then have "vm' = vm2" using assms fp ap by (simp add: UpdateRegisters_def)
      then show ?thesis using f a by simp
    next
      case pc: (Inr vm3)
      note p = UpdatePc_registers [OF pc]
      have "vm' = vm3" using assms fp ap pc by (simp add: UpdateRegisters_def)
      then show ?thesis using f a p by simp
    qed
  qed
qed

lemma UpdateRegisters_Pc:
  assumes "UpdateRegisters i ops vm = (None, vm')"
  shows "\<exists>vm2. Pc (RunContext vm2) = Pc (RunContext vm) \<and> UpdatePc i ops vm2 = Inr vm'"
proof -
  from assms obtain vm1 vm2 where fp: "UpdateFp i ops vm = Inr vm1"
    and ap: "UpdateAp i ops vm1 = Inr vm2" and pc: "UpdatePc i ops vm2 = Inr vm'"
    by (auto simp: UpdateRegisters_def split: sum.splits)
  have "Pc (RunContext vm2) = Pc (RunContext vm)"
    using UpdateFp_registers(2) [OF fp] UpdateAp_registers(3) [OF ap] by simp
  with pc show ?thesis by blast
qed

lemma vm_Insert_RunContext [simp]: "RunContext (vm_Insert a v vm) = RunContext vm"
  by (simp add: vm_Insert_def)

lemma DeduceMemoryCell_RunContext:
  "DeduceMemoryCell a vm = (r, vm') \<Longrightarrow> RunContext vm' = RunContext vm"
  by (auto simp: DeduceMemoryCell_def split: prod.splits)

lemma ComputeOp0Deductions_RunContext:
  "ComputeOp0Deductions a i dst op1 vm = (r, vm') \<Longrightarrow> RunContext vm' = RunContext vm"
  by (auto simp: ComputeOp0Deductions_def split: prod.splits sum.splits option.splits
      dest: DeduceMemoryCell_RunContext)

lemma ComputeOp1Deductions_RunContext:
  "ComputeOp1Deductions a i dst op0 res vm = (r, vm') \<Longrightarrow> RunContext vm' = RunContext vm"
  by (auto simp: ComputeOp1Deductions_def split: prod.splits sum.splits option.splits
      dest: DeduceMemoryCell_RunContext)

lemma ComputeOperands_RunContext:
  "ComputeOperands i vm = (r, vm') \<Longrightarrow> RunContext vm' = RunContext vm"
  by (auto simp: ComputeOperands_def Let_def split: prod.splits sum.splits option.splits
      dest!: ComputeOp0Deductions_RunContext ComputeOp1Deductions_RunContext)


lemma RunInstruction_segments:
  assumes "RunInstruction i vm = (res, vm')"
  shows "SegmentIndex (Ap (RunContext vm')) = SegmentIndex (Ap (RunContext vm)) \<and>
         (SegmentIndex (Fp (RunContext vm')) = SegmentIndex (Fp (RunContext vm)) \<or>
          (FpUpdate i = FpUpdateDst \<and>
           (\<exists>ops vm1. ComputeOperands i vm = (Inr ops, vm1) \<and>
              Dst ops = NewMaybeRelocatableRelocatable (Fp (RunContext vm')))))"
proof (cases "ComputeOperands i vm")
  case (Pair r v1)
  note rc = ComputeOperands_RunContext [OF Pair]
  show ?thesis
  proof (cases r)
    case (Inl e)
    then show ?thesis using assms Pair rc by (simp add: RunInstruction_def)
  next
    case (Inr ops)
    show ?thesis
    proof (cases "OpcodeAssertions v1 i ops")
      case (Some e)
      then show ?thesis using assms Pair Inr rc by (simp add: RunInstruction_def)
    next
      case None
      let ?v2 = "v1\<lparr> Trace := Trace v1 @
                   [TraceEntry (Pc (RunContext v1)) (Ap (RunContext v1)) (Fp (RunContext v1))] \<rparr>"
      obtain res3 v3 where u: "UpdateRegisters i ops ?v2 = (res3, v3)"
        by (cases "UpdateRegisters i ops ?v2")
      have rc': "RunContext vm' = RunContext v3"
        using assms Pair Inr None u by (auto simp: RunInstruction_def Let_def split: option.splits)
      from UpdateRegisters_segments [OF u] rc rc' Pair Inr show ?thesis
        by auto
    qed
  qed
qed

lemma UpdateFp_Dst_relocatable:
  assumes "UpdateFp i ops vm = r" "FpUpdate i = FpUpdateDst"
    "Dst ops = NewMaybeRelocatableRelocatable d"
  shows "r = Inr (vm\<lparr> RunContext := (RunContext vm)\<lparr> Fp := d \<rparr> \<rparr>)"
  using assms by (simp add: UpdateFp_def Let_def)

lemma UpdateRegisters_Fp:
  assumes "UpdateRegisters i ops vm = (res, vm')" "UpdateFp i ops vm = Inr vmf"
  shows "Fp (RunContext vm') = Fp (RunContext vmf)"
proof (cases "UpdateAp i ops vmf")
  case (Inl e)
  then show ?thesis using assms by (simp add: UpdateRegisters_def)
next
  case ap: (Inr vm2)
  note a = UpdateAp_registers [OF ap]
  show ?thesis
  proof (cases "UpdatePc i ops vm2")
    case (Inl e)
    then show ?thesis using assms ap a by (simp add: UpdateRegisters_def)
  next
    case pc: (Inr vm3)
    note p = UpdatePc_registers [OF pc]
    show ?thesis using assms ap pc a p by (simp add: UpdateRegisters_def)
  qed
qed

lemma RunInstruction_Fp_Dst:
  assumes "RunInstruction i vm = (None, vm')" "FpUpdate i = FpUpdateDst"
    "ComputeOperands i vm = (Inr ops, v)" "Dst ops = NewMaybeRelocatableRelocatable d"
  shows "Fp (RunContext vm') = d"
proof -
  let ?v2 = "v\<lparr> Trace := Trace v @
               [TraceEntry (Pc (RunContext v)) (Ap (RunContext v)) (Fp (RunContext v))] \<rparr>"
  obtain res3 v3 where u: "UpdateRegisters i ops ?v2 = (res3, v3)"
    by (cases "UpdateRegisters i ops ?v2")
  have rc': "RunContext vm' = RunContext v3"
    using assms(1,3) u by (auto simp: RunInstruction_def Let_def split: option.splits)
  have f: "UpdateFp i ops ?v2 = Inr (?v2\<lparr> RunContext := (RunContext ?v2)\<lparr> Fp := d \<rparr> \<rparr>)"
    using assms(2,4) by (rule UpdateFp_Dst_relocatable [OF refl])
  from UpdateRegisters_Fp [OF u f] rc' show ?thesis by simp
qed

text \<open>A step either stops before it runs an instruction, or runs the one fetched at \<open>pc\<close>.\<close>

lemma Step_fetch:
  assumes "Step vm = (res, vm')"
  shows "vm' = vm \<or>
    (\<exists>w f u i. Get (Memory (Segments vm)) (Pc (RunContext vm)) = Inr w \<and> GetFelt w = Some f \<and>
        ToU64 f = Inr u \<and> DecodeInstruction u = Inr i \<and> RunInstruction i vm = (res, vm'))"
  using assms by (auto simp: Step_def split: sum.splits option.splits)

lemma Step_segments:
  assumes "Step vm = (res, vm')"
  shows "SegmentIndex (Ap (RunContext vm')) = SegmentIndex (Ap (RunContext vm)) \<and>
         (SegmentIndex (Fp (RunContext vm')) = SegmentIndex (Fp (RunContext vm)) \<or>
          (\<exists>w f u i ops v. Get (Memory (Segments vm)) (Pc (RunContext vm)) = Inr w \<and>
              GetFelt w = Some f \<and> ToU64 f = Inr u \<and> DecodeInstruction u = Inr i \<and>
              FpUpdate i = FpUpdateDst \<and> ComputeOperands i vm = (Inr ops, v) \<and>
              Dst ops = NewMaybeRelocatableRelocatable (Fp (RunContext vm'))))"
proof -
  from Step_fetch [OF assms] show ?thesis
  proof
    assume "vm' = vm"
    then show ?thesis by simp
  next
    assume "\<exists>w f u i. Get (Memory (Segments vm)) (Pc (RunContext vm)) = Inr w \<and>
        GetFelt w = Some f \<and> ToU64 f = Inr u \<and> DecodeInstruction u = Inr i \<and>
        RunInstruction i vm = (res, vm')"
    then obtain w f u i where g: "Get (Memory (Segments vm)) (Pc (RunContext vm)) = Inr w"
      "GetFelt w = Some f" "ToU64 f = Inr u" "DecodeInstruction u = Inr i"
      and r: "RunInstruction i vm = (res, vm')" by blast
    from RunInstruction_segments [OF r] g show ?thesis by blast
  qed
qed

lemma Step_Fp_Dst:
  assumes "Step vm = (None, vm')"
    "Get (Memory (Segments vm)) (Pc (RunContext vm)) = Inr w" "GetFelt w = Some f"
    "ToU64 f = Inr u" "DecodeInstruction u = Inr i" "FpUpdate i = FpUpdateDst"
    "ComputeOperands i vm = (Inr ops, v)" "Dst ops = NewMaybeRelocatableRelocatable d"
  shows "Fp (RunContext vm') = d"
proof -
  have "RunInstruction i vm = (None, vm')"
    using assms(1-5) by (simp add: Step_def)
  then show ?thesis using assms(6-8) by (rule RunInstruction_Fp_Dst)
qed

lemma Steps_Ap_segment:
  "Steps n vm = (res, vm') \<Longrightarrow>
     SegmentIndex (Ap (RunContext vm')) = SegmentIndex (Ap (RunContext vm))"
proof (induction n arbitrary: vm)
  case 0
  then show ?case by simp
next
  case (Suc n)
  obtain r1 v1 where s: "Step vm = (r1, v1)" by (cases "Step vm")
  from Step_segments [OF s]
  have a: "SegmentIndex (Ap (RunContext v1)) = SegmentIndex (Ap (RunContext vm))" by blast
  show ?case
  proof (cases r1)
    case None
    then have "Steps n v1 = (res, vm')" using Suc.prems s by simp
    from Suc.IH [OF this] a show ?thesis by simp
  next
    case (Some e)
    then have "vm' = v1" using Suc.prems s by simp
    then show ?thesis using a by simp
  qed
qed

lemma initializeState_fields:
  assumes "initializeState e st r = (err, r')"
  shows "executionBase r' = executionBase r" "initialFp r' = initialFp r"
    "initialAp r' = initialAp r" "ProgramBase r' = ProgramBase r" "finalPc r' = finalPc r"
    "Program r' = Program r" "ProofMode r' = ProofMode r"
    "initialPc r' = (ProgramBase r)\<lparr> Offset := Offset (ProgramBase r) + e \<rparr>"
  using assms
  by (auto simp: initializeState_def Let_def split: prod.splits sum.splits)

lemma initializeMainEntrypoint_registers:
  assumes "initializeMainEntrypoint r = (res, r')"
  shows "initialAp r' = initialFp r' \<and>
         SegmentIndex (initialFp r') = SegmentIndex (executionBase r) \<and>
         executionBase r' = executionBase r"
proof (cases "ProofMode r")
  case True
  let ?st = "[NewMaybeRelocatableRelocatable (NewRelocatable (SegmentIndex (executionBase r))
                             (Offset (executionBase r) + 2)),
              NewMaybeRelocatableFelt (FeltFromUint64 0)] @
             concat (map InitialStack (BuiltinRunners (Vm r)))"
  let ?r1 = "r\<lparr> ExecutionPublicMemory := Some [0..<length ?st] \<rparr>"
  obtain e2 r2 where s: "initializeState (Start (Program r)) ?st ?r1 = (e2, r2)"
    by (cases "initializeState (Start (Program r)) ?st ?r1")
  note f = initializeState_fields [OF s]
  show ?thesis
    using assms True s f
    by (auto simp: initializeMainEntrypoint_def Let_def NewRelocatable_def)
next
  case False
  obtain return_fp s1 where a1: "AddSegment (Segments (Vm r)) = (return_fp, s1)"
    by (cases "AddSegment (Segments (Vm r))")
  let ?ra = "r\<lparr> Vm := (Vm r)\<lparr> Segments := s1 \<rparr> \<rparr>"
  obtain endp s2 where a2: "AddSegment (Segments (Vm ?ra)) = (endp, s2)"
    by (cases "AddSegment (Segments (Vm ?ra))")
  let ?st = "concat (map InitialStack (BuiltinRunners (Vm r))) @
      [NewMaybeRelocatableRelocatable return_fp, NewMaybeRelocatableRelocatable endp]"
  let ?fp = "(executionBase r)\<lparr> Offset := Offset (executionBase r) + of_nat (length ?st) \<rparr>"
  let ?r1 = "?ra\<lparr> Vm := (Vm ?ra)\<lparr> Segments := s2 \<rparr>, initialFp := ?fp,
                  initialAp := ?fp, finalPc := Some endp \<rparr>"
  obtain e2 r2 where s: "initializeState (mainOffset r) ?st ?r1 = (e2, r2)"
    by (cases "initializeState (mainOffset r) ?st ?r1")
  note f = initializeState_fields [OF s]
  have "r' = r2"
    using assms False a1 a2 s
    by (simp add: initializeMainEntrypoint_def initializeFunctionEntrypoint_def Let_def)
  then show ?thesis using f by simp
qed

lemma InitializeSegments_runners_count:
  "InitializeSegments_runners bs s = (bs', s') \<Longrightarrow>
     num_segments (Memory s') = num_segments (Memory s) + length bs"
proof (induction bs arbitrary: s bs' s')
  case Nil
  then show ?case by simp
next
  case (Cons b bs)
  then show ?case
    by (auto simp: InitializeSegments_def AddSegment_def Let_def split: prod.splits)
qed

lemma initializeSegments_bases:
  "ProgramBase (initializeSegments r) =
     \<lparr> SegmentIndex = int (num_segments (Memory (Segments (Vm r)))), Offset = 0 \<rparr>"
  "executionBase (initializeSegments r) =
     \<lparr> SegmentIndex = int (num_segments (Memory (Segments (Vm r)))) + 1, Offset = 0 \<rparr>"
  by (simp_all add: initializeSegments_def AddSegment_def Let_def split: prod.splits)

lemma initializeVM_registers:
  assumes "initializeVM order r = (err, r')"
  shows "RunContext (Vm r') = \<lparr> Pc = initialPc r, Ap = initialAp r, Fp = initialFp r \<rparr>"
    and "executionBase r' = executionBase r"
  using assms by (auto simp: initializeVM_def Let_def split: prod.splits)

lemma Initialize_registers:
  assumes "Initialize order (NewCairoRunner program layout proofMode) = ((end, None), r)"
  shows "Ap (RunContext (Vm r)) = Fp (RunContext (Vm r)) \<and>
         SegmentIndex (Ap (RunContext (Vm r))) = SegmentIndex (executionBase r) \<and>
         SegmentIndex (executionBase r) = 1"
proof -
  let ?r0 = "NewCairoRunner program layout proofMode"
  obtain e1 r1 where b: "initializeBuiltins ?r0 = (e1, r1)"
    by (cases "initializeBuiltins ?r0")
  have e1: "e1 = None"
    using assms b by (auto simp: Initialize_def split: option.splits)
  have n0: "num_segments (Memory (Segments (Vm r1))) = 0"
    using b by (auto simp: initializeBuiltins_def NewCairoRunner_def NewVirtualMachine_def
        NewMemorySegmentManager_def NewMemory_def Let_def split: prod.splits if_splits)
  obtain res2 r2 where m: "initializeMainEntrypoint (initializeSegments r1) = (res2, r2)"
    by (cases "initializeMainEntrypoint (initializeSegments r1)")
  have res2: "res2 = (end, None)" and v: "initializeVM order r2 = (None, r)"
    using assms b e1 m by (auto simp: Initialize_def split: option.splits prod.splits)
  note mr = initializeMainEntrypoint_registers [OF m]
  note vr = initializeVM_registers [OF v]
  have "SegmentIndex (executionBase (initializeSegments r1)) = 1"
    by (simp add: initializeSegments_bases n0)
  with mr vr show ?thesis by simp
qed

subsection \<open>The segments of ap and fp\<close>

lemmas init_defs = Initialize_def initializeBuiltins_def initializeSegments_def
  initializeMainEntrypoint_def initializeFunctionEntrypoint_def initializeState_def
  initializeVM_def NewCairoRunner_def NewVirtualMachine_def NewMemorySegmentManager_def
  NewMemory_def AddSegment_def ret_program_def plain_layout_def ret_program_cells_def
  NewRelocatable_def Let_def Insert_def validateAddress_def mark_program_accessed_def
  MarkAsAccessed_def uint_of_int_def

lemmas step_defs = Step_def RunInstruction_def ComputeOperands_def ComputeDstAddr_def
  ComputeOp0Addr_def ComputeOp1Addr_def SubUint_def AddUint_def ComputeRes_def
  OpcodeAssertions_def UpdateRegisters_def UpdateFp_def UpdateAp_def UpdatePc_def
  Get_def ToU64_def NewRelocatable_def Let_def

lemma decode_ret:
  "DecodeInstruction 0x208b7fff7fff7ffe =
     Inr \<lparr> Off0 = - 2, Off1 = - 1, Off2 = - 1, DstReg = FP, Op0Reg = FP, Op1Addr = Op1SrcFP,
           ResLogic = ResOp1, PcUpdate = PcUpdateJump, ApUpdate = ApUpdateRegular,
           FpUpdate = FpUpdateDst, Opcode = Ret \<rparr>"
  by (simp add: DecodeInstruction_tables spec_op1_src_def spec_pc_update_def spec_res_logic_def
      spec_opcode_def spec_ap_update_def spec_fp_update_def spec_reg_def spec_offset_def
      instr_field_def bit_iff_odd_drop_bit drop_bit_eq_div)

lemma ret_program_init:
  "fst (Initialize ret_program_cells (NewCairoRunner ret_program plain_layout False))
     = (\<lparr> SegmentIndex = 3, Offset = 0 \<rparr>, None)"
  "executionBase (snd (Initialize ret_program_cells (NewCairoRunner ret_program plain_layout False)))
     = \<lparr> SegmentIndex = 1, Offset = 0 \<rparr>"
  "RunContext (Vm (snd (Initialize ret_program_cells
      (NewCairoRunner ret_program plain_layout False))))
     = \<lparr> Pc = \<lparr> SegmentIndex = 0, Offset = 0 \<rparr>, Ap = \<lparr> SegmentIndex = 1, Offset = 2 \<rparr>,
         Fp = \<lparr> SegmentIndex = 1, Offset = 2 \<rparr> \<rparr>"
  by (simp_all add: init_defs)

lemma ret_program_step:
  "fst (Step (Vm (snd (Initialize ret_program_cells
      (NewCairoRunner ret_program plain_layout False))))) = None"
  "RunContext (snd (Step (Vm (snd (Initialize ret_program_cells
      (NewCairoRunner ret_program plain_layout False))))))
     = \<lparr> Pc = \<lparr> SegmentIndex = 3, Offset = 0 \<rparr>, Ap = \<lparr> SegmentIndex = 1, Offset = 2 \<rparr>,
         Fp = \<lparr> SegmentIndex = 2, Offset = 0 \<rparr> \<rparr>"
  by (simp_all add: init_defs step_defs decode_ret)

lemma ret_program_fetch:
  "Get (Memory (Segments ret_program_vm)) (Pc (RunContext ret_program_vm))
     = Inr (NewMaybeRelocatableFelt 0x208b7fff7fff7ffe)"
  "ToU64 0x208b7fff7fff7ffe = Inr 0x208b7fff7fff7ffe"
  "DecodeInstruction 0x208b7fff7fff7ffe = Inr ret_instruction"
  by (simp_all add: ret_program_vm_def init_defs Get_def ToU64_def decode_ret
      ret_instruction_def)

lemma ret_program_operands:
  "fst (ComputeOperands ret_instruction ret_program_vm) =
     Inr \<lparr> Dst = NewMaybeRelocatableRelocatable \<lparr> SegmentIndex = 2, Offset = 0 \<rparr>,
           Op0 = NewMaybeRelocatableRelocatable \<lparr> SegmentIndex = 3, Offset = 0 \<rparr>,
           Op1 = NewMaybeRelocatableRelocatable \<lparr> SegmentIndex = 3, Offset = 0 \<rparr>,
           Res = Some (NewMaybeRelocatableRelocatable \<lparr> SegmentIndex = 3, Offset = 0 \<rparr>) \<rparr>"
  by (simp add: ret_program_vm_def ret_instruction_def init_defs step_defs)

lemma ret_program_vm_step: "fst (Step ret_program_vm) = None"
  by (simp add: ret_program_vm_def ret_program_step(1))

text \<open>
  C3, as amended. After a successful initialization \<open>ap\<close> and \<open>fp\<close> are equal and lie
  in the execution segment, and \<open>ap\<close> stays in the execution segment whatever steps
  follow. A step, successful or not, keeps the segment index of \<open>ap\<close>; it keeps the
  segment index of \<open>fp\<close> unless the instruction it fetched at \<open>pc\<close> has
  \<open>fp_update = DST\<close> and a \<open>dst\<close> operand that is an address, which then is the new
  \<open>fp\<close>. A successful step whose fetched instruction has \<open>fp_update = DST\<close> and whose
  \<open>dst\<close> operand is the address \<open>d\<close> sets \<open>fp = d\<close>, whatever the segment of \<open>d\<close>.
\<close>

theorem registers_segment_index:
  "(Initialize order (NewCairoRunner program layout proofMode) = ((endp, None), r) \<longrightarrow>
      Ap (RunContext (Vm r)) = Fp (RunContext (Vm r)) \<and>
      SegmentIndex (Ap (RunContext (Vm r))) = SegmentIndex (executionBase r) \<and>
      (\<forall>n res vm'. Steps n (Vm r) = (res, vm') \<longrightarrow>
          SegmentIndex (Ap (RunContext vm')) = SegmentIndex (executionBase r))) \<and>
   (Step vm = (res1, vm1) \<longrightarrow>
      SegmentIndex (Ap (RunContext vm1)) = SegmentIndex (Ap (RunContext vm)) \<and>
      (SegmentIndex (Fp (RunContext vm1)) = SegmentIndex (Fp (RunContext vm)) \<or>
       (\<exists>w f u i ops v. Get (Memory (Segments vm)) (Pc (RunContext vm)) = Inr w \<and>
          GetFelt w = Some f \<and> ToU64 f = Inr u \<and> DecodeInstruction u = Inr i \<and>
          FpUpdate i = FpUpdateDst \<and> ComputeOperands i vm = (Inr ops, v) \<and>
          Dst ops = NewMaybeRelocatableRelocatable (Fp (RunContext vm1))))) \<and>
   (Step vm2 = (None, vm3) \<and>
    Get (Memory (Segments vm2)) (Pc (RunContext vm2)) = Inr w2 \<and> GetFelt w2 = Some f2 \<and>
    ToU64 f2 = Inr u2 \<and> DecodeInstruction u2 = Inr i2 \<and> FpUpdate i2 = FpUpdateDst \<and>
    ComputeOperands i2 vm2 = (Inr ops2, v2) \<and> Dst ops2 = NewMaybeRelocatableRelocatable d \<longrightarrow>
      Fp (RunContext vm3) = d)"
proof (intro conjI impI allI)
  assume i: "Initialize order (NewCairoRunner program layout proofMode) = ((endp, None), r)"
  note ir = Initialize_registers [OF i]
  show "Ap (RunContext (Vm r)) = Fp (RunContext (Vm r))" using ir by blast
  show "SegmentIndex (Ap (RunContext (Vm r))) = SegmentIndex (executionBase r)"
    using ir by blast
  fix n res vm'
  assume "Steps n (Vm r) = (res, vm')"
  then have "SegmentIndex (Ap (RunContext vm')) = SegmentIndex (Ap (RunContext (Vm r)))"
    by (rule Steps_Ap_segment)
  also have "\<dots> = SegmentIndex (executionBase r)"
    using ir by blast
  finally show "SegmentIndex (Ap (RunContext vm')) = SegmentIndex (executionBase r)" .
next
  assume s: "Step vm = (res1, vm1)"
  show "SegmentIndex (Ap (RunContext vm1)) = SegmentIndex (Ap (RunContext vm))"
    using Step_segments [OF s] by blast
  show "SegmentIndex (Fp (RunContext vm1)) = SegmentIndex (Fp (RunContext vm)) \<or>
       (\<exists>w f u i ops v. Get (Memory (Segments vm)) (Pc (RunContext vm)) = Inr w \<and>
          GetFelt w = Some f \<and> ToU64 f = Inr u \<and> DecodeInstruction u = Inr i \<and>
          FpUpdate i = FpUpdateDst \<and> ComputeOperands i vm = (Inr ops, v) \<and>
          Dst ops = NewMaybeRelocatableRelocatable (Fp (RunContext vm1)))"
    using Step_segments [OF s] by blast
next
  assume a: "Step vm2 = (None, vm3) \<and>
    Get (Memory (Segments vm2)) (Pc (RunContext vm2)) = Inr w2 \<and> GetFelt w2 = Some f2 \<and>
    ToU64 f2 = Inr u2 \<and> DecodeInstruction u2 = Inr i2 \<and> FpUpdate i2 = FpUpdateDst \<and>
    ComputeOperands i2 vm2 = (Inr ops2, v2) \<and> Dst ops2 = NewMaybeRelocatableRelocatable d"
  show "Fp (RunContext vm3) = d"
    by (rule Step_Fp_Dst [of vm2 vm3 w2 f2 u2 i2 ops2 v2 d]) (simp_all add: a)
qed

text \<open>
  The runner of \<open>ret_program\<close> initializes, and after its one step \<open>ap\<close> is still in the
  execution segment. The step fetches \<open>ret\<close>, whose \<open>dst\<close> operand is the return
  frame pointer \<open>(2, 0)\<close> read from the stack; it succeeds, keeps the segment of \<open>ap\<close>
  and sets \<open>fp = (2, 0)\<close>.
\<close>

theorem registers_segment_index_witness:
  "fst (Initialize ret_program_cells (NewCairoRunner ret_program plain_layout False))
     = (\<lparr> SegmentIndex = 3, Offset = 0 \<rparr>, None) \<and>
   SegmentIndex (Ap (RunContext (snd (Steps 1 (Vm (snd (Initialize ret_program_cells
      (NewCairoRunner ret_program plain_layout False))))))))
     = SegmentIndex (executionBase (snd (Initialize ret_program_cells
      (NewCairoRunner ret_program plain_layout False)))) \<and>
   fst (Step ret_program_vm) = None \<and>
   Get (Memory (Segments ret_program_vm)) (Pc (RunContext ret_program_vm))
     = Inr (NewMaybeRelocatableFelt 0x208b7fff7fff7ffe) \<and>
   GetFelt (NewMaybeRelocatableFelt 0x208b7fff7fff7ffe) = Some 0x208b7fff7fff7ffe \<and>
   ToU64 0x208b7fff7fff7ffe = Inr 0x208b7fff7fff7ffe \<and>
   DecodeInstruction 0x208b7fff7fff7ffe = Inr ret_instruction \<and>
   FpUpdate ret_instruction = FpUpdateDst \<and>
   map_sum id Dst (fst (ComputeOperands ret_instruction ret_program_vm))
     = Inr (NewMaybeRelocatableRelocatable \<lparr> SegmentIndex = 2, Offset = 0 \<rparr>) \<and>
   SegmentIndex (Ap (RunContext (snd (Step ret_program_vm))))
     = SegmentIndex (Ap (RunContext ret_program_vm)) \<and>
   Fp (RunContext (snd (Step ret_program_vm))) = \<lparr> SegmentIndex = 2, Offset = 0 \<rparr>"
proof -
  let ?I = "Initialize ret_program_cells (NewCairoRunner ret_program plain_layout False)"
  let ?ops = "\<lparr> Dst = NewMaybeRelocatableRelocatable \<lparr> SegmentIndex = 2, Offset = 0 \<rparr>,
           Op0 = NewMaybeRelocatableRelocatable \<lparr> SegmentIndex = 3, Offset = 0 \<rparr>,
           Op1 = NewMaybeRelocatableRelocatable \<lparr> SegmentIndex = 3, Offset = 0 \<rparr>,
           Res = Some (NewMaybeRelocatableRelocatable \<lparr> SegmentIndex = 3, Offset = 0 \<rparr>) \<rparr>"
  have i: "?I = ((\<lparr> SegmentIndex = 3, Offset = 0 \<rparr>, None), snd ?I)"
    using ret_program_init(1) by (metis prod.collapse)
  have s: "Steps 1 (Vm (snd ?I)) = (fst (Steps 1 (Vm (snd ?I))), snd (Steps 1 (Vm (snd ?I))))"
    by simp
  have st: "Step ret_program_vm = (None, snd (Step ret_program_vm))"
    using ret_program_vm_step by (metis prod.collapse)
  have co: "ComputeOperands ret_instruction ret_program_vm
              = (Inr ?ops, snd (ComputeOperands ret_instruction ret_program_vm))"
    using ret_program_operands by (metis prod.collapse)
  have g: "GetFelt (NewMaybeRelocatableFelt 0x208b7fff7fff7ffe) = Some 0x208b7fff7fff7ffe"
    by simp
  have fu: "FpUpdate ret_instruction = FpUpdateDst"
    by (simp add: ret_instruction_def)
  have d: "Dst ?ops = NewMaybeRelocatableRelocatable \<lparr> SegmentIndex = 2, Offset = 0 \<rparr>"
    by simp
  have m: "map_sum id Dst (fst (ComputeOperands ret_instruction ret_program_vm))
     = Inr (NewMaybeRelocatableRelocatable \<lparr> SegmentIndex = 2, Offset = 0 \<rparr>)"
    by (simp add: ret_program_operands)
  note t = registers_segment_index [of ret_program_cells ret_program plain_layout False
      "\<lparr> SegmentIndex = 3, Offset = 0 \<rparr>" "snd ?I" ret_program_vm None
      "snd (Step ret_program_vm)" ret_program_vm "snd (Step ret_program_vm)"
      "NewMaybeRelocatableFelt 0x208b7fff7fff7ffe" "0x208b7fff7fff7ffe" "0x208b7fff7fff7ffe"
      ret_instruction ?ops "snd (ComputeOperands ret_instruction ret_program_vm)"
      "\<lparr> SegmentIndex = 2, Offset = 0 \<rparr>"]
  have a: "SegmentIndex (Ap (RunContext (snd (Steps 1 (Vm (snd ?I))))))
     = SegmentIndex (executionBase (snd ?I))"
    using t i s by blast
  have b: "SegmentIndex (Ap (RunContext (snd (Step ret_program_vm))))
     = SegmentIndex (Ap (RunContext ret_program_vm))"
    using t st by blast
  have c: "Fp (RunContext (snd (Step ret_program_vm))) = \<lparr> SegmentIndex = 2, Offset = 0 \<rparr>"
    using t st ret_program_fetch g fu co d by blast
  show ?thesis
    using ret_program_init(1) a b c st ret_program_fetch g fu m ret_program_vm_step
    by (intro conjI)
qed

text \<open>
  C3 as stated fails. The runner of \<open>ret_program\<close> initializes with \<open>ap = fp = (1, 2)\<close>;
  the \<open>ret\<close> then executes without error and sets \<open>fp\<close> to the return address
  \<open>(2, 0)\<close> read from the stack, the base of the return segment, while \<open>ap\<close> remains in
  the execution segment 1.
\<close>

theorem fp_leaves_execution_segment_counterexample:
  "fst (Initialize ret_program_cells (NewCairoRunner ret_program plain_layout False))
     = (\<lparr> SegmentIndex = 3, Offset = 0 \<rparr>, None) \<and>
   fst (Step (Vm (snd (Initialize ret_program_cells
      (NewCairoRunner ret_program plain_layout False))))) = None \<and>
   SegmentIndex (Fp (RunContext (snd (Step (Vm (snd (Initialize ret_program_cells
      (NewCairoRunner ret_program plain_layout False)))))))) = 2 \<and>
   SegmentIndex (Ap (RunContext (snd (Step (Vm (snd (Initialize ret_program_cells
      (NewCairoRunner ret_program plain_layout False)))))))) = 1 \<and>
   SegmentIndex (executionBase (snd (Initialize ret_program_cells
      (NewCairoRunner ret_program plain_layout False)))) = 1"
  by (simp add: ret_program_init ret_program_step)

subsection \<open>The jump on a non-zero value\<close>

text \<open>
  C7. For an instruction with \<open>pc_update = JNZ\<close>: when \<open>dst\<close> is the felt zero the new
  \<open>pc\<close> is the old one with the instruction size added to its offset; otherwise, and
  so for every address in \<open>dst\<close>, it is the old \<open>pc\<close> plus \<open>op1\<close>, and the update
  fails when that addition fails. The same holds of a whole successful step, whose
  operands are those \<open>ComputeOperands\<close> returns.
\<close>

theorem UpdatePc_Jnz:
  assumes "PcUpdate instruction = PcUpdateJnz"
  shows
   "(Dst operands = NewMaybeRelocatableFelt 0 \<longrightarrow>
       UpdatePc instruction operands vm =
         Inr (vm\<lparr> RunContext := (RunContext vm)
                \<lparr> Pc := (Pc (RunContext vm))
                    \<lparr> Offset := Offset (Pc (RunContext vm)) + Size instruction \<rparr> \<rparr> \<rparr>)) \<and>
    (Dst operands \<noteq> NewMaybeRelocatableFelt 0 \<longrightarrow>
       UpdatePc instruction operands vm =
         (case AddMaybeRelocatable (Pc (RunContext vm)) (Op1 operands) of
            Inl err \<Rightarrow> Inl err
          | Inr new_pc \<Rightarrow> Inr (vm\<lparr> RunContext := (RunContext vm)\<lparr> Pc := new_pc \<rparr> \<rparr>))) \<and>
    (RunInstruction instruction vm = (None, vm') \<and>
     ComputeOperands instruction vm = (Inr operands, vm1) \<longrightarrow>
       (Dst operands = NewMaybeRelocatableFelt 0 \<longrightarrow>
          Pc (RunContext vm') =
            (Pc (RunContext vm))\<lparr> Offset := Offset (Pc (RunContext vm)) + Size instruction \<rparr>) \<and>
       (Dst operands \<noteq> NewMaybeRelocatableFelt 0 \<longrightarrow>
          AddMaybeRelocatable (Pc (RunContext vm)) (Op1 operands) = Inr (Pc (RunContext vm'))))"
proof -
  have z: "IsZero d = (d = NewMaybeRelocatableFelt 0)" for d
    by (cases d) (simp_all add: IsZero_def felt_IsZero_def)
  have zero: "UpdatePc instruction operands v =
         Inr (v\<lparr> RunContext := (RunContext v)
                \<lparr> Pc := (Pc (RunContext v))
                    \<lparr> Offset := Offset (Pc (RunContext v)) + Size instruction \<rparr> \<rparr> \<rparr>)"
    if "Dst operands = NewMaybeRelocatableFelt 0" for v
    using assms that by (simp add: UpdatePc_def Let_def z)
  have nonzero: "UpdatePc instruction operands v =
         (case AddMaybeRelocatable (Pc (RunContext v)) (Op1 operands) of
            Inl err \<Rightarrow> Inl err
          | Inr new_pc \<Rightarrow> Inr (v\<lparr> RunContext := (RunContext v)\<lparr> Pc := new_pc \<rparr> \<rparr>))"
    if "Dst operands \<noteq> NewMaybeRelocatableFelt 0" for v
    using assms that by (simp add: UpdatePc_def Let_def z)
  have step: "(Dst operands = NewMaybeRelocatableFelt 0 \<longrightarrow>
          Pc (RunContext vm') =
            (Pc (RunContext vm))\<lparr> Offset := Offset (Pc (RunContext vm)) + Size instruction \<rparr>) \<and>
       (Dst operands \<noteq> NewMaybeRelocatableFelt 0 \<longrightarrow>
          AddMaybeRelocatable (Pc (RunContext vm)) (Op1 operands) = Inr (Pc (RunContext vm')))"
    if r: "RunInstruction instruction vm = (None, vm')"
      and c: "ComputeOperands instruction vm = (Inr operands, vm1)"
  proof -
    let ?v2 = "vm1\<lparr> Trace := Trace vm1 @
        [TraceEntry (Pc (RunContext vm1)) (Ap (RunContext vm1)) (Fp (RunContext vm1))] \<rparr>"
    obtain v3 where u: "UpdateRegisters instruction operands ?v2 = (None, v3)"
      and v': "vm' = v3\<lparr> CurrentStep := CurrentStep v3 + 1 \<rparr>"
      using r c by (auto simp: RunInstruction_def Let_def split: option.splits prod.splits)
    from UpdateRegisters_Pc [OF u] obtain w where
      w: "Pc (RunContext w) = Pc (RunContext ?v2)" and p: "UpdatePc instruction operands w = Inr v3"
      by blast
    have pcw: "Pc (RunContext w) = Pc (RunContext vm)"
      using w ComputeOperands_RunContext [OF c] by simp
    show ?thesis
    proof (cases "Dst operands = NewMaybeRelocatableFelt 0")
      case True
      with zero [OF True, of w] p v' pcw show ?thesis by auto
    next
      case False
      with nonzero [OF False, of w] p v' pcw show ?thesis
        by (auto split: sum.splits)
    qed
  qed
  from zero [of vm] nonzero [of vm] step show ?thesis by blast
qed

lemma AddMaybeRelocatable_example: "AddMaybeRelocatable \<lparr> SegmentIndex = 0, Offset = 0 \<rparr> (NewMaybeRelocatableFelt 5)
      = Inr \<lparr> SegmentIndex = 0, Offset = 5 \<rparr>"
proof -
  have "felt_Add (FeltFromUint64 0) 5 = 5"
    by (simp add: FeltFromUint64_def felt_Add_def CAIRO_PRIME_def)
  then show ?thesis
    by (simp add: AddMaybeRelocatable_def AddFelt_def ToU64_def NewRelocatable_def)
qed


text \<open>
  A conditional jump without immediate at \<open>pc = (0, 0)\<close>: with \<open>dst\<close> the felt 0 the new
  \<open>pc\<close> is \<open>(0, 1)\<close>; with \<open>dst\<close> the address \<open>(1, 0)\<close> and \<open>op1\<close> the felt 5 it is
  \<open>(0, 5)\<close>.
\<close>

theorem UpdatePc_Jnz_witness:
  "PcUpdate jnz_instruction = PcUpdateJnz \<and>
   UpdatePc jnz_instruction
       \<lparr> Dst = NewMaybeRelocatableFelt 0, Op0 = NewMaybeRelocatableFelt 0,
         Op1 = NewMaybeRelocatableFelt 5, Res = None \<rparr> NewVirtualMachine =
     Inr (NewVirtualMachine\<lparr> RunContext := (RunContext NewVirtualMachine)
            \<lparr> Pc := \<lparr> SegmentIndex = 0, Offset = 1 \<rparr> \<rparr> \<rparr>) \<and>
   UpdatePc jnz_instruction
       \<lparr> Dst = NewMaybeRelocatableRelocatable \<lparr> SegmentIndex = 1, Offset = 0 \<rparr>,
         Op0 = NewMaybeRelocatableFelt 0, Op1 = NewMaybeRelocatableFelt 5, Res = None \<rparr>
       NewVirtualMachine =
     Inr (NewVirtualMachine\<lparr> RunContext := (RunContext NewVirtualMachine)
            \<lparr> Pc := \<lparr> SegmentIndex = 0, Offset = 5 \<rparr> \<rparr> \<rparr>)"
proof -
  have j: "PcUpdate jnz_instruction = PcUpdateJnz"
    by (simp add: jnz_instruction_def)
  let ?z = "\<lparr> Dst = NewMaybeRelocatableFelt 0, Op0 = NewMaybeRelocatableFelt 0,
         Op1 = NewMaybeRelocatableFelt 5, Res = None \<rparr>"
  let ?n = "\<lparr> Dst = NewMaybeRelocatableRelocatable \<lparr> SegmentIndex = 1, Offset = 0 \<rparr>,
         Op0 = NewMaybeRelocatableFelt 0, Op1 = NewMaybeRelocatableFelt 5, Res = None \<rparr>"
  have pc0: "Pc (RunContext NewVirtualMachine) = \<lparr> SegmentIndex = 0, Offset = 0 \<rparr>"
    by (simp add: NewVirtualMachine_def NewRelocatable_def)
  have sz: "Size jnz_instruction = 1"
    by (simp add: Size_def jnz_instruction_def)
  have dz: "Dst ?z = NewMaybeRelocatableFelt 0" by simp
  have dn: "Dst ?n \<noteq> NewMaybeRelocatableFelt 0" by simp
  have o1: "Op1 ?n = NewMaybeRelocatableFelt 5" by simp
  from UpdatePc_Jnz [OF j, of ?z NewVirtualMachine] dz
  have a: "UpdatePc jnz_instruction ?z NewVirtualMachine =
     Inr (NewVirtualMachine\<lparr> RunContext := (RunContext NewVirtualMachine)
            \<lparr> Pc := (Pc (RunContext NewVirtualMachine))
                \<lparr> Offset := Offset (Pc (RunContext NewVirtualMachine)) + Size jnz_instruction \<rparr> \<rparr> \<rparr>)"
    by blast
  from UpdatePc_Jnz [OF j, of ?n NewVirtualMachine] dn
  have b: "UpdatePc jnz_instruction ?n NewVirtualMachine =
         (case AddMaybeRelocatable (Pc (RunContext NewVirtualMachine)) (Op1 ?n) of
            Inl err \<Rightarrow> Inl err
          | Inr new_pc \<Rightarrow> Inr (NewVirtualMachine\<lparr> RunContext := (RunContext NewVirtualMachine)\<lparr> Pc := new_pc \<rparr> \<rparr>))"
    by blast
  have a': "UpdatePc jnz_instruction ?z NewVirtualMachine =
     Inr (NewVirtualMachine\<lparr> RunContext := (RunContext NewVirtualMachine)
            \<lparr> Pc := \<lparr> SegmentIndex = 0, Offset = 1 \<rparr> \<rparr> \<rparr>)"
    by (simp only: a pc0 sz) simp
  have b': "UpdatePc jnz_instruction ?n NewVirtualMachine =
     Inr (NewVirtualMachine\<lparr> RunContext := (RunContext NewVirtualMachine)
            \<lparr> Pc := \<lparr> SegmentIndex = 0, Offset = 5 \<rparr> \<rparr> \<rparr>)"
    by (simp only: b pc0 o1 AddMaybeRelocatable_example) simp
  from j a' b' show ?thesis by blast
qed


section \<open>Verified properties: initialization of the main entrypoint\<close>

lemma validateAddress_unchanged:
  "validateAddress a m = (e, m') \<Longrightarrow> data m' = data m \<and> num_segments m' = num_segments m"
  by (auto simp: validateAddress_def split: if_splits option.splits sum.splits)

lemma Insert_num_segments:
  "Insert a v m = (e, m') \<Longrightarrow> num_segments m' = num_segments m"
  by (auto simp: Insert_def split: if_splits dest: validateAddress_unchanged)

lemma Insert_preserves:
  assumes "Insert a v m = (e, m')" and "data m b = Some w"
  shows "data m' b = Some w"
proof (cases "SegmentIndex a \<ge> int (num_segments m) \<or>
    (case data m a of Some prev_elem \<Rightarrow> prev_elem \<noteq> v | None \<Rightarrow> False)")
  case True
  then have "m' = m" using assms(1) by (auto simp: Insert_def split: if_splits)
  then show ?thesis using assms(2) by simp
next
  case False
  then have v: "validateAddress a (m\<lparr> data := (data m)(a \<mapsto> v) \<rparr>) = (e, m')"
    using assms(1) by (auto simp: Insert_def split: if_splits)
  have "((data m)(a \<mapsto> v)) b = Some w"
    using False assms(2) by (auto split: option.splits)
  with validateAddress_unchanged [OF v] show ?thesis by simp
qed

lemma Insert_success:
  assumes "Insert a v m = (None, m')"
  shows "data m' a = Some v"
proof -
  have v: "validateAddress a (m\<lparr> data := (data m)(a \<mapsto> v) \<rparr>) = (None, m')"
    using assms by (auto simp: Insert_def split: if_splits)
  from validateAddress_unchanged [OF v] show ?thesis by simp
qed

lemma LoadData_preserves:
  "LoadData p xs s = (r, s') \<Longrightarrow> data (Memory s) b = Some w \<Longrightarrow> data (Memory s') b = Some w"
proof (induction xs arbitrary: p s)
  case Nil
  then show ?case by simp
next
  case (Cons x xs)
  obtain e m1 where i: "Insert p x (Memory s) = (e, m1)" by (cases "Insert p x (Memory s)")
  note pr = Insert_preserves [OF i Cons.prems(2)]
  show ?case
  proof (cases e)
    case (Some err)
    then show ?thesis using Cons.prems(1) i pr by auto
  next
    case None
    then have "LoadData (p\<lparr> Offset := Offset p + 1 \<rparr>) xs (s\<lparr> Memory := m1 \<rparr>) = (r, s')"
      using Cons.prems(1) i by simp
    from Cons.IH [OF this] pr show ?thesis by simp
  qed
qed

lemma LoadData_num_segments:
  "LoadData p xs s = (r, s') \<Longrightarrow> num_segments (Memory s') = num_segments (Memory s)"
proof (induction xs arbitrary: p s)
  case Nil
  then show ?case by simp
next
  case (Cons x xs)
  obtain e m1 where i: "Insert p x (Memory s) = (e, m1)" by (cases "Insert p x (Memory s)")
  note n = Insert_num_segments [OF i]
  show ?case
  proof (cases e)
    case (Some err)
    then show ?thesis using Cons.prems i n by auto
  next
    case None
    then have "LoadData (p\<lparr> Offset := Offset p + 1 \<rparr>) xs (s\<lparr> Memory := m1 \<rparr>) = (r, s')"
      using Cons.prems i by simp
    from Cons.IH [OF this] n show ?thesis by simp
  qed
qed

lemma LoadData_cells:
  "LoadData p xs s = (Inr q, s') \<Longrightarrow> i < length xs \<Longrightarrow>
     data (Memory s') (p\<lparr> Offset := Offset p + of_nat i \<rparr>) = Some (xs ! i)"
proof (induction xs arbitrary: p s i)
  case Nil
  then show ?case by simp
next
  case (Cons x xs)
  obtain e m1 where ins: "Insert p x (Memory s) = (e, m1)" by (cases "Insert p x (Memory s)")
  have e: "e = None" using Cons.prems(1) ins by (cases e) auto
  have rest: "LoadData (p\<lparr> Offset := Offset p + 1 \<rparr>) xs (s\<lparr> Memory := m1 \<rparr>) = (Inr q, s')"
    using Cons.prems(1) ins e by simp
  show ?case
  proof (cases i)
    case 0
    have "data (Memory (s\<lparr> Memory := m1 \<rparr>)) p = Some x"
      using Insert_success ins e by simp
    from LoadData_preserves [OF rest this] 0 show ?thesis by simp
  next
    case (Suc j)
    then have "j < length xs" using Cons.prems(2) by simp
    from Cons.IH [OF rest this] Suc show ?thesis
      by (simp add: ac_simps)
  qed
qed

lemma fold_MarkAsAccessed_unchanged:
  "data (fold (\<lambda>i. MarkAsAccessed (g i)) xs m) = data m \<and>
   num_segments (fold (\<lambda>i. MarkAsAccessed (g i)) xs m) = num_segments m"
  by (induction xs arbitrary: m) (simp_all add: MarkAsAccessed_def)

lemma mark_program_accessed_unchanged:
  "data (mark_program_accessed b n m) = data m"
  "num_segments (mark_program_accessed b n m) = num_segments m"
  unfolding mark_program_accessed_def
  using fold_MarkAsAccessed_unchanged
    [of "\<lambda>i. NewRelocatable (SegmentIndex b) (Offset b + of_nat i)" "[0..<n]" m]
  by simp_all

lemma initializeState_memory:
  assumes "initializeState e st r = (err, r')"
  shows "num_segments (Memory (Segments (Vm r'))) = num_segments (Memory (Segments (Vm r)))"
    and "err = None \<Longrightarrow> i < length (Data (Program r)) \<Longrightarrow>
           data (Memory (Segments (Vm r'))) ((ProgramBase r)\<lparr> Offset := Offset (ProgramBase r) + of_nat i \<rparr>)
             = Some (Data (Program r) ! i)"
    and "err = None \<Longrightarrow> j < length st \<Longrightarrow>
           data (Memory (Segments (Vm r'))) ((executionBase r)\<lparr> Offset := Offset (executionBase r) + of_nat j \<rparr>)
             = Some (st ! j)"
proof -
  obtain r1 s1 where l1: "LoadData (ProgramBase r) (Data (Program r)) (Segments (Vm r)) = (r1, s1)"
    by (cases "LoadData (ProgramBase r) (Data (Program r)) (Segments (Vm r))")
  obtain r2 s2 where l2: "LoadData (executionBase r) st s1 = (r2, s2)"
    by (cases "LoadData (executionBase r) st s1")
  note n1 = LoadData_num_segments [OF l1] and n2 = LoadData_num_segments [OF l2]
  show "num_segments (Memory (Segments (Vm r'))) = num_segments (Memory (Segments (Vm r)))"
    using assms l1 l2 n1 n2
    by (auto simp: initializeState_def Let_def mark_program_accessed_unchanged
        split: sum.splits)
  {
    assume ok: "err = None"
    then obtain p1 p2 where r1: "r1 = Inr p1" and r2: "r2 = Inr p2"
      using assms l1 l2 by (auto simp: initializeState_def Let_def split: sum.splits)
    have mem: "data (Memory (Segments (Vm r'))) = data (Memory s2)"
      using assms l1 l2 r1 r2
      by (auto simp: initializeState_def Let_def mark_program_accessed_unchanged)
    {
      assume "i < length (Data (Program r))"
      from LoadData_cells [OF l1 [unfolded r1] this]
      have "data (Memory s1) ((ProgramBase r)\<lparr> Offset := Offset (ProgramBase r) + of_nat i \<rparr>)
             = Some (Data (Program r) ! i)" .
      from LoadData_preserves [OF l2 this] mem
      show "data (Memory (Segments (Vm r'))) ((ProgramBase r)\<lparr> Offset := Offset (ProgramBase r) + of_nat i \<rparr>)
             = Some (Data (Program r) ! i)" by simp
    }
    {
      assume "j < length st"
      from LoadData_cells [OF l2 [unfolded r2] this] mem
      show "data (Memory (Segments (Vm r'))) ((executionBase r)\<lparr> Offset := Offset (executionBase r) + of_nat j \<rparr>)
             = Some (st ! j)" by simp
    }
  }
qed


text \<open>
  C6. In normal mode, with \<open>n\<close> segments allocated before: \<open>return_fp\<close> is the base
  of the new segment \<open>n\<close> and \<open>end\<close> the base of the new segment \<open>n + 1\<close>; the
  stack is the initial stacks of the builtin runners, in order, followed by \<open>return_fp\<close>
  and then \<open>end\<close>; \<open>fp = ap = execution_base + stack length\<close>, \<open>final_pc = end\<close>
  and \<open>pc = program_base + main_offset\<close>; and when no insertion fails, the program
  data lies at the program base and the stack at the execution base.
\<close>

theorem initializeMainEntrypoint_normal_mode:
  assumes "\<not> ProofMode r"
  shows "case initializeMainEntrypoint r of
    ((endp, err), r') \<Rightarrow>
      let n = num_segments (Memory (Segments (Vm r)));
          return_fp = \<lparr> SegmentIndex = int n, Offset = 0 \<rparr>;
          stack = concat (map InitialStack (BuiltinRunners (Vm r))) @
                    [NewMaybeRelocatableRelocatable return_fp, NewMaybeRelocatableRelocatable endp]
      in endp = \<lparr> SegmentIndex = int n + 1, Offset = 0 \<rparr> \<and>
         num_segments (Memory (Segments (Vm r'))) = n + 2 \<and>
         initialFp r' = (executionBase r)
                          \<lparr> Offset := Offset (executionBase r) + of_nat (length stack) \<rparr> \<and>
         initialAp r' = initialFp r' \<and>
         finalPc r' = Some endp \<and>
         initialPc r' = (ProgramBase r)\<lparr> Offset := Offset (ProgramBase r) + mainOffset r \<rparr> \<and>
         (err = None \<longrightarrow>
            (\<forall>i < length (Data (Program r)).
               data (Memory (Segments (Vm r')))
                 ((ProgramBase r)\<lparr> Offset := Offset (ProgramBase r) + of_nat i \<rparr>)
               = Some (Data (Program r) ! i)) \<and>
            (\<forall>j < length stack.
               data (Memory (Segments (Vm r')))
                 ((executionBase r)\<lparr> Offset := Offset (executionBase r) + of_nat j \<rparr>)
               = Some (stack ! j)))"
proof -
  let ?n = "num_segments (Memory (Segments (Vm r)))"
  let ?return_fp = "\<lparr> SegmentIndex = int ?n, Offset = 0 \<rparr>"
  let ?endp = "\<lparr> SegmentIndex = int ?n + 1, Offset = 0 \<rparr>"
  let ?stack = "concat (map InitialStack (BuiltinRunners (Vm r))) @
      [NewMaybeRelocatableRelocatable ?return_fp, NewMaybeRelocatableRelocatable ?endp]"
  let ?s1 = "(Segments (Vm r))\<lparr> Memory := (Memory (Segments (Vm r)))\<lparr> num_segments := ?n + 1 \<rparr> \<rparr>"
  let ?s2 = "?s1\<lparr> Memory := (Memory ?s1)\<lparr> num_segments := ?n + 2 \<rparr> \<rparr>"
  let ?fp = "(executionBase r)\<lparr> Offset := Offset (executionBase r) + of_nat (length ?stack) \<rparr>"
  let ?r1 = "r\<lparr> Vm := (Vm r)\<lparr> Segments := ?s2 \<rparr>, initialFp := ?fp, initialAp := ?fp,
                 finalPc := Some ?endp \<rparr>"
  obtain err r' where st: "initializeState (mainOffset r) ?stack ?r1 = (err, r')"
    by (cases "initializeState (mainOffset r) ?stack ?r1")
  have main: "initializeMainEntrypoint r = ((?endp, err), r')"
    using assms st
    by (simp add: initializeMainEntrypoint_def initializeFunctionEntrypoint_def AddSegment_def
        Let_def add.commute)
  note f = initializeState_fields [OF st]
  note m = initializeState_memory [OF st]
  have n2: "num_segments (Memory (Segments (Vm r'))) = ?n + 2"
    using m(1) by simp
  have "err = None \<longrightarrow>
            (\<forall>i < length (Data (Program r)).
               data (Memory (Segments (Vm r')))
                 ((ProgramBase r)\<lparr> Offset := Offset (ProgramBase r) + of_nat i \<rparr>)
               = Some (Data (Program r) ! i)) \<and>
            (\<forall>j < length ?stack.
               data (Memory (Segments (Vm r')))
                 ((executionBase r)\<lparr> Offset := Offset (executionBase r) + of_nat j \<rparr>)
               = Some (?stack ! j))"
    using m(2) m(3) by simp
  with n2 f show ?thesis
    by (simp add: main Let_def)
qed


lemma range_check_runner_eval:
  "ProofMode range_check_runner = False"
  "BuiltinRunners (Vm range_check_runner)
     = [RangeCheckBuiltinRunner \<lparr> SegmentIndex = 2, Offset = 0 \<rparr> True]"
  "num_segments (Memory (Segments (Vm range_check_runner))) = 3"
  "ProgramBase range_check_runner = \<lparr> SegmentIndex = 0, Offset = 0 \<rparr>"
  "executionBase range_check_runner = \<lparr> SegmentIndex = 1, Offset = 0 \<rparr>"
  "mainOffset range_check_runner = 0"
  "Data (Program range_check_runner) = [NewMaybeRelocatableFelt 0x208b7fff7fff7ffe]"
  by (simp_all add: range_check_runner_def range_check_program_def range_check_layout_def
      initializeSegments_def initializeBuiltins_def NewCairoRunner_def NewVirtualMachine_def
      NewMemorySegmentManager_def NewMemory_def AddSegment_def InitializeSegments_def
      NewRelocatable_def Let_def)

lemma range_check_runner_main:
  "fst (initializeMainEntrypoint range_check_runner) = (\<lparr> SegmentIndex = 4, Offset = 0 \<rparr>, None)"
  by (simp add: range_check_runner_def range_check_program_def range_check_layout_def
      initializeSegments_def initializeBuiltins_def NewCairoRunner_def NewVirtualMachine_def
      NewMemorySegmentManager_def NewMemory_def AddSegment_def InitializeSegments_def
      NewRelocatable_def Let_def initializeMainEntrypoint_def initializeFunctionEntrypoint_def
      initializeState_def InitialStack_def Insert_def validateAddress_def)

text \<open>
  For \<open>range_check_runner\<close> the stack is the range-check base \<open>(2, 0)\<close>, the return
  frame pointer \<open>(3, 0)\<close> and the end \<open>(4, 0)\<close>, and \<open>fp = ap = (1, 3)\<close>.
\<close>

theorem initializeMainEntrypoint_normal_mode_witness:
  "\<not> ProofMode range_check_runner \<and>
   fst (initializeMainEntrypoint range_check_runner) = (\<lparr> SegmentIndex = 4, Offset = 0 \<rparr>, None) \<and>
   initialFp (snd (initializeMainEntrypoint range_check_runner)) = \<lparr> SegmentIndex = 1, Offset = 3 \<rparr> \<and>
   initialAp (snd (initializeMainEntrypoint range_check_runner)) = \<lparr> SegmentIndex = 1, Offset = 3 \<rparr> \<and>
   finalPc (snd (initializeMainEntrypoint range_check_runner)) = Some \<lparr> SegmentIndex = 4, Offset = 0 \<rparr> \<and>
   initialPc (snd (initializeMainEntrypoint range_check_runner)) = \<lparr> SegmentIndex = 0, Offset = 0 \<rparr> \<and>
   data (Memory (Segments (Vm (snd (initializeMainEntrypoint range_check_runner)))))
     \<lparr> SegmentIndex = 0, Offset = 0 \<rparr> = Some (NewMaybeRelocatableFelt 0x208b7fff7fff7ffe) \<and>
   data (Memory (Segments (Vm (snd (initializeMainEntrypoint range_check_runner)))))
     \<lparr> SegmentIndex = 1, Offset = 0 \<rparr>
     = Some (NewMaybeRelocatableRelocatable \<lparr> SegmentIndex = 2, Offset = 0 \<rparr>) \<and>
   data (Memory (Segments (Vm (snd (initializeMainEntrypoint range_check_runner)))))
     \<lparr> SegmentIndex = 1, Offset = 1 \<rparr>
     = Some (NewMaybeRelocatableRelocatable \<lparr> SegmentIndex = 3, Offset = 0 \<rparr>) \<and>
   data (Memory (Segments (Vm (snd (initializeMainEntrypoint range_check_runner)))))
     \<lparr> SegmentIndex = 1, Offset = 2 \<rparr>
     = Some (NewMaybeRelocatableRelocatable \<lparr> SegmentIndex = 4, Offset = 0 \<rparr>)"
proof -
  let ?I = "initializeMainEntrypoint range_check_runner"
  have h: "\<not> ProofMode range_check_runner"
    by (simp add: range_check_runner_eval)
  have c: "?I = ((\<lparr> SegmentIndex = 4, Offset = 0 \<rparr>, None), snd ?I)"
    using range_check_runner_main by (metis prod.collapse)
  note t = initializeMainEntrypoint_normal_mode [OF h]
  have t': "let stack = [NewMaybeRelocatableRelocatable \<lparr> SegmentIndex = 2, Offset = 0 \<rparr>,
                         NewMaybeRelocatableRelocatable \<lparr> SegmentIndex = 3, Offset = 0 \<rparr>,
                         NewMaybeRelocatableRelocatable \<lparr> SegmentIndex = 4, Offset = 0 \<rparr>]
      in initialFp (snd ?I) = \<lparr> SegmentIndex = 1, Offset = of_nat (length stack) \<rparr> \<and>
         initialAp (snd ?I) = initialFp (snd ?I) \<and>
         finalPc (snd ?I) = Some \<lparr> SegmentIndex = 4, Offset = 0 \<rparr> \<and>
         initialPc (snd ?I) = \<lparr> SegmentIndex = 0, Offset = 0 \<rparr> \<and>
         (\<forall>i < 1. data (Memory (Segments (Vm (snd ?I)))) \<lparr> SegmentIndex = 0, Offset = of_nat i \<rparr>
               = Some ([NewMaybeRelocatableFelt 0x208b7fff7fff7ffe] ! i)) \<and>
         (\<forall>j < length stack.
               data (Memory (Segments (Vm (snd ?I)))) \<lparr> SegmentIndex = 1, Offset = of_nat j \<rparr>
               = Some (stack ! j))"
    using t by (subst (asm) c) (simp add: range_check_runner_eval InitialStack_def Let_def)
  have d0: "data (Memory (Segments (Vm (snd ?I)))) \<lparr> SegmentIndex = 0, Offset = 0 \<rparr>
      = Some (NewMaybeRelocatableFelt 0x208b7fff7fff7ffe)"
    using t' by (auto simp: Let_def dest: spec [of _ 0])
  have s0: "data (Memory (Segments (Vm (snd ?I)))) \<lparr> SegmentIndex = 1, Offset = 0 \<rparr>
      = Some (NewMaybeRelocatableRelocatable \<lparr> SegmentIndex = 2, Offset = 0 \<rparr>)"
    using t' by (auto simp: Let_def dest: spec [of _ 0])
  have s1: "data (Memory (Segments (Vm (snd ?I)))) \<lparr> SegmentIndex = 1, Offset = 1 \<rparr>
      = Some (NewMaybeRelocatableRelocatable \<lparr> SegmentIndex = 3, Offset = 0 \<rparr>)"
    using t' by (auto simp: Let_def dest: spec [of _ 1])
  have s2: "data (Memory (Segments (Vm (snd ?I)))) \<lparr> SegmentIndex = 1, Offset = 2 \<rparr>
      = Some (NewMaybeRelocatableRelocatable \<lparr> SegmentIndex = 4, Offset = 0 \<rparr>)"
    using t' by (auto simp: Let_def dest: spec [of _ 2])
  from t' have regs: "initialFp (snd ?I) = \<lparr> SegmentIndex = 1, Offset = 3 \<rparr>"
    "initialAp (snd ?I) = \<lparr> SegmentIndex = 1, Offset = 3 \<rparr>"
    "finalPc (snd ?I) = Some \<lparr> SegmentIndex = 4, Offset = 0 \<rparr>"
    "initialPc (snd ?I) = \<lparr> SegmentIndex = 0, Offset = 0 \<rparr>"
    by (simp_all add: Let_def)
  from h range_check_runner_main regs d0 s0 s1 s2 show ?thesis by blast
qed


section \<open>Verified properties: the end of a run\<close>

subsection \<open>The next power of two\<close>

lemma NextPowOf2_ge: "n \<le> NextPowOf2 n"
proof -
  have "n - 1 < 2 ^ Bits (n - 1)" using Bits_le_iff [of "n - 1" "Bits (n - 1)"] by simp
  then show ?thesis by (simp add: NextPowOf2_def)
qed

lemma NextPowOf2_least: "n \<le> 2 ^ k \<Longrightarrow> NextPowOf2 n \<le> 2 ^ k"
proof -
  assume "n \<le> 2 ^ k"
  then have "n - 1 < 2 ^ k" by (cases n) simp_all
  then have "Bits (n - 1) \<le> k" by (simp add: Bits_le_iff)
  then show ?thesis by (simp add: NextPowOf2_def)
qed

lemma NextPowOf2_pow: "NextPowOf2 (2 ^ k) = 2 ^ k"
  using NextPowOf2_ge [of "2 ^ k"] NextPowOf2_least [of "2 ^ k" k] by simp

lemma NextPowOf2_Suc_pow: "NextPowOf2 (2 ^ k + 1) = 2 ^ (k + 1)"
proof -
  have "Bits (2 ^ k) = Suc k"
    using Bits_le_iff [of "2 ^ k" "Suc k"] Bits_gt_iff [of k "2 ^ k"] by simp
  then show ?thesis by (simp add: NextPowOf2_def)
qed

subsection \<open>The loop and the rounds of padding\<close>

lemma EndRun_loop_recovered:
  "recovered (CheckUsedCells env runner v) \<Longrightarrow>
     EndRun_loop env runner v = loop_from env runner (next_round env runner (None, v))"
  by (subst EndRun_loop.simps)
     (simp add: recovered_def loop_from_def next_round_def Let_def split: prod.splits option.splits)

lemma EndRun_loop_stop:
  "\<not> recovered (CheckUsedCells env runner v) \<Longrightarrow>
     EndRun_loop env runner v = Some (CheckUsedCells env runner v, v)"
  by (subst EndRun_loop.simps) (auto simp add: recovered_def Let_def)

lemma recovered_None [simp]: "\<not> recovered None"
  by (simp add: recovered_def)

lemma rounds_complete:
  "(\<forall>k<n. round_continues env runner ((next_round env runner ^^ k) r)) \<Longrightarrow>
   round_stops env runner ((next_round env runner ^^ n) r) x \<Longrightarrow>
   loop_from env runner r = Some x"
proof (induction n arbitrary: r)
  case 0
  then have s: "round_stops env runner r x" by simp
  show ?case
  proof (cases r)
    case (Pair e v)
    show ?thesis
    proof (cases e)
      case None
      with s Pair have "x = (CheckUsedCells env runner v, v)"
        and "\<not> recovered (CheckUsedCells env runner v)"
        by (auto simp: round_stops_def prod_eq_iff)
      then show ?thesis using Pair None by (simp add: loop_from_def EndRun_loop_stop)
    next
      case (Some err)
      with s Pair have "x = r" by (auto simp: round_stops_def)
      then show ?thesis using Pair Some by (simp add: loop_from_def)
    qed
  qed
next
  case (Suc n)
  from Suc.prems(1) have c: "round_continues env runner r" by force
  then obtain v where r: "r = (None, v)" and rec: "recovered (CheckUsedCells env runner v)"
    by (cases r) (auto simp: round_continues_def)
  have "\<forall>k<n. round_continues env runner ((next_round env runner ^^ k) (next_round env runner r))"
  proof (intro allI impI)
    fix k assume "k < n"
    then have "round_continues env runner ((next_round env runner ^^ Suc k) r)"
      using Suc.prems(1) by (meson Suc_less_eq)
    then show "round_continues env runner ((next_round env runner ^^ k) (next_round env runner r))"
      by (simp add: funpow_swap1)
  qed
  moreover have "round_stops env runner ((next_round env runner ^^ n) (next_round env runner r)) x"
    using Suc.prems(2) by (simp add: funpow_swap1)
  ultimately have "loop_from env runner (next_round env runner r) = Some x"
    by (rule Suc.IH)
  then show ?case using r rec by (simp add: loop_from_def [of env runner "(None, v)"] EndRun_loop_recovered)
qed

lemma rounds_step:
  assumes "round_continues env runner r"
    and "\<exists>n. (\<forall>k<n. round_continues env runner ((next_round env runner ^^ k) (next_round env runner r))) \<and>
           round_stops env runner ((next_round env runner ^^ n) (next_round env runner r)) x"
  shows "\<exists>n. (\<forall>k<n. round_continues env runner ((next_round env runner ^^ k) r)) \<and>
           round_stops env runner ((next_round env runner ^^ n) r) x"
proof -
  from assms(2) obtain n where
    a: "\<forall>k<n. round_continues env runner ((next_round env runner ^^ k) (next_round env runner r))"
    and b: "round_stops env runner ((next_round env runner ^^ n) (next_round env runner r)) x"
    by blast
  have "\<forall>k<Suc n. round_continues env runner ((next_round env runner ^^ k) r)"
  proof (intro allI impI)
    fix k assume k: "k < Suc n"
    show "round_continues env runner ((next_round env runner ^^ k) r)"
    proof (cases k)
      case 0
      then show ?thesis using assms(1) by simp
    next
      case (Suc j)
      then have "j < n" using k by simp
      with a have "round_continues env runner ((next_round env runner ^^ j) (next_round env runner r))"
        by blast
      then show ?thesis using Suc by (simp add: funpow_swap1)
    qed
  qed
  moreover have "round_stops env runner ((next_round env runner ^^ Suc n) r) x"
    using b by (simp add: funpow_swap1)
  ultimately show ?thesis by blast
qed

lemma rounds_stop_now:
  assumes "round_stops env runner r x"
  shows "\<exists>n. (\<forall>k<n. round_continues env runner ((next_round env runner ^^ k) r)) \<and>
           round_stops env runner ((next_round env runner ^^ n) r) x"
proof -
  have "(\<forall>k<0. round_continues env runner ((next_round env runner ^^ k) r)) \<and>
           round_stops env runner ((next_round env runner ^^ 0) r) x"
    using assms by simp
  then show ?thesis by blast
qed

lemma EndRun_loop_sound:
  assumes "EndRun_loop env runner v = Some x"
  shows "\<exists>n. (\<forall>k<n. round_continues env runner ((next_round env runner ^^ k) (None, v))) \<and>
           round_stops env runner ((next_round env runner ^^ n) (None, v)) x"
  using assms
proof (induction rule: EndRun_loop.raw_induct [rotated 1, consumes 1, case_names step])
  case (step loop env runner v x)
  show ?case
  proof (cases "recovered (CheckUsedCells env runner v)")
    case False
    then have "x = (CheckUsedCells env runner v, v)"
      using step(2) by (auto simp: recovered_def Let_def split: if_splits)
    then have "round_stops env runner (None, v) x"
      using False by (simp add: round_stops_def)
    then show ?thesis by (rule rounds_stop_now)
  next
    case True
    then have c: "round_continues env runner (None, v)" by (simp add: round_continues_def)
    from True step(2) have body: "(case RunForSteps env runner 1 v of
           (Some err1, vm1) \<Rightarrow> Some (Some err1, vm1)
         | (None, vm1) \<Rightarrow>
             (case RunUntilNextPowerOfTwo env runner vm1 of
                (Some err2, vm2) \<Rightarrow> Some (Some err2, vm2)
              | (None, vm2) \<Rightarrow> loop env runner vm2)) = Some x"
      by (simp add: recovered_def Let_def)
    obtain e1 v1 where one: "RunForSteps env runner 1 v = (e1, v1)"
      by (cases "RunForSteps env runner 1 v")
    obtain e2 v2 where pad: "RunUntilNextPowerOfTwo env runner v1 = (e2, v2)"
      by (cases "RunUntilNextPowerOfTwo env runner v1")
    show ?thesis
    proof (cases e1)
      case (Some err1)
      then have nr: "next_round env runner (None, v) = (Some err1, v1)"
        using one by (simp add: next_round_def)
      have "x = (Some err1, v1)" using body one Some by simp
      then have "round_stops env runner (next_round env runner (None, v)) x"
        using nr by (simp add: round_stops_def)
      then have "\<exists>n. (\<forall>k<n. round_continues env runner
                    ((next_round env runner ^^ k) (next_round env runner (None, v)))) \<and>
           round_stops env runner ((next_round env runner ^^ n) (next_round env runner (None, v))) x"
        by (rule rounds_stop_now)
      with c show ?thesis by (rule rounds_step)
    next
      case None
      then have nr: "next_round env runner (None, v) = (e2, v2)"
        using one pad by (simp add: next_round_def)
      show ?thesis
      proof (cases e2)
        case (Some err2)
        have "x = (Some err2, v2)" using body one pad None Some by simp
        then have "round_stops env runner (next_round env runner (None, v)) x"
          using nr Some by (simp add: round_stops_def)
        then have "\<exists>n. (\<forall>k<n. round_continues env runner
                    ((next_round env runner ^^ k) (next_round env runner (None, v)))) \<and>
           round_stops env runner ((next_round env runner ^^ n) (next_round env runner (None, v))) x"
          by (rule rounds_stop_now)
        with c show ?thesis by (rule rounds_step)
      next
        case n2: None
        have "loop env runner v2 = Some x" using body one pad None n2 by simp
        from step(1) [OF this] nr n2
        have "\<exists>n. (\<forall>k<n. round_continues env runner
                    ((next_round env runner ^^ k) (next_round env runner (None, v)))) \<and>
           round_stops env runner ((next_round env runner ^^ n) (next_round env runner (None, v))) x"
          by simp
        with c show ?thesis by (rule rounds_step)
      qed
    qed
  qed
qed

lemma loop_from_rounds:
  "loop_from env runner r = Some x \<longleftrightarrow>
     (\<exists>n. (\<forall>k<n. round_continues env runner ((next_round env runner ^^ k) r)) \<and>
           round_stops env runner ((next_round env runner ^^ n) r) x)"
proof
  assume l: "loop_from env runner r = Some x"
  show "\<exists>n. (\<forall>k<n. round_continues env runner ((next_round env runner ^^ k) r)) \<and>
           round_stops env runner ((next_round env runner ^^ n) r) x"
  proof (cases r)
    case (Pair e v)
    show ?thesis
    proof (cases e)
      case None
      then show ?thesis using l Pair EndRun_loop_sound [of env runner v x]
        by (simp add: loop_from_def)
    next
      case (Some err)
      then have "round_stops env runner r x"
        using l Pair by (auto simp: loop_from_def round_stops_def)
      then show ?thesis by (rule rounds_stop_now)
    qed
  qed
next
  assume "\<exists>n. (\<forall>k<n. round_continues env runner ((next_round env runner ^^ k) r)) \<and>
           round_stops env runner ((next_round env runner ^^ n) r) x"
  then show "loop_from env runner r = Some x"
    using rounds_complete by blast
qed

subsection \<open>The step count of a padding run\<close>

lemma RunForSteps_loop_CurrentStep:
  assumes inc: "\<And>v v'. vm_Step env v = (None, v') \<Longrightarrow> CurrentStep v' = CurrentStep v + 1"
  shows "RunForSteps_loop env runner k v = (None, v') \<Longrightarrow> CurrentStep v' = CurrentStep v + k"
proof (induction k arbitrary: v)
  case 0
  then show ?case by simp
next
  case (Suc k)
  obtain e1 v1 where s: "vm_Step env v = (e1, v1)" by (cases "vm_Step env v")
  from Suc.prems s have e1: "e1 = None" and r: "RunForSteps_loop env runner k v1 = (None, v')"
    by (auto split: if_splits option.splits)
  from inc [of v v1] s e1 have "CurrentStep v1 = CurrentStep v + 1" by simp
  with Suc.IH [OF r] show ?case by simp
qed

lemma RunUntilNextPowerOfTwo_CurrentStep:
  assumes inc: "\<And>v v'. vm_Step env v = (None, v') \<Longrightarrow> CurrentStep v' = CurrentStep v + 1"
    and "RunUntilNextPowerOfTwo env runner v = (None, v')"
  shows "CurrentStep v' = NextPowOf2 (CurrentStep v)"
proof -
  from assms(2)
  have "RunForSteps_loop env runner (NextPowOf2 (CurrentStep v) - CurrentStep v) v = (None, v')"
    by (auto simp: RunUntilNextPowerOfTwo_def RunUntilSteps_def RunForSteps_def
        split: option.splits)
  from RunForSteps_loop_CurrentStep [OF inc this] NextPowOf2_ge [of "CurrentStep v"]
  show ?thesis by simp
qed

lemma RunForSteps_one_CurrentStep:
  assumes inc: "\<And>v v'. vm_Step env v = (None, v') \<Longrightarrow> CurrentStep v' = CurrentStep v + 1"
    and "RunForSteps env runner 1 v = (None, v')"
  shows "CurrentStep v' = CurrentStep v + 1"
proof -
  from assms(2) have "RunForSteps_loop env runner 1 v = (None, v')"
    by (auto simp: RunForSteps_def split: option.splits)
  from RunForSteps_loop_CurrentStep [OF inc this] show ?thesis by simp
qed

lemma next_round_None:
  assumes "next_round env runner r = (None, v')"
  shows "\<exists>v v1. r = (None, v) \<and> RunForSteps env runner 1 v = (None, v1) \<and>
           RunUntilNextPowerOfTwo env runner v1 = (None, v')"
  using assms by (auto simp: next_round_def split: prod.splits option.splits)

lemma spec_padding_round_CurrentStep:
  assumes inc: "\<And>v v'. vm_Step env v = (None, v') \<Longrightarrow> CurrentStep v' = CurrentStep v + 1"
  shows "spec_padding_round env runner n vm = (None, v') \<Longrightarrow>
           CurrentStep v' = NextPowOf2 (CurrentStep vm) * 2 ^ n"
proof (induction n arbitrary: v')
  case 0
  then show ?case
    using RunUntilNextPowerOfTwo_CurrentStep [OF inc]
    by (simp add: spec_padding_round_def)
next
  case (Suc n)
  then have "next_round env runner (spec_padding_round env runner n vm) = (None, v')"
    by (simp add: spec_padding_round_def)
  from next_round_None [OF this] obtain v v1 where
    r: "spec_padding_round env runner n vm = (None, v)"
    and one: "RunForSteps env runner 1 v = (None, v1)"
    and pad: "RunUntilNextPowerOfTwo env runner v1 = (None, v')" by blast
  have "CurrentStep v = 2 ^ (Bits (CurrentStep vm - 1) + n)"
    using Suc.IH [OF r] by (simp add: NextPowOf2_def power_add)
  then have "CurrentStep v1 = 2 ^ (Bits (CurrentStep vm - 1) + n) + 1"
    using RunForSteps_one_CurrentStep [OF inc one] by simp
  then have "CurrentStep v' = 2 ^ (Bits (CurrentStep vm - 1) + n + 1)"
    using RunUntilNextPowerOfTwo_CurrentStep [OF inc pad] by (simp only: NextPowOf2_Suc_pow)
  then show ?case by (simp add: NextPowOf2_def power_add)
qed

lemma RunForSteps_step_error:
  assumes "BuildHintDataMap env runner = None" "finalPc runner \<noteq> Some (Pc (RunContext u))"
    "vm_Step env u = (Some e, u')"
  shows "RunForSteps env runner (Suc k) u = (Some e, u')"
  using assms by (simp add: RunForSteps_def)

lemma EndRun_padding:
  assumes "\<not> RunEnded runner" "vm_EndRun env vm = (None, vm1)" "\<not> disableFinalizeAll"
    "ProofMode runner" "\<not> disableTracePadding"
  shows "EndRun env runner disableTracePadding disableFinalizeAll vm =
     map_option (\<lambda>(res, v). (res, if res = None then runner\<lparr> RunEnded := True \<rparr> else runner, v))
       (loop_from env runner (RunUntilNextPowerOfTwo env runner
           (vm1\<lparr> Segments := ComputeEffectiveSizes env (Segments vm1) \<rparr>)))"
  using assms
  by (simp add: EndRun_def loop_from_def Let_def split: prod.splits option.splits)

text \<open>A successful step of the machine adds one to the step count.\<close>

lemma vm_Insert_CurrentStep [simp]: "CurrentStep (vm_Insert a v vm) = CurrentStep vm"
  by (simp add: vm_Insert_def)

lemma DeduceMemoryCell_CurrentStep:
  "DeduceMemoryCell a vm = (r, vm') \<Longrightarrow> CurrentStep vm' = CurrentStep vm"
  by (auto simp: DeduceMemoryCell_def split: prod.splits)

lemma ComputeOp0Deductions_CurrentStep:
  "ComputeOp0Deductions a i dst op1 vm = (r, vm') \<Longrightarrow> CurrentStep vm' = CurrentStep vm"
  by (auto simp: ComputeOp0Deductions_def split: prod.splits sum.splits option.splits
      dest: DeduceMemoryCell_CurrentStep)

lemma ComputeOp1Deductions_CurrentStep:
  "ComputeOp1Deductions a i dst op0 res vm = (r, vm') \<Longrightarrow> CurrentStep vm' = CurrentStep vm"
  by (auto simp: ComputeOp1Deductions_def split: prod.splits sum.splits option.splits
      dest: DeduceMemoryCell_CurrentStep)

lemma ComputeOperands_CurrentStep:
  "ComputeOperands i vm = (r, vm') \<Longrightarrow> CurrentStep vm' = CurrentStep vm"
  by (auto simp: ComputeOperands_def Let_def split: prod.splits sum.splits option.splits
      dest!: ComputeOp0Deductions_CurrentStep ComputeOp1Deductions_CurrentStep)

lemma UpdateFp_CurrentStep:
  "UpdateFp i ops vm = Inr vm' \<Longrightarrow> CurrentStep vm' = CurrentStep vm"
  by (auto simp: UpdateFp_def Let_def split: FpUpdate.splits option.splits sum.splits)

lemma UpdateAp_CurrentStep:
  "UpdateAp i ops vm = Inr vm' \<Longrightarrow> CurrentStep vm' = CurrentStep vm"
  by (auto simp: UpdateAp_def Let_def split: ApUpdate.splits option.splits sum.splits)

lemma UpdatePc_CurrentStep:
  "UpdatePc i ops vm = Inr vm' \<Longrightarrow> CurrentStep vm' = CurrentStep vm"
  by (auto simp: UpdatePc_def Let_def split: PcUpdate.splits option.splits sum.splits if_splits)

lemma UpdateRegisters_CurrentStep:
  "UpdateRegisters i ops vm = (r, vm') \<Longrightarrow> CurrentStep vm' = CurrentStep vm"
  by (auto simp: UpdateRegisters_def split: sum.splits
      dest!: UpdateFp_CurrentStep UpdateAp_CurrentStep UpdatePc_CurrentStep)

lemma RunInstruction_CurrentStep:
  assumes "RunInstruction i vm = (None, vm')"
  shows "CurrentStep vm' = CurrentStep vm + 1"
proof -
  obtain r v1 where c: "ComputeOperands i vm = (r, v1)" by (cases "ComputeOperands i vm")
  note c1 = ComputeOperands_CurrentStep [OF c]
  from assms c obtain ops where r: "r = Inr ops"
    by (cases r) (auto simp: RunInstruction_def)
  let ?v2 = "v1\<lparr> Trace := Trace v1 @
               [TraceEntry (Pc (RunContext v1)) (Ap (RunContext v1)) (Fp (RunContext v1))] \<rparr>"
  obtain res3 v3 where u: "UpdateRegisters i ops ?v2 = (res3, v3)"
    by (cases "UpdateRegisters i ops ?v2")
  note u1 = UpdateRegisters_CurrentStep [OF u]
  have "vm' = v3\<lparr> CurrentStep := CurrentStep v3 + 1 \<rparr>"
    using assms c r u by (auto simp: RunInstruction_def Let_def split: option.splits)
  then show ?thesis using u1 c1 by simp
qed

lemma Step_CurrentStep:
  assumes "Step vm = (None, vm')"
  shows "CurrentStep vm' = CurrentStep vm + 1"
proof -
  from Step_fetch [OF assms] show ?thesis
  proof
    assume "vm' = vm"
    then have "Step vm = (None, vm)" using assms by simp
    then show ?thesis
      by (auto simp: Step_def split: sum.splits option.splits dest: RunInstruction_CurrentStep)
  next
    assume "\<exists>w f u i. Get (Memory (Segments vm)) (Pc (RunContext vm)) = Inr w \<and>
        GetFelt w = Some f \<and> ToU64 f = Inr u \<and> DecodeInstruction u = Inr i \<and>
        RunInstruction i vm = (None, vm')"
    then show ?thesis using RunInstruction_CurrentStep by blast
  qed
qed

subsection \<open>The end loop of a program in proof mode\<close>

lemmas end_loop_defs = Initialize_def initializeBuiltins_def initializeSegments_def
  initializeMainEntrypoint_def initializeFunctionEntrypoint_def initializeState_def
  initializeVM_def NewCairoRunner_def NewVirtualMachine_def NewMemorySegmentManager_def
  NewMemory_def AddSegment_def end_loop_program_def plain_layout_def end_loop_cells_def
  NewRelocatable_def Let_def Insert_def validateAddress_def mark_program_accessed_def
  MarkAsAccessed_def uint_of_int_def end_loop_runner_def end_loop_vm_def

lemma decode_jmp_rel: "DecodeInstruction 0x10780017fff7fff = Inr jmp_rel_instruction"
  by (simp add: DecodeInstruction_tables spec_op1_src_def spec_pc_update_def spec_res_logic_def
      spec_opcode_def spec_ap_update_def spec_fp_update_def spec_reg_def spec_offset_def
      instr_field_def bit_iff_odd_drop_bit drop_bit_eq_div jmp_rel_instruction_def)

lemma end_loop_runner_simps:
  "ProofMode end_loop_runner" "\<not> RunEnded end_loop_runner" "finalPc end_loop_runner = None"
  by (simp_all add: end_loop_defs)

lemma end_loop_vm_simps:
  "CurrentStep end_loop_vm = 0"
  "RunContext end_loop_vm =
     \<lparr> Pc = \<lparr> SegmentIndex = 0, Offset = 0 \<rparr>, Ap = \<lparr> SegmentIndex = 1, Offset = 2 \<rparr>,
       Fp = \<lparr> SegmentIndex = 1, Offset = 2 \<rparr> \<rparr>"
  "data (Memory (Segments end_loop_vm)) \<lparr> SegmentIndex = 0, Offset = 0 \<rparr>
     = Some (NewMaybeRelocatableFelt 0x10780017fff7fff)"
  "data (Memory (Segments end_loop_vm)) \<lparr> SegmentIndex = 0, Offset = 1 \<rparr>
     = Some (NewMaybeRelocatableFelt 0)"
  "data (Memory (Segments end_loop_vm)) \<lparr> SegmentIndex = 1, Offset = 1 \<rparr>
     = Some (NewMaybeRelocatableFelt 0)"
  by (simp_all add: end_loop_defs FeltFromUint64_def)

lemma end_loop_step:
  assumes "Segments v = Segments end_loop_vm" "RunContext v = RunContext end_loop_vm"
  shows "fst (Step v) = None" "Segments (snd (Step v)) = Segments end_loop_vm"
    "RunContext (snd (Step v)) = RunContext end_loop_vm"
  using assms
  by (simp_all add: step_defs decode_jmp_rel jmp_rel_instruction_def end_loop_vm_simps
      AddFelt_def felt_Add_def FeltFromUint64_def CAIRO_PRIME_def Size_def)

lemma end_loop_Steps:
  assumes "Segments v = Segments end_loop_vm" "RunContext v = RunContext end_loop_vm"
  shows "fst (Steps n v) = None \<and> Segments (snd (Steps n v)) = Segments end_loop_vm \<and>
         RunContext (snd (Steps n v)) = RunContext end_loop_vm \<and>
         CurrentStep (snd (Steps n v)) = CurrentStep v + n"
  using assms
proof (induction n arbitrary: v)
  case 0
  then show ?case by simp
next
  case (Suc n)
  note s = end_loop_step [OF Suc.prems]
  have st: "Step v = (None, snd (Step v))" using s(1) by (metis prod.collapse)
  have c: "CurrentStep (snd (Step v)) = CurrentStep v + 1" using st by (rule Step_CurrentStep)
  have "Steps (Suc n) v = Steps n (snd (Step v))"
    by (subst st [THEN arg_cong, of "\<lambda>r. case r of (Some err, v') \<Rightarrow> (Some err, v') | (None, v') \<Rightarrow> Steps n v'", folded Steps.simps(2)]) simp
  with Suc.IH [OF s(2,3)] c show ?case by simp
qed

lemma Steps_add:
  "fst (Steps a v) = None \<Longrightarrow> Steps (a + b) v = Steps b (snd (Steps a v))"
proof (induction a arbitrary: v)
  case 0
  then show ?case by simp
next
  case (Suc a)
  then show ?case by (cases "Step v") (auto split: option.splits)
qed

lemma RunForSteps_loop_Steps:
  assumes "finalPc runner = None" "vm_Step env = Step"
  shows "RunForSteps_loop env runner k v = Steps k v"
  using assms by (induction k arbitrary: v) (auto split: prod.splits option.splits)

lemma example_env_simps:
  "vm_EndRun example_env v = (None, v)" "ComputeEffectiveSizes example_env s = s"
  "BuildHintDataMap example_env r = None" "vm_Step example_env = Step"
  by (simp_all add: example_env_def)

lemma example_CheckUsedCells_builtins: "CheckUsedCells_builtins example_env bs v = None"
  by (induction bs) (simp_all add: example_env_def)

lemma example_env_checks:
  "CheckRangeCheckUsage example_env r v = None"
  "CheckMemoryUsage example_env = example_CheckMemoryUsage"
  "CheckDilutedCheckUsage example_env r v = None"
  by (simp_all add: example_env_def)

lemma example_CheckUsedCells:
  "CheckUsedCells example_env r v =
     (if CurrentStep v < 4 then Some (ErrWrap ErrInsufficientAllocatedCells ''memory holes'')
      else None)"
  by (simp add: CheckUsedCells_def example_CheckUsedCells_builtins example_CheckMemoryUsage_def
      example_env_checks)

lemma example_RunForSteps:
  "RunForSteps example_env end_loop_runner k v = Steps k v"
  by (simp add: RunForSteps_def example_env_simps RunForSteps_loop_Steps end_loop_runner_simps)

lemma end_loop_vm_Steps:
  "Steps n end_loop_vm = (None, snd (Steps n end_loop_vm))"
  "CurrentStep (snd (Steps n end_loop_vm)) = n"
  "Steps b (snd (Steps a end_loop_vm)) = (None, snd (Steps (a + b) end_loop_vm))"
proof -
  have e: "fst (Steps k end_loop_vm) = None \<and> CurrentStep (snd (Steps k end_loop_vm)) = k" for k
    using end_loop_Steps [of end_loop_vm k] by (simp add: end_loop_vm_simps(1))
  show "Steps n end_loop_vm = (None, snd (Steps n end_loop_vm))"
    using e [of n] by (metis prod.collapse)
  show "CurrentStep (snd (Steps n end_loop_vm)) = n" using e by blast
  have "Steps b (snd (Steps a end_loop_vm)) = Steps (a + b) end_loop_vm"
    using e [of a] by (simp add: Steps_add)
  also have "\<dots> = (None, snd (Steps (a + b) end_loop_vm))"
    using e [of "a + b"] by (metis prod.collapse)
  finally show "Steps b (snd (Steps a end_loop_vm)) = (None, snd (Steps (a + b) end_loop_vm))" .
qed

lemma NextPowOf2_values:
  "NextPowOf2 0 = 1" "NextPowOf2 1 = 1" "NextPowOf2 2 = 2" "NextPowOf2 3 = 4" "NextPowOf2 4 = 4"
proof -
  have b: "Bits 0 = 0" "Bits 1 = 1" "Bits 2 = 2" "Bits 3 = 2"
    by (simp_all add: Bits.simps [of 0] Bits.simps [of 1] Bits.simps [of 2] Bits.simps [of 3]
        Bits.simps [of "Suc 0"])
  show "NextPowOf2 0 = 1" "NextPowOf2 1 = 1" "NextPowOf2 2 = 2" "NextPowOf2 3 = 4" "NextPowOf2 4 = 4"
    using b by (simp_all add: NextPowOf2_def)
qed

lemma example_pad:
  "RunUntilNextPowerOfTwo example_env end_loop_runner (snd (Steps a end_loop_vm)) =
     (None, snd (Steps (a + (NextPowOf2 a - a)) end_loop_vm))"
  by (simp add: RunUntilNextPowerOfTwo_def RunUntilSteps_def example_RunForSteps
      end_loop_vm_Steps(2,3))

lemma Steps_0_vm: "snd (Steps 0 v) = v"
  by simp

lemma spec_padding_round_0:
  "spec_padding_round env runner 0 vm = RunUntilNextPowerOfTwo env runner vm"
  by (simp add: spec_padding_round_def)

lemma spec_padding_round_Suc:
  "spec_padding_round env runner (Suc n) vm =
     next_round env runner (spec_padding_round env runner n vm)"
  by (simp add: spec_padding_round_def)

lemma example_rounds:
  "spec_padding_round example_env end_loop_runner 0 end_loop_vm = (None, snd (Steps 1 end_loop_vm))"
  "spec_padding_round example_env end_loop_runner 1 end_loop_vm = (None, snd (Steps 2 end_loop_vm))"
  "spec_padding_round example_env end_loop_runner 2 end_loop_vm = (None, snd (Steps 4 end_loop_vm))"
proof -
  have p0: "RunUntilNextPowerOfTwo example_env end_loop_runner end_loop_vm
              = (None, snd (Steps 1 end_loop_vm))"
    using example_pad [of 0] by (simp add: NextPowOf2_values del: Steps.simps(2) One_nat_def)
  have p2: "RunUntilNextPowerOfTwo example_env end_loop_runner (snd (Steps 2 end_loop_vm))
              = (None, snd (Steps 2 end_loop_vm))"
    using example_pad [of 2] by (simp add: NextPowOf2_values del: Steps.simps One_nat_def)
  have p3: "RunUntilNextPowerOfTwo example_env end_loop_runner (snd (Steps 3 end_loop_vm))
              = (None, snd (Steps 4 end_loop_vm))"
    using example_pad [of 3] by (simp add: NextPowOf2_values del: Steps.simps One_nat_def)
  have s1: "RunForSteps example_env end_loop_runner 1 (snd (Steps 1 end_loop_vm))
              = (None, snd (Steps 2 end_loop_vm))"
    using end_loop_vm_Steps(3) [of 1 1]
    by (simp add: example_RunForSteps del: Steps.simps One_nat_def)
  have s2: "RunForSteps example_env end_loop_runner 1 (snd (Steps 2 end_loop_vm))
              = (None, snd (Steps 3 end_loop_vm))"
    using end_loop_vm_Steps(3) [of 1 2]
    by (simp add: example_RunForSteps del: Steps.simps One_nat_def)
  have n1: "next_round example_env end_loop_runner (None, snd (Steps 1 end_loop_vm))
              = (None, snd (Steps 2 end_loop_vm))"
    by (simp add: next_round_def s1 p2 del: Steps.simps One_nat_def)
  have n2: "next_round example_env end_loop_runner (None, snd (Steps 2 end_loop_vm))
              = (None, snd (Steps 4 end_loop_vm))"
    by (simp add: next_round_def s2 p3 del: Steps.simps One_nat_def)
  show r0: "spec_padding_round example_env end_loop_runner 0 end_loop_vm
              = (None, snd (Steps 1 end_loop_vm))"
    by (simp only: spec_padding_round_0 p0)
  have "spec_padding_round example_env end_loop_runner 1 end_loop_vm
          = spec_padding_round example_env end_loop_runner (Suc 0) end_loop_vm"
    by simp
  also have "\<dots> = (None, snd (Steps 2 end_loop_vm))"
    by (simp only: spec_padding_round_Suc r0 n1)
  finally show r1: "spec_padding_round example_env end_loop_runner 1 end_loop_vm
              = (None, snd (Steps 2 end_loop_vm))" .
  have "spec_padding_round example_env end_loop_runner 2 end_loop_vm
          = spec_padding_round example_env end_loop_runner (Suc 1) end_loop_vm"
    by (simp only: Suc_1)
  also have "\<dots> = (None, snd (Steps 4 end_loop_vm))"
    by (simp only: spec_padding_round_Suc r1 n2)
  finally show "spec_padding_round example_env end_loop_runner 2 end_loop_vm
              = (None, snd (Steps 4 end_loop_vm))" .
qed

lemma example_checks:
  "CheckUsedCells example_env r (snd (Steps 1 end_loop_vm))
     = Some (ErrWrap ErrInsufficientAllocatedCells ''memory holes'')"
  "CheckUsedCells example_env r (snd (Steps 2 end_loop_vm))
     = Some (ErrWrap ErrInsufficientAllocatedCells ''memory holes'')"
  "CheckUsedCells example_env r (snd (Steps 3 end_loop_vm))
     = Some (ErrWrap ErrInsufficientAllocatedCells ''memory holes'')"
  "CheckUsedCells example_env r (snd (Steps 4 end_loop_vm)) = None"
  by (simp_all add: example_CheckUsedCells end_loop_vm_Steps(2) del: Steps.simps)

lemma NextPowOf2_is_pow: "\<exists>j. NextPowOf2 n = 2 ^ j"
  by (auto simp: NextPowOf2_def)

lemma RunForSteps_Suc:
  assumes "BuildHintDataMap env runner = None" "finalPc runner \<noteq> Some (Pc (RunContext u))"
  shows "RunForSteps env runner (Suc k) u =
     (case vm_Step env u of
        (Some err, u') \<Rightarrow> (Some err, u')
      | (None, u') \<Rightarrow> RunForSteps env runner k u')"
  using assms by (auto simp: RunForSteps_def split: prod.splits option.splits)

text \<open>A machine without memory cannot fetch an instruction.\<close>

lemma empty_vm_Step: "Step NewVirtualMachine = (Some ErrFailedToFetchInstruction, NewVirtualMachine)"
  by (simp add: Step_def Get_def NewVirtualMachine_def NewMemorySegmentManager_def NewMemory_def)

lemma empty_vm_Pc: "finalPc end_loop_runner \<noteq> Some (Pc (RunContext NewVirtualMachine))"
  by (simp add: end_loop_runner_simps)

subsection \<open>The padding of the trace by \<open>EndRun\<close>\<close>

text \<open>
  C8, as amended. Let \<open>EndRun\<close> be called on a runner in proof mode whose run has not
  ended, with trace padding and finalization not disabled, and let the \<open>EndRun\<close> of the
  machine succeed; \<open>vm2\<close> is the machine after \<open>ComputeEffectiveSizes\<close>. Then \<open>EndRun\<close>
  returns an outcome exactly when there is a round \<open>n\<close> of padding such that every round
  before it ran without error and had its accounting check fail with an error wrapping
  \<open>ErrInsufficientAllocatedCells\<close>, and round \<open>n\<close> ends the run: the outcome is the
  error of its steps, or else what the accounting check says of its state, an error that
  is not the recovered one or no error; the run is marked as ended exactly when there is
  no error. Round 0 runs until the next power of two, each further round runs one more
  step and pads to the next power of two again. When every successful step adds one to
  the step count, round \<open>m\<close> ends at the step count \<open>NextPowOf2 c * 2\<^sup>m\<close>, where \<open>c\<close> is
  the step count of \<open>vm2\<close> and \<open>NextPowOf2 c\<close> is the least power of two not below
  \<open>c\<close>. A run of steps, when the hints compile and \<open>pc\<close> is not the final \<open>pc\<close>, stops
  with the error of its first step if that fails and goes on with the remaining steps
  otherwise.
\<close>

theorem EndRun_proof_mode_padding:
  assumes "\<not> RunEnded runner" and "vm_EndRun env vm = (None, vm1)"
    and "\<not> disableFinalizeAll" and "ProofMode runner" and "\<not> disableTracePadding"
    and "vm2 = vm1\<lparr> Segments := ComputeEffectiveSizes env (Segments vm1) \<rparr>"
  shows
    "(EndRun env runner disableTracePadding disableFinalizeAll vm = Some (res, runner', vm') \<longleftrightarrow>
        (\<exists>n. (\<forall>k<n. round_continues env runner (spec_padding_round env runner k vm2)) \<and>
             round_stops env runner (spec_padding_round env runner n vm2) (res, vm') \<and>
             runner' = (if res = None then runner\<lparr> RunEnded := True \<rparr> else runner))) \<and>
     ((\<forall>v v'. vm_Step env v = (None, v') \<longrightarrow> CurrentStep v' = CurrentStep v + 1) \<and>
      spec_padding_round env runner m vm2 = (None, vm3) \<longrightarrow>
        CurrentStep vm3 = NextPowOf2 (CurrentStep vm2) * 2 ^ m) \<and>
     (CurrentStep vm2 \<le> NextPowOf2 (CurrentStep vm2) \<and>
      (\<exists>j. NextPowOf2 (CurrentStep vm2) = 2 ^ j) \<and>
      (\<forall>j. CurrentStep vm2 \<le> 2 ^ j \<longrightarrow> NextPowOf2 (CurrentStep vm2) \<le> 2 ^ j)) \<and>
     (BuildHintDataMap env runner = None \<and> finalPc runner \<noteq> Some (Pc (RunContext u)) \<longrightarrow>
        RunForSteps env runner (Suc k) u =
          (case vm_Step env u of
             (Some err, u') \<Rightarrow> (Some err, u')
           | (None, u') \<Rightarrow> RunForSteps env runner k u'))"
proof (intro conjI impI allI)
  let ?pad = "RunUntilNextPowerOfTwo env runner vm2"
  have e: "EndRun env runner disableTracePadding disableFinalizeAll vm =
     map_option (\<lambda>(res, v). (res, if res = None then runner\<lparr> RunEnded := True \<rparr> else runner, v))
       (loop_from env runner ?pad)"
    using EndRun_padding [OF assms(1-5)] assms(6) by simp
  have r: "(next_round env runner ^^ j) ?pad = spec_padding_round env runner j vm2" for j
    by (simp add: spec_padding_round_def)
  have "EndRun env runner disableTracePadding disableFinalizeAll vm = Some (res, runner', vm') \<longleftrightarrow>
        loop_from env runner ?pad = Some (res, vm') \<and>
        runner' = (if res = None then runner\<lparr> RunEnded := True \<rparr> else runner)"
    by (cases "loop_from env runner ?pad") (auto simp: e)
  also have "\<dots> \<longleftrightarrow>
        (\<exists>n. (\<forall>k<n. round_continues env runner (spec_padding_round env runner k vm2)) \<and>
             round_stops env runner (spec_padding_round env runner n vm2) (res, vm')) \<and>
        runner' = (if res = None then runner\<lparr> RunEnded := True \<rparr> else runner)"
    by (simp only: loop_from_rounds r)
  finally show "EndRun env runner disableTracePadding disableFinalizeAll vm
        = Some (res, runner', vm') \<longleftrightarrow>
        (\<exists>n. (\<forall>k<n. round_continues env runner (spec_padding_round env runner k vm2)) \<and>
             round_stops env runner (spec_padding_round env runner n vm2) (res, vm') \<and>
             runner' = (if res = None then runner\<lparr> RunEnded := True \<rparr> else runner))"
    by blast
next
  assume a: "(\<forall>v v'. vm_Step env v = (None, v') \<longrightarrow> CurrentStep v' = CurrentStep v + 1) \<and>
      spec_padding_round env runner m vm2 = (None, vm3)"
  then have inc: "\<And>v v'. vm_Step env v = (None, v') \<Longrightarrow> CurrentStep v' = CurrentStep v + 1"
    by blast
  from a have "spec_padding_round env runner m vm2 = (None, vm3)" by blast
  with spec_padding_round_CurrentStep [of env runner m vm2 vm3] inc
  show "CurrentStep vm3 = NextPowOf2 (CurrentStep vm2) * 2 ^ m"
    by blast
next
  show "CurrentStep vm2 \<le> NextPowOf2 (CurrentStep vm2)" by (rule NextPowOf2_ge)
  show "\<exists>j. NextPowOf2 (CurrentStep vm2) = 2 ^ j" by (rule NextPowOf2_is_pow)
next
  fix j assume "CurrentStep vm2 \<le> 2 ^ j"
  then show "NextPowOf2 (CurrentStep vm2) \<le> 2 ^ j" by (rule NextPowOf2_least)
next
  assume "BuildHintDataMap env runner = None \<and> finalPc runner \<noteq> Some (Pc (RunContext u))"
  then show "RunForSteps env runner (Suc k) u =
          (case vm_Step env u of
             (Some err, u') \<Rightarrow> (Some err, u')
           | (None, u') \<Rightarrow> RunForSteps env runner k u')"
    by (simp add: RunForSteps_Suc)
qed


text \<open>
  The runner of the end loop in proof mode, at step 0, with an accounting check that fails
  before step 4: the rounds end at the steps 1, 2 and 4, the first two checks fail and are
  recovered, the third passes, and \<open>EndRun\<close> returns without error after 4 steps with
  the run marked as ended. A step of the machine without memory fails, and so does the run
  of one step from it, with the same error.
\<close>

theorem EndRun_proof_mode_padding_witness:
  "\<not> RunEnded end_loop_runner \<and> ProofMode end_loop_runner \<and>
   vm_EndRun example_env end_loop_vm = (None, end_loop_vm) \<and>
   end_loop_vm = end_loop_vm\<lparr> Segments := ComputeEffectiveSizes example_env (Segments end_loop_vm) \<rparr> \<and>
   CurrentStep end_loop_vm = 0 \<and>
   round_continues example_env end_loop_runner
     (spec_padding_round example_env end_loop_runner 0 end_loop_vm) \<and>
   round_continues example_env end_loop_runner
     (spec_padding_round example_env end_loop_runner 1 end_loop_vm) \<and>
   round_stops example_env end_loop_runner
     (spec_padding_round example_env end_loop_runner 2 end_loop_vm)
     (None, snd (Steps 4 end_loop_vm)) \<and>
   EndRun example_env end_loop_runner False False end_loop_vm =
     Some (None, end_loop_runner\<lparr> RunEnded := True \<rparr>, snd (Steps 4 end_loop_vm)) \<and>
   CurrentStep (snd (Steps 4 end_loop_vm)) = NextPowOf2 (CurrentStep end_loop_vm) * 2 ^ 2 \<and>
   NextPowOf2 (CurrentStep end_loop_vm) = 1 \<and>
   BuildHintDataMap example_env end_loop_runner = None \<and>
   vm_Step example_env NewVirtualMachine = (Some ErrFailedToFetchInstruction, NewVirtualMachine) \<and>
   RunForSteps example_env end_loop_runner 1 NewVirtualMachine =
     (Some ErrFailedToFetchInstruction, NewVirtualMachine)"
proof -
  have h: "\<not> RunEnded end_loop_runner" "vm_EndRun example_env end_loop_vm = (None, end_loop_vm)"
    "\<not> False" "ProofMode end_loop_runner" "\<not> False"
    "end_loop_vm = end_loop_vm\<lparr> Segments := ComputeEffectiveSizes example_env (Segments end_loop_vm) \<rparr>"
    by (simp_all add: end_loop_runner_simps example_env_simps)
  note t = EndRun_proof_mode_padding [OF h, where res = None
      and runner' = "end_loop_runner\<lparr> RunEnded := True \<rparr>" and vm' = "snd (Steps 4 end_loop_vm)"
      and m = 2 and ?vm3.0 = "snd (Steps 4 end_loop_vm)" and u = NewVirtualMachine and k = 0]
  have c0: "round_continues example_env end_loop_runner
     (spec_padding_round example_env end_loop_runner 0 end_loop_vm)"
    by (simp add: round_continues_def recovered_def example_rounds example_env_simps
        example_checks del: Steps.simps One_nat_def)
  have c1: "round_continues example_env end_loop_runner
     (spec_padding_round example_env end_loop_runner 1 end_loop_vm)"
    by (simp add: round_continues_def recovered_def example_rounds example_env_simps
        example_checks del: Steps.simps One_nat_def)
  have s2: "round_stops example_env end_loop_runner
     (spec_padding_round example_env end_loop_runner 2 end_loop_vm)
     (None, snd (Steps 4 end_loop_vm))"
    by (simp add: round_stops_def recovered_def example_rounds example_env_simps
        example_checks del: Steps.simps One_nat_def)
  have "\<forall>k<2. round_continues example_env end_loop_runner
     (spec_padding_round example_env end_loop_runner k end_loop_vm)"
  proof (intro allI impI)
    fix k :: nat assume "k < 2"
    then have "k = 0 \<or> k = 1" by auto
    then show "round_continues example_env end_loop_runner
       (spec_padding_round example_env end_loop_runner k end_loop_vm)"
      using c0 c1 by blast
  qed
  with s2 have ex: "\<exists>n. (\<forall>k<n. round_continues example_env end_loop_runner
          (spec_padding_round example_env end_loop_runner k end_loop_vm)) \<and>
       round_stops example_env end_loop_runner
          (spec_padding_round example_env end_loop_runner n end_loop_vm)
          (None, snd (Steps 4 end_loop_vm)) \<and>
       end_loop_runner\<lparr> RunEnded := True \<rparr> =
          (if (None :: error option) = None then end_loop_runner\<lparr> RunEnded := True \<rparr>
           else end_loop_runner)"
    by (intro exI [of _ 2]) simp
  have e: "EndRun example_env end_loop_runner False False end_loop_vm =
     Some (None, end_loop_runner\<lparr> RunEnded := True \<rparr>, snd (Steps 4 end_loop_vm))"
    using t ex by blast
  have inc: "\<forall>v v'. vm_Step example_env v = (None, v') \<longrightarrow> CurrentStep v' = CurrentStep v + 1"
    by (simp add: example_env_simps Step_CurrentStep)
  have cs: "CurrentStep (snd (Steps 4 end_loop_vm)) = NextPowOf2 (CurrentStep end_loop_vm) * 2 ^ 2"
    using t inc example_rounds(3) by blast
  have hm: "BuildHintDataMap example_env end_loop_runner = None"
    by (simp add: example_env_simps)
  have st: "vm_Step example_env NewVirtualMachine
              = (Some ErrFailedToFetchInstruction, NewVirtualMachine)"
    by (simp add: example_env_simps empty_vm_Step)
  have "RunForSteps example_env end_loop_runner (Suc 0) NewVirtualMachine =
     (case vm_Step example_env NewVirtualMachine of
        (Some err, u') \<Rightarrow> (Some err, u')
      | (None, u') \<Rightarrow> RunForSteps example_env end_loop_runner 0 u')"
    using t hm empty_vm_Pc by blast
  then have rf: "RunForSteps example_env end_loop_runner 1 NewVirtualMachine =
     (Some ErrFailedToFetchInstruction, NewVirtualMachine)"
    by (simp add: st)
  have np: "NextPowOf2 (CurrentStep end_loop_vm) = 1"
    by (simp add: end_loop_vm_simps(1) NextPowOf2_values)
  show ?thesis
    using h(1,2,4,6) end_loop_vm_simps(1) c0 c1 s2 e cs np hm st rf by (intro conjI)
qed

text \<open>
  C8 as stated fails. The runner is in proof mode and the machine is at step 3, where the
  accounting check fails with the recovered error and the next power of two is 4. Called
  with trace padding disabled, \<open>EndRun\<close> returns without error and marks the run as
  ended; it executes no step, the machine it leaves is the one it was given, at step 3.
\<close>

theorem EndRun_without_padding_counterexample:
  "ProofMode end_loop_runner \<and> \<not> RunEnded end_loop_runner \<and>
   CurrentStep (snd (Steps 3 end_loop_vm)) = 3 \<and> NextPowOf2 3 = 4 \<and>
   EndRun example_env end_loop_runner True False (snd (Steps 3 end_loop_vm)) =
     Some (None, end_loop_runner\<lparr> RunEnded := True \<rparr>, snd (Steps 3 end_loop_vm)) \<and>
   CheckUsedCells example_env end_loop_runner (snd (Steps 3 end_loop_vm)) =
     Some (ErrWrap ErrInsufficientAllocatedCells ''memory holes'')"
  by (simp add: end_loop_runner_simps end_loop_vm_Steps(2) NextPowOf2_values EndRun_def
      example_env_simps example_checks del: Steps.simps One_nat_def)

end
